(* ===== verification/Prelude.thy ===== *)
theory Prelude
  imports Main "HOL-Library.List_Lexorder" "HOL-Library.Char_ord" "HOL-Library.Signed_Division"
begin

text \<open>
  What every component shares: the outcome type of a Go call (a value, a returned
  \<^verbatim>\<open>error\<close> or a panic), sequencing of such calls, loops over a slice that may
  fail, Go's fixed-width integer arithmetic written out over \<^typ>\<open>int\<close>, Go's bytewise
  order on strings, and facts on strictly sorted lists that the coin components use.
\<close>

section \<open>Outcomes of a call\<close>

text \<open>
  A Go function that can fail either returns an \<^verbatim>\<open>error\<close> value or panics. Both are
  values here; the string is the fixed part of the message of the source. \<open>Inr\<close> carries
  the normal result.
\<close>

datatype failure = Err string | Panic string

type_synonym 'a res = "failure + 'a"

fun is_panic :: "failure \<Rightarrow> bool" where
  "is_panic (Panic _) = True"
| "is_panic (Err _) = False"

definition bindR :: "'a res \<Rightarrow> ('a \<Rightarrow> 'b res) \<Rightarrow> 'b res" where
  "bindR m f = (case m of Inl e \<Rightarrow> Inl e | Inr x \<Rightarrow> f x)"

definition okR :: "'a res \<Rightarrow> bool" where
  "okR m = (case m of Inl _ \<Rightarrow> False | Inr _ \<Rightarrow> True)"

text \<open>A deferred \<^verbatim>\<open>recover()\<close>: a panic becomes the given value, an error stays an error.\<close>

definition recoverR :: "'a res \<Rightarrow> 'a \<Rightarrow> 'a res" where
  "recoverR m d = (case m of Inl (Panic _) \<Rightarrow> Inr d | Inl (Err s) \<Rightarrow> Inl (Err s) | Inr x \<Rightarrow> Inr x)"

text \<open>A helper of the source that panics on a returned error (\<^verbatim>\<open>if err != nil { panic(err) }\<close>).\<close>

definition must :: "'a res \<Rightarrow> 'a res" where
  "must m = (case m of Inl (Err s) \<Rightarrow> Inl (Panic s) | Inl (Panic s) \<Rightarrow> Inl (Panic s) | Inr x \<Rightarrow> Inr x)"

definition guardR :: "bool \<Rightarrow> failure \<Rightarrow> unit res" where
  "guardR b e = (if b then Inr () else Inl e)"

lemma bindR_Inl [simp]: "bindR (Inl e) f = Inl e"
  by (simp add: bindR_def)

lemma bindR_Inr [simp]: "bindR (Inr x) f = f x"
  by (simp add: bindR_def)

lemma bindR_eq_Inr: "bindR m f = Inr y \<longleftrightarrow> (\<exists>x. m = Inr x \<and> f x = Inr y)"
  by (cases m) auto

lemma bindR_eq_Inl: "bindR m f = Inl e \<longleftrightarrow> m = Inl e \<or> (\<exists>x. m = Inr x \<and> f x = Inl e)"
  by (cases m) auto

lemma bindR_assoc: "bindR (bindR m f) g = bindR m (\<lambda>x. bindR (f x) g)"
  by (cases m) auto

lemma bindR_InrE:
  assumes "bindR m f = Inr y"
  obtains x where "m = Inr x" and "f x = Inr y"
  using assms by (auto simp: bindR_eq_Inr)

lemma bindR_cong [fundef_cong]:
  assumes "m = m'" and "\<And>x. m' = Inr x \<Longrightarrow> f x = f' x"
  shows "bindR m f = bindR m' f'"
  using assms by (cases m') auto

lemma okR_simps [simp]: "okR (Inr x)" "\<not> okR (Inl e)"
  by (simp_all add: okR_def)

lemma okR_iff: "okR m \<longleftrightarrow> (\<exists>x. m = Inr x)"
  by (cases m) auto

lemma recoverR_simps [simp]:
  "recoverR (Inr x) d = Inr x"
  "recoverR (Inl (Panic s)) d = Inr d"
  "recoverR (Inl (Err s)) d = Inl (Err s)"
  by (simp_all add: recoverR_def)

lemma must_simps [simp]:
  "must (Inr x) = Inr x"
  "must (Inl (Err s)) = Inl (Panic s)"
  "must (Inl (Panic s)) = Inl (Panic s)"
  by (simp_all add: must_def)

lemma must_eq_Inr [simp]: "must m = Inr x \<longleftrightarrow> m = Inr x"
  by (auto simp: must_def split: sum.splits failure.splits)

lemma guardR_simps [simp]:
  "guardR b e = Inr u \<longleftrightarrow> b"
  "guardR b e = Inl e' \<longleftrightarrow> \<not> b \<and> e' = e"
  by (auto simp: guardR_def)

lemma bindR_guardR: "bindR (guardR b e) f = (if b then f () else Inl e)"
  by (simp add: guardR_def)

text \<open>
  A call that never returns an error value: it returns or panics. Recovering such a call
  always gives a value.
\<close>

definition no_err :: "'a res \<Rightarrow> bool" where
  "no_err m = (case m of Inl e \<Rightarrow> is_panic e | Inr _ \<Rightarrow> True)"

lemma no_err_simps [simp]: "no_err (Inr x)" "no_err (Inl (Panic s))" "\<not> no_err (Inl (Err s))"
  by (simp_all add: no_err_def)

lemma no_err_bindR: "no_err m \<Longrightarrow> (\<And>x. m = Inr x \<Longrightarrow> no_err (f x)) \<Longrightarrow> no_err (bindR m f)"
  by (cases m) (auto simp: no_err_def)

lemma recoverR_cases:
  assumes "no_err m"
  obtains x where "m = Inr x" and "recoverR m d = Inr x" | "recoverR m d = Inr d"
proof (cases m)
  case (Inl e)
  with assms show ?thesis using that by (cases e) auto
qed (use that in auto)

text \<open>Reading and writing a slice element panics out of range.\<close>

definition indexR :: "'a list \<Rightarrow> int \<Rightarrow> 'a res" where
  "indexR xs i = (if 0 \<le> i \<and> nat i < length xs then Inr (xs ! nat i) else Inl (Panic ''index out of range''))"

definition updateR :: "'a list \<Rightarrow> int \<Rightarrow> 'a \<Rightarrow> 'a list res" where
  "updateR xs i v = (if 0 \<le> i \<and> nat i < length xs then Inr (xs[nat i := v]) else Inl (Panic ''index out of range''))"

lemma no_err_indexR [simp]: "no_err (indexR xs i)"
  by (simp add: indexR_def)

section \<open>Loops over a slice\<close>

text \<open>
  \<^verbatim>\<open>for _, x := range xs { ... }\<close> with an accumulator: \<open>foldR\<close> runs the body from left
  to right and stops at the first failure. \<open>mapR\<close> is the loop that appends one result
  per element.
\<close>

fun foldR :: "('a \<Rightarrow> 's \<Rightarrow> 's res) \<Rightarrow> 'a list \<Rightarrow> 's \<Rightarrow> 's res" where
  "foldR f [] s = Inr s"
| "foldR f (x # xs) s = bindR (f x s) (foldR f xs)"

fun mapR :: "('a \<Rightarrow> 'b res) \<Rightarrow> 'a list \<Rightarrow> 'b list res" where
  "mapR f [] = Inr []"
| "mapR f (x # xs) = bindR (f x) (\<lambda>y. bindR (mapR f xs) (\<lambda>ys. Inr (y # ys)))"

lemma foldR_append: "foldR f (xs @ ys) s = bindR (foldR f xs s) (foldR f ys)"
proof (induction xs arbitrary: s)
  case (Cons x xs)
  then show ?case by (cases "f x s") simp_all
qed simp

lemma foldR_map: "foldR f (map g xs) s = foldR (\<lambda>x. f (g x)) xs s"
proof (induction xs arbitrary: s)
  case (Cons x xs)
  then show ?case by (cases "f (g x) s") simp_all
qed simp

lemma foldR_cong [fundef_cong]:
  assumes "xs = ys" and "\<And>x s. x \<in> set ys \<Longrightarrow> f x s = g x s" and "s = t"
  shows "foldR f xs s = foldR g ys t"
  using assms by (induction ys arbitrary: xs s t) (auto intro!: bindR_cong)

lemma mapR_cong [fundef_cong]:
  assumes "xs = ys" and "\<And>x. x \<in> set ys \<Longrightarrow> f x = g x"
  shows "mapR f xs = mapR g ys"
  using assms by (induction ys arbitrary: xs) auto

text \<open>The invariant rule of a loop: kept by the body, it holds at the end.\<close>

lemma foldR_invariant:
  assumes "foldR f xs s = Inr t" and "I s"
    and "\<And>x u v. x \<in> set xs \<Longrightarrow> I u \<Longrightarrow> f x u = Inr v \<Longrightarrow> I v"
  shows "I t"
  using assms by (induction xs arbitrary: s) (auto simp: bindR_eq_Inr)

text \<open>A loop whose body never fails under the invariant returns.\<close>

lemma foldR_total:
  assumes "I s" and "\<And>x u. x \<in> set xs \<Longrightarrow> I u \<Longrightarrow> \<exists>v. f x u = Inr v \<and> I v"
  shows "\<exists>t. foldR f xs s = Inr t \<and> I t"
  using assms
proof (induction xs arbitrary: s)
  case Nil
  then show ?case by simp
next
  case (Cons x xs)
  then obtain v where "f x s = Inr v" and "I v" by fastforce
  with Cons show ?case by simp
qed

lemma mapR_Inr_iff:
  "mapR f xs = Inr ys \<longleftrightarrow> length ys = length xs \<and> (\<forall>i < length xs. f (xs ! i) = Inr (ys ! i))"
proof (induction xs arbitrary: ys)
  case Nil
  then show ?case by auto
next
  case (Cons x xs)
  then show ?case
    by (cases ys) (auto simp: bindR_eq_Inr nth_Cons less_Suc_eq_0_disj split: nat.splits)
qed

lemma mapR_eq_map: "(\<And>x. x \<in> set xs \<Longrightarrow> f x = Inr (g x)) \<Longrightarrow> mapR f xs = Inr (map g xs)"
  by (induction xs) auto

lemma mapR_Inr_map:
  assumes "mapR f xs = Inr ys" and "\<And>x y. x \<in> set xs \<Longrightarrow> f x = Inr y \<Longrightarrow> y = g x"
  shows "ys = map g xs"
  using assms by (induction xs arbitrary: ys) (auto simp: bindR_eq_Inr)

lemma mapR_total:
  assumes "\<And>x. x \<in> set xs \<Longrightarrow> \<exists>y. f x = Inr y \<and> R x y"
  shows "\<exists>ys. mapR f xs = Inr ys \<and> list_all2 R xs ys"
  using assms
proof (induction xs)
  case (Cons x xs)
  then obtain y ys where "f x = Inr y" "R x y" "mapR f xs = Inr ys" "list_all2 R xs ys" by fastforce
  then show ?case by simp
qed simp

section \<open>Fixed-width integers\<close>

text \<open>
  Go's \<^verbatim>\<open>int64\<close> (and \<^verbatim>\<open>int\<close> on the supported platforms) wraps around in two's complement,
  \<^verbatim>\<open>uint64\<close> modulo \<open>2^64\<close>. A value is an \<^typ>\<open>int\<close> and every operation that can leave the
  range is followed by one of these. Go's integer division truncates towards zero, which
  is \<open>sdiv\<close> of \<^verbatim>\<open>HOL-Library.Signed_Division\<close>.
\<close>

definition wrap64 :: "int \<Rightarrow> int" where
  "wrap64 x = (x + 2 ^ 63) mod 2 ^ 64 - 2 ^ 63"

definition wrapu64 :: "int \<Rightarrow> int" where
  "wrapu64 x = x mod 2 ^ 64"

abbreviation is_int64 :: "int \<Rightarrow> bool" where
  "is_int64 x \<equiv> - (2 ^ 63) \<le> x \<and> x < 2 ^ 63"

abbreviation is_uint64 :: "int \<Rightarrow> bool" where
  "is_uint64 x \<equiv> 0 \<le> x \<and> x < 2 ^ 64"

lemma wrap64_range: "is_int64 (wrap64 x)"
  by (simp add: wrap64_def)

lemma wrap64_id: "is_int64 x \<Longrightarrow> wrap64 x = x"
  by (simp add: wrap64_def)

lemma wrapu64_range: "is_uint64 (wrapu64 x)"
  by (simp add: wrapu64_def)

lemma wrapu64_id: "is_uint64 x \<Longrightarrow> wrapu64 x = x"
  by (simp add: wrapu64_def)

lemma wrap64_eq_mod: "wrap64 x mod 2 ^ 64 = x mod 2 ^ 64"
  by (simp add: wrap64_def mod_diff_left_eq)

lemma sdiv_nonneg: "0 \<le> a \<Longrightarrow> 0 < b \<Longrightarrow> (a::int) sdiv b = a div b"
  by (cases "a = 0") (auto simp: signed_divide_int_def)

lemma sdiv_bounds:
  fixes a b :: int
  assumes "0 \<le> a" and "0 < b"
  shows "0 \<le> a sdiv b" and "(a sdiv b) * b \<le> a" and "a < (a sdiv b + 1) * b"
proof -
  have e: "a sdiv b = a div b" using assms by (rule sdiv_nonneg)
  have m: "a div b * b + a mod b = a" by simp
  have r: "0 \<le> a mod b" "a mod b < b" using assms by simp_all
  show "0 \<le> a sdiv b" using assms by (simp add: e pos_imp_zdiv_nonneg_iff)
  show "(a sdiv b) * b \<le> a" using m r unfolding e by linarith
  show "a < (a sdiv b + 1) * b" using m r unfolding e distrib_right by linarith
qed

section \<open>Lists sorted by a key\<close>

text \<open>
  The order on strings is Go's: bytewise lexicographic (\<^verbatim>\<open>List_Lexorder\<close> over
  \<^verbatim>\<open>Char_ord\<close>). A list with strictly increasing keys is determined by what it holds
  under each key.
\<close>

abbreviation strict_sorted_by :: "('a \<Rightarrow> 'k::linorder) \<Rightarrow> 'a list \<Rightarrow> bool" where
  "strict_sorted_by k xs \<equiv> sorted_wrt (<) (map k xs)"

lemma strict_sorted_distinct: "strict_sorted_by k xs \<Longrightarrow> distinct (map k xs)"
  by (simp add: strict_sorted_iff)

lemma strict_sorted_by_iff:
  "strict_sorted_by k xs \<longleftrightarrow> sorted (map k xs) \<and> distinct (map k xs)"
  by (simp add: strict_sorted_iff)

lemma sort_key_id: "sorted (map k xs) \<Longrightarrow> sort_key k xs = xs"
  by (induction xs) (auto simp: insort_is_Cons)

lemma sort_key_strict:
  "distinct (map k xs) \<Longrightarrow> strict_sorted_by k (sort_key k xs)"
  by (simp add: strict_sorted_by_iff distinct_map)

lemma strict_sorted_unique:
  assumes "strict_sorted_by k xs" and "strict_sorted_by k ys" and "set xs = set ys"
  shows "xs = ys"
proof -
  have "map k xs = map k ys"
    using assms by (intro strict_sorted_equal) auto
  moreover have "inj_on k (set xs \<union> set ys)"
    using assms strict_sorted_distinct [OF assms(1)] by (auto simp: distinct_map)
  ultimately show ?thesis
    by (auto dest: inj_on_map_eq_map [THEN iffD1])
qed

lemma sort_key_perm_eq:
  assumes "distinct (map k xs)" and "distinct (map k ys)" and "set xs = set ys"
  shows "sort_key k xs = sort_key k ys"
  using assms by (intro strict_sorted_unique [where k = k] sort_key_strict) auto

lemma strict_sorted_by_filter: "strict_sorted_by k xs \<Longrightarrow> strict_sorted_by k (filter P xs)"
  by (induction xs) auto

lemma find_append:
  "find P (xs @ ys) = (case find P xs of None \<Rightarrow> find P ys | Some x \<Rightarrow> Some x)"
  by (induction xs) auto

end
