(* ===== verification/SdkMath.thy ===== *)
theory SdkMath
  imports Prelude
begin

text \<open>
  The arithmetic of \<^verbatim>\<open>cosmossdk.io/math\<close>, which is a dependency of the repository and not
  part of it. Its operations are a parameter of the model: a record \<open>math_ops\<close> that the
  definitions of the components take as an argument. What the components rely on is the
  documented behaviour of the package, stated as the laws of the locale \<open>sdk_math\<close>:
  an \<^verbatim>\<open>Int\<close> holds an integer of absolute value below \<open>2^256\<close> and its operations panic when the
  result leaves that range; a \<^verbatim>\<open>LegacyDec\<close> is a fixed-point number with 18 decimals, whose
  \<^verbatim>\<open>Mul\<close> and \<^verbatim>\<open>Quo\<close> round to the nearest representable number, whose \<^verbatim>\<open>Truncate\<close> variants
  round towards zero, and whose operations panic on overflow (never while the scaled result
  stays below \<open>2^315\<close>) and on division by zero.

  An initialised \<^verbatim>\<open>Int\<close> is represented by the integer it holds, an initialised \<^verbatim>\<open>LegacyDec\<close> by
  its value times \<open>10^18\<close>; comparisons, sign tests, negation, minimum and maximum are those of
  the represented integers. The uninitialised (nil) values of both types are outside the
  domain of the model.
\<close>

section \<open>The parameter\<close>

type_synonym dec = int

definition precision :: int where
  "precision = 10 ^ 18"

lemma precision_pos [simp]: "0 < precision"
  by (simp add: precision_def)

lemma precision_nonzero [simp]: "precision \<noteq> 0"
  by (simp add: precision_def)

lemma precision_nonneg [simp]: "0 \<le> precision"
  by (simp add: precision_def)

definition dec_of_int :: "int \<Rightarrow> dec" where
  "dec_of_int i = i * precision"

definition int_ok :: "int \<Rightarrow> bool" where
  "int_ok x \<longleftrightarrow> \<bar>x\<bar> < 2 ^ 256"

definition dec_max :: int where
  "dec_max = 2 ^ 315 - 1"

definition dec_ok :: "dec \<Rightarrow> bool" where
  "dec_ok x \<longleftrightarrow> \<bar>x\<bar> \<le> dec_max"

lemma dec_max_pos [simp]: "0 < dec_max" "0 \<le> dec_max"
  by (simp_all add: dec_max_def)

lemma dec_safe_mult: "\<bar>t\<bar> < 2 ^ 256 * precision \<Longrightarrow> \<bar>t\<bar> \<le> dec_max * precision"
  by (simp add: dec_max_def precision_def)

lemma dec_safe_div: "a < 2 ^ 256 * \<bar>y\<bar> \<Longrightarrow> a \<le> dec_max * \<bar>y\<bar>"
proof -
  assume "a < 2 ^ 256 * \<bar>y\<bar>"
  moreover have "2 ^ 256 * \<bar>y\<bar> \<le> dec_max * \<bar>y\<bar>"
    by (rule mult_right_mono) (simp_all add: dec_max_def)
  ultimately show ?thesis by linarith
qed

record math_ops =
  int_Add :: "int \<Rightarrow> int \<Rightarrow> int res"
  int_Sub :: "int \<Rightarrow> int \<Rightarrow> int res"
  int_Mul :: "int \<Rightarrow> int \<Rightarrow> int res"
  int_Quo :: "int \<Rightarrow> int \<Rightarrow> int res"
  dec_Add :: "dec \<Rightarrow> dec \<Rightarrow> dec res"
  dec_Sub :: "dec \<Rightarrow> dec \<Rightarrow> dec res"
  dec_Mul :: "dec \<Rightarrow> dec \<Rightarrow> dec res"
  dec_MulTruncate :: "dec \<Rightarrow> dec \<Rightarrow> dec res"
  dec_MulInt :: "dec \<Rightarrow> int \<Rightarrow> dec res"
  dec_Quo :: "dec \<Rightarrow> dec \<Rightarrow> dec res"
  dec_QuoTruncate :: "dec \<Rightarrow> dec \<Rightarrow> dec res"
  dec_QuoInt :: "dec \<Rightarrow> int \<Rightarrow> dec res"
  dec_TruncateInt :: "dec \<Rightarrow> int res"
  dec_RoundInt :: "dec \<Rightarrow> int res"
  dec_Ceil :: "dec \<Rightarrow> dec res"
  dec_ApproxRoot :: "dec \<Rightarrow> int \<Rightarrow> dec res"

text \<open>
  \<^verbatim>\<open>MulInt64\<close> and \<^verbatim>\<open>QuoInt64\<close> are \<open>dec_MulInt\<close> and \<open>dec_QuoInt\<close> on an \<^verbatim>\<open>int64\<close> argument;
  \<^verbatim>\<open>LegacyNewDecFromInt\<close> and \<^verbatim>\<open>ToLegacyDec\<close> are \<open>dec_of_int\<close>.

  An operation either returns a value that is \<open>good\<close> or panics, and panics only outside
  the range where the documentation promises a result (\<open>safe\<close>).
\<close>

definition op_spec :: "'a res \<Rightarrow> ('a \<Rightarrow> bool) \<Rightarrow> bool \<Rightarrow> bool" where
  "op_spec r good safe = (case r of Inr c \<Rightarrow> good c | Inl e \<Rightarrow> is_panic e \<and> \<not> safe)"

lemma op_specD: "op_spec r good safe \<Longrightarrow> r = Inr c \<Longrightarrow> good c"
  by (simp add: op_spec_def)

lemma op_spec_total: "op_spec r good safe \<Longrightarrow> safe \<Longrightarrow> \<exists>c. r = Inr c \<and> good c"
  by (auto simp: op_spec_def split: sum.splits)

lemma op_spec_panic: "op_spec r good safe \<Longrightarrow> r = Inl e \<Longrightarrow> is_panic e \<and> \<not> safe"
  by (simp add: op_spec_def)

lemma op_spec_no_err: "op_spec r good safe \<Longrightarrow> no_err r"
  by (auto simp: op_spec_def no_err_def split: sum.splits)

locale sdk_math =
  fixes M :: math_ops
  assumes int_Add_spec: "op_spec (int_Add M a b) (\<lambda>c. c = a + b \<and> int_ok c) (int_ok (a + b))"
    and int_Sub_spec: "op_spec (int_Sub M a b) (\<lambda>c. c = a - b \<and> int_ok c) (int_ok (a - b))"
    and int_Mul_spec: "op_spec (int_Mul M a b) (\<lambda>c. c = a * b \<and> int_ok c) (int_ok (a * b))"
    and int_Quo_spec: "op_spec (int_Quo M a b) (\<lambda>c. b \<noteq> 0 \<and> c = a sdiv b) (b \<noteq> 0 \<and> int_ok a)"
    and dec_Add_spec: "op_spec (dec_Add M x y) (\<lambda>z. z = x + y) (dec_ok (x + y))"
    and dec_Sub_spec: "op_spec (dec_Sub M x y) (\<lambda>z. z = x - y) (dec_ok (x - y))"
    and dec_Mul_spec: "op_spec (dec_Mul M x y) (\<lambda>z. 2 * \<bar>z * precision - x * y\<bar> \<le> precision)
          (\<bar>x * y\<bar> \<le> dec_max * precision)"
    and dec_MulTruncate_spec: "op_spec (dec_MulTruncate M x y) (\<lambda>z. z = (x * y) sdiv precision)
          (\<bar>x * y\<bar> \<le> dec_max * precision)"
    and dec_MulInt_spec: "op_spec (dec_MulInt M x a) (\<lambda>z. z = x * a) (dec_ok (x * a))"
    and dec_Quo_spec: "op_spec (dec_Quo M x y)
          (\<lambda>z. y \<noteq> 0 \<and> 2 * precision * \<bar>z * y - x * precision\<bar> \<le> \<bar>y\<bar> * (precision + 2))
          (y \<noteq> 0 \<and> \<bar>x\<bar> * precision \<le> dec_max * \<bar>y\<bar>)"
    and dec_QuoTruncate_spec: "op_spec (dec_QuoTruncate M x y)
          (\<lambda>z. y \<noteq> 0 \<and> z = (x * precision) sdiv y)
          (y \<noteq> 0 \<and> \<bar>x\<bar> * precision \<le> dec_max * \<bar>y\<bar>)"
    and dec_QuoInt_spec: "op_spec (dec_QuoInt M x a) (\<lambda>z. a \<noteq> 0 \<and> z = x sdiv a) (a \<noteq> 0 \<and> dec_ok x)"
    and dec_TruncateInt_spec: "op_spec (dec_TruncateInt M x) (\<lambda>a. a = x sdiv precision \<and> int_ok a)
          (int_ok (x sdiv precision))"
    and dec_RoundInt_spec: "op_spec (dec_RoundInt M x) (\<lambda>a. 2 * \<bar>a * precision - x\<bar> \<le> precision)
          (dec_ok x)"
    and dec_Ceil_spec: "op_spec (dec_Ceil M x) (\<lambda>z. z = - ((- x) div precision) * precision) (dec_ok x)"
    and dec_ApproxRoot_spec: "case dec_ApproxRoot M x k of Inl e \<Rightarrow> \<not> is_panic e
          | Inr z \<Rightarrow> \<bar>z\<bar> \<le> max \<bar>x\<bar> precision \<and> (x \<le> 0 \<longrightarrow> z \<le> 0) \<and> (0 \<le> x \<longrightarrow> 0 \<le> z)"
begin

lemma int_Add_Inr: "int_Add M a b = Inr c \<longleftrightarrow> c = a + b \<and> int_ok (a + b)"
  using int_Add_spec [of a b] by (cases "int_Add M a b") (auto simp: op_spec_def)

lemma int_Sub_Inr: "int_Sub M a b = Inr c \<longleftrightarrow> c = a - b \<and> int_ok (a - b)"
  using int_Sub_spec [of a b] by (cases "int_Sub M a b") (auto simp: op_spec_def)

lemma int_Mul_Inr: "int_Mul M a b = Inr c \<longleftrightarrow> c = a * b \<and> int_ok (a * b)"
  using int_Mul_spec [of a b] by (cases "int_Mul M a b") (auto simp: op_spec_def)

lemma int_ok_Add: "int_ok (a + b) \<Longrightarrow> int_Add M a b = Inr (a + b)"
  by (simp add: int_Add_Inr)

lemma int_ok_Sub: "int_ok (a - b) \<Longrightarrow> int_Sub M a b = Inr (a - b)"
  by (simp add: int_Sub_Inr)

lemma int_ok_Mul: "int_ok (a * b) \<Longrightarrow> int_Mul M a b = Inr (a * b)"
  by (simp add: int_Mul_Inr)

lemma int_Quo_Inr: "int_Quo M a b = Inr c \<Longrightarrow> b \<noteq> 0 \<and> c = a sdiv b"
  using int_Quo_spec [of a b] by (auto simp: op_spec_def)

lemma int_ok_Quo: "b \<noteq> 0 \<Longrightarrow> int_ok a \<Longrightarrow> int_Quo M a b = Inr (a sdiv b)"
  using int_Quo_spec [of a b] by (cases "int_Quo M a b") (auto simp: op_spec_def)

lemma int_Add_panic: "int_Add M a b = Inl e \<Longrightarrow> is_panic e"
  using int_Add_spec [of a b] by (simp add: op_spec_def)

lemma dec_Add_Inr: "dec_Add M x y = Inr z \<Longrightarrow> z = x + y"
  using dec_Add_spec [of x y] by (simp add: op_spec_def)

lemma dec_ok_Add: "dec_ok (x + y) \<Longrightarrow> dec_Add M x y = Inr (x + y)"
  using dec_Add_spec [of x y] by (cases "dec_Add M x y") (auto simp: op_spec_def)

lemma dec_Sub_Inr: "dec_Sub M x y = Inr z \<Longrightarrow> z = x - y"
  using dec_Sub_spec [of x y] by (simp add: op_spec_def)

lemma dec_ok_Sub: "dec_ok (x - y) \<Longrightarrow> dec_Sub M x y = Inr (x - y)"
  using dec_Sub_spec [of x y] by (cases "dec_Sub M x y") (auto simp: op_spec_def)

lemma dec_MulTruncate_Inr: "dec_MulTruncate M x y = Inr z \<Longrightarrow> z = (x * y) sdiv precision"
  using dec_MulTruncate_spec [of x y] by (simp add: op_spec_def)

lemma dec_QuoTruncate_Inr:
  "dec_QuoTruncate M x y = Inr z \<Longrightarrow> y \<noteq> 0 \<and> z = (x * precision) sdiv y"
  using dec_QuoTruncate_spec [of x y] by (simp add: op_spec_def)

lemma dec_MulInt_Inr: "dec_MulInt M x a = Inr z \<Longrightarrow> z = x * a"
  using dec_MulInt_spec [of x a] by (simp add: op_spec_def)

lemma dec_QuoInt_Inr: "dec_QuoInt M x a = Inr z \<Longrightarrow> a \<noteq> 0 \<and> z = x sdiv a"
  using dec_QuoInt_spec [of x a] by (simp add: op_spec_def)

lemma dec_TruncateInt_Inr:
  "dec_TruncateInt M x = Inr a \<longleftrightarrow> a = x sdiv precision \<and> int_ok (x sdiv precision)"
  using dec_TruncateInt_spec [of x] by (cases "dec_TruncateInt M x") (auto simp: op_spec_def)

lemma dec_Mul_Inr: "dec_Mul M x y = Inr z \<Longrightarrow> 2 * \<bar>z * precision - x * y\<bar> \<le> precision"
  using dec_Mul_spec [of x y] by (simp add: op_spec_def)

lemma dec_Mul_nonneg:
  assumes "dec_Mul M x y = Inr z" and "0 \<le> x" and "0 \<le> y"
  shows "0 \<le> z"
proof (rule ccontr)
  assume "\<not> 0 \<le> z"
  then have "z * precision \<le> - precision"
    by (simp add: precision_def)
  moreover have "0 \<le> x * y" using assms by simp
  ultimately show False
    using dec_Mul_Inr [OF assms(1)] by (auto simp: precision_def)
qed

lemma dec_Mul_le_any:
  assumes "dec_Mul M x y = Inr z" and "0 \<le> x" and "y \<le> precision"
  shows "z \<le> x"
proof (rule ccontr)
  assume "\<not> z \<le> x"
  then have "(x + 1) * precision \<le> z * precision"
    by (intro mult_right_mono) (auto simp: precision_def)
  moreover have "x * y \<le> x * precision" using assms by (intro mult_left_mono) auto
  ultimately show False
    using dec_Mul_Inr [OF assms(1)] by (simp add: distrib_right precision_def abs_if split: if_splits)
qed

lemma dec_Mul_le:
  "dec_Mul M x y = Inr z \<Longrightarrow> 0 \<le> x \<Longrightarrow> 0 \<le> y \<Longrightarrow> y \<le> precision \<Longrightarrow> z \<le> x"
  by (rule dec_Mul_le_any)

lemma dec_Quo_Inr:
  "dec_Quo M x y = Inr z \<Longrightarrow> y \<noteq> 0 \<and> 2 * precision * \<bar>z * y - x * precision\<bar> \<le> \<bar>y\<bar> * (precision + 2)"
  using dec_Quo_spec [of x y] by (simp add: op_spec_def)

lemma dec_RoundInt_Inr: "dec_RoundInt M x = Inr a \<Longrightarrow> 2 * \<bar>a * precision - x\<bar> \<le> precision"
  using dec_RoundInt_spec [of x] by (simp add: op_spec_def)

lemma dec_RoundInt_exact:
  assumes "\<bar>i\<bar> < 2 ^ 255"
  shows "dec_RoundInt M (i * precision) = Inr i"
proof -
  have "dec_ok (i * precision)"
    using assms by (simp add: dec_ok_def dec_max_def abs_mult precision_def)
  then obtain a where a: "dec_RoundInt M (i * precision) = Inr a"
    and e: "2 * \<bar>a * precision - i * precision\<bar> \<le> precision"
    using op_spec_total [OF dec_RoundInt_spec] by blast
  have "a = i" using e by (simp add: precision_def)
  with a show ?thesis by simp
qed

lemma dec_Ceil_Inr: "dec_Ceil M x = Inr z \<Longrightarrow> z = - ((- x) div precision) * precision"
  using dec_Ceil_spec [of x] by (simp add: op_spec_def)

lemma dec_ok_Ceil: "dec_ok x \<Longrightarrow> dec_Ceil M x = Inr (- ((- x) div precision) * precision)"
  using dec_Ceil_spec [of x] by (cases "dec_Ceil M x") (auto simp: op_spec_def)

lemmas ops_no_err [simp] = int_Add_spec [THEN op_spec_no_err] int_Sub_spec [THEN op_spec_no_err]
  int_Mul_spec [THEN op_spec_no_err] int_Quo_spec [THEN op_spec_no_err]
  dec_Add_spec [THEN op_spec_no_err] dec_Sub_spec [THEN op_spec_no_err]
  dec_Mul_spec [THEN op_spec_no_err] dec_MulTruncate_spec [THEN op_spec_no_err]
  dec_MulInt_spec [THEN op_spec_no_err] dec_Quo_spec [THEN op_spec_no_err]
  dec_QuoTruncate_spec [THEN op_spec_no_err] dec_QuoInt_spec [THEN op_spec_no_err]
  dec_TruncateInt_spec [THEN op_spec_no_err] dec_RoundInt_spec [THEN op_spec_no_err]
  dec_Ceil_spec [THEN op_spec_no_err]

text \<open>Division of a non-negative number by a positive one, and of zero.\<close>

lemma dec_Quo_nonneg:
  assumes "dec_Quo M x y = Inr z" and "0 \<le> x" and "0 < y"
  shows "0 \<le> z"
proof (rule ccontr)
  assume "\<not> 0 \<le> z"
  then have "z * y \<le> - y" using assms(3) mult_right_mono [of z "-1" y] by simp
  moreover have "0 \<le> x * precision" using assms(2) by (simp add: precision_def)
  ultimately have "y \<le> \<bar>z * y - x * precision\<bar>" by linarith
  then have "2 * precision * y \<le> 2 * precision * \<bar>z * y - x * precision\<bar>"
    by (intro mult_left_mono) (simp_all add: precision_def)
  also have "\<dots> \<le> y * (precision + 2)"
    using dec_Quo_Inr [OF assms(1)] assms(3) by simp
  finally show False using assms(3) by (simp add: precision_def)
qed

lemma dec_Quo_uminus_range:
  assumes "dec_Quo M x y = Inr z" and "x \<le> 0" and "0 < y"
  shows "z \<le> 0"
proof (rule ccontr)
  assume "\<not> z \<le> 0"
  then have "y \<le> z * y" using assms(3) mult_right_mono [of 1 z y] by simp
  moreover have "x * precision \<le> 0" using assms(2) by (simp add: precision_def)
  ultimately have "y \<le> \<bar>z * y - x * precision\<bar>" by linarith
  then have "2 * precision * y \<le> 2 * precision * \<bar>z * y - x * precision\<bar>"
    by (intro mult_left_mono) (simp_all add: precision_def)
  also have "\<dots> \<le> y * (precision + 2)"
    using dec_Quo_Inr [OF assms(1)] assms(3) by simp
  finally show False using assms(3) by (simp add: precision_def)
qed

text \<open>How large a quotient and a product can be.\<close>

lemma dec_Quo_close:
  assumes "dec_Quo M x y = Inr z"
  shows "\<bar>z * y - x * precision\<bar> \<le> \<bar>y\<bar>"
proof (rule ccontr)
  assume "\<not> ?thesis"
  then have "2 * precision * (\<bar>y\<bar> + 1) \<le> 2 * precision * \<bar>z * y - x * precision\<bar>"
    by (intro mult_left_mono) (simp_all add: precision_def)
  also have "\<dots> \<le> \<bar>y\<bar> * (precision + 2)" using dec_Quo_Inr [OF assms] by simp
  finally show False by (simp add: precision_def)
qed

lemma dec_Quo_bound:
  assumes "dec_Quo M x y = Inr z" and "\<bar>x\<bar> \<le> b" and "precision \<le> y"
  shows "\<bar>z\<bar> \<le> b + 1"
proof (rule ccontr)
  have y: "0 < y" using assms(3) precision_pos by linarith
  assume "\<not> ?thesis"
  then have "(b + 2) * y \<le> \<bar>z\<bar> * y" using y by (intro mult_right_mono) auto
  moreover have "\<bar>z\<bar> * y \<le> \<bar>x\<bar> * precision + y"
  proof -
    have "\<bar>z * y\<bar> \<le> \<bar>x * precision\<bar> + y" using dec_Quo_close [OF assms(1)] y by linarith
    then show ?thesis using y by (simp add: abs_mult)
  qed
  moreover have "\<bar>x\<bar> * precision \<le> b * y"
    using assms by (intro mult_mono) auto
  ultimately show False using y by (simp add: distrib_right)
qed

lemma dec_Mul_bound:
  assumes "dec_Mul M x y = Inr z" and "\<bar>x * y\<bar> < b * precision"
  shows "\<bar>z\<bar> < b + 1"
proof (rule ccontr)
  assume "\<not> ?thesis"
  then have "(b + 1) * precision \<le> \<bar>z\<bar> * precision" by (intro mult_right_mono) auto
  moreover have "\<bar>z\<bar> * precision = \<bar>z * precision\<bar>" by (simp add: abs_mult)
  ultimately have "(b + 1) * precision \<le> \<bar>z * precision\<bar>" by simp
  then show False
    using dec_Mul_Inr [OF assms(1)] assms(2) unfolding distrib_right by (simp add: precision_def)
qed

text \<open>When a product and a quotient are computed without overflow.\<close>

lemma dec_Mul_safe: "\<bar>x * y\<bar> < 2 ^ 256 * precision \<Longrightarrow> \<exists>z. dec_Mul M x y = Inr z"
  using op_spec_total [OF dec_Mul_spec dec_safe_mult] by blast

lemma dec_Quo_safe: "\<bar>x\<bar> * precision < 2 ^ 256 * \<bar>y\<bar> \<Longrightarrow> y \<noteq> 0 \<Longrightarrow> \<exists>z. dec_Quo M x y = Inr z"
  using op_spec_total [OF dec_Quo_spec] dec_safe_div by blast

text \<open>The sign of a product, and comparison of a product with its first factor.\<close>

lemma dec_Mul_nonpos:
  assumes "dec_Mul M x y = Inr z" and "x * y \<le> 0"
  shows "z \<le> 0"
proof (rule ccontr)
  assume "\<not> z \<le> 0"
  then have "precision \<le> z * precision" by (simp add: precision_def)
  then show False
    using dec_Mul_Inr [OF assms(1)] assms(2) by (auto simp: precision_def)
qed

lemma dec_Mul_ge:
  assumes "dec_Mul M x y = Inr z" and "0 \<le> x" and "precision \<le> y"
  shows "x \<le> z"
proof (rule ccontr)
  assume "\<not> x \<le> z"
  then have "z * precision \<le> (x - 1) * precision"
    by (intro mult_right_mono) (auto simp: precision_def)
  moreover have "x * precision \<le> x * y" using assms by (intro mult_left_mono) auto
  ultimately show False
    using dec_Mul_Inr [OF assms(1)] by (simp add: left_diff_distrib precision_def abs_if split: if_splits)
qed

text \<open>A product with a whole number and a product of a number with one are exact.\<close>

lemma dec_Mul_exact:
  assumes "x * y = z * precision" and "dec_ok z"
  shows "dec_Mul M x y = Inr z"
proof -
  have "\<bar>x * y\<bar> \<le> dec_max * precision"
    using assms by (simp add: abs_mult dec_ok_def precision_def)
  then obtain w where w: "dec_Mul M x y = Inr w" and e: "2 * \<bar>w * precision - x * y\<bar> \<le> precision"
    using op_spec_total [OF dec_Mul_spec] by blast
  have "w = z" using e unfolding assms(1) by (simp add: precision_def)
  with w show ?thesis by simp
qed

end

section \<open>A reference instance\<close>

text \<open>
  The documented behaviour as functions: results are computed on integers, rounding of
  \<^verbatim>\<open>Mul\<close>, \<^verbatim>\<open>Quo\<close> and \<^verbatim>\<open>RoundInt\<close> is half to even, the \<^verbatim>\<open>Int\<close> range is 256 bits and the
  range of a scaled \<^verbatim>\<open>LegacyDec\<close> 315 bits. It shows that the laws hold together and evaluates
  concrete inputs.
\<close>

definition checked :: "nat \<Rightarrow> int \<Rightarrow> int res" where
  "checked bits x = (if \<bar>x\<bar> < 2 ^ bits then Inr x else Inl (Panic ''Int overflow''))"

definition chop_round :: "int \<Rightarrow> int" where
  "chop_round x = (let q = \<bar>x\<bar> div precision; r = \<bar>x\<bar> mod precision
     in sgn x * (if 2 * r < precision then q else if precision < 2 * r then q + 1
                 else if even q then q else q + 1))"

text \<open>
  The root by bisection: the largest scaled number whose \<open>k\<close>-th power does not exceed the
  argument, searched with one halving per bit of the scaled range.
\<close>

fun bisect :: "nat \<Rightarrow> (int \<Rightarrow> bool) \<Rightarrow> int \<Rightarrow> int \<Rightarrow> int" where
  "bisect 0 below lo hi = lo"
| "bisect (Suc n) below lo hi = (if hi \<le> lo then lo else let mid = (lo + hi + 1) div 2 in
     if below mid then bisect n below mid hi else bisect n below lo (mid - 1))"

definition ref_root :: "dec \<Rightarrow> int \<Rightarrow> dec" where
  "ref_root x k = sgn x * (if k = 1 then \<bar>x\<bar> else if k \<le> 0 then precision
     else bisect 320 (\<lambda>z. z ^ nat k \<le> \<bar>x\<bar> * precision ^ (nat k - 1)) 0 (max \<bar>x\<bar> precision))"

lemma bisect_bounds: "lo \<le> hi \<Longrightarrow> lo \<le> bisect n below lo hi \<and> bisect n below lo hi \<le> hi"
proof (induction n arbitrary: lo hi)
  case (Suc n)
  show ?case
  proof (cases "hi \<le> lo")
    case False
    then have "lo < (lo + hi + 1) div 2" "(lo + hi + 1) div 2 \<le> hi" by linarith+
    then show ?thesis
      using Suc.IH [of "(lo + hi + 1) div 2" hi] Suc.IH [of lo "(lo + hi + 1) div 2 - 1"] False
      by (auto simp: Let_def)
  qed (use Suc.prems in simp)
qed simp

lemma ref_root_bounds:
  "\<bar>ref_root x k\<bar> \<le> max \<bar>x\<bar> precision \<and> (x \<le> 0 \<longrightarrow> ref_root x k \<le> 0) \<and> (0 \<le> x \<longrightarrow> 0 \<le> ref_root x k)"
proof -
  define r where "r = (if k = 1 then \<bar>x\<bar> else if k \<le> 0 then precision
     else bisect 320 (\<lambda>z. z ^ nat k \<le> \<bar>x\<bar> * precision ^ (nat k - 1)) 0 (max \<bar>x\<bar> precision))"
  have "0 \<le> r \<and> r \<le> max \<bar>x\<bar> precision"
    unfolding r_def using bisect_bounds [of 0 "max \<bar>x\<bar> precision"] by (auto simp: precision_def)
  moreover have "ref_root x k = sgn x * r" by (simp add: ref_root_def r_def)
  ultimately show ?thesis by (auto simp: sgn_if)
qed

definition ref_math :: math_ops where
  "ref_math = \<lparr>
     int_Add = (\<lambda>a b. checked 256 (a + b)),
     int_Sub = (\<lambda>a b. checked 256 (a - b)),
     int_Mul = (\<lambda>a b. checked 256 (a * b)),
     int_Quo = (\<lambda>a b. if b = 0 then Inl (Panic ''division by zero'') else Inr (a sdiv b)),
     dec_Add = (\<lambda>x y. checked 315 (x + y)),
     dec_Sub = (\<lambda>x y. checked 315 (x - y)),
     dec_Mul = (\<lambda>x y. checked 315 (chop_round (x * y))),
     dec_MulTruncate = (\<lambda>x y. checked 315 ((x * y) sdiv precision)),
     dec_MulInt = (\<lambda>x a. checked 315 (x * a)),
     dec_Quo = (\<lambda>x y. if y = 0 then Inl (Panic ''division by zero'')
                  else checked 315 (chop_round ((x * precision * precision) sdiv y))),
     dec_QuoTruncate = (\<lambda>x y. if y = 0 then Inl (Panic ''division by zero'')
                  else checked 315 ((x * precision) sdiv y)),
     dec_QuoInt = (\<lambda>x a. if a = 0 then Inl (Panic ''division by zero'') else Inr (x sdiv a)),
     dec_TruncateInt = (\<lambda>x. checked 256 (x sdiv precision)),
     dec_RoundInt = (\<lambda>x. checked 256 (chop_round x)),
     dec_Ceil = (\<lambda>x. Inr (- ((- x) div precision) * precision)),
     dec_ApproxRoot = (\<lambda>x k. Inr (ref_root x k)) \<rparr>"

lemma checked_spec:
  assumes "good x" and "safe \<Longrightarrow> \<bar>x\<bar> < 2 ^ bits"
  shows "op_spec (checked bits x) good safe"
  using assms by (auto simp: op_spec_def checked_def)

lemma scaled_triangle:
  fixes a b c :: int
  assumes "2 * \<bar>a - b\<bar> \<le> m" and "\<bar>b - c\<bar> \<le> n"
  shows "2 * \<bar>a - c\<bar> \<le> m + 2 * n"
proof -
  have "\<bar>a - c\<bar> \<le> \<bar>a - b\<bar> + \<bar>b - c\<bar>"
    using abs_triangle_ineq [of "a - b" "b - c"] by simp
  with assms show ?thesis by simp
qed

lemma chop_round_error: "2 * \<bar>chop_round x * precision - x\<bar> \<le> precision"
proof -
  define q r where "q = \<bar>x\<bar> div precision" and "r = \<bar>x\<bar> mod precision"
  have ax: "\<bar>x\<bar> = q * precision + r" by (simp add: q_def r_def)
  have r: "0 \<le> r" "r < precision" by (simp_all add: r_def)
  define c where "c = (if 2 * r < precision then q else if precision < 2 * r then q + 1
                 else if even q then q else q + 1)"
  have c: "c = q \<and> 2 * r \<le> precision \<or> c = q + 1 \<and> precision \<le> 2 * r"
    by (auto simp: c_def)
  have cx: "chop_round x = sgn x * c" by (simp add: chop_round_def c_def q_def r_def Let_def)
  have "2 * \<bar>c * precision - \<bar>x\<bar>\<bar> \<le> precision"
    using c r unfolding ax by (elim disjE) (auto simp: distrib_right)
  moreover have "sgn x * c * precision - x = sgn x * (c * precision - \<bar>x\<bar>)" if "x \<noteq> 0"
    using that by (simp add: sgn_if abs_if algebra_simps)
  moreover have "\<bar>sgn x * (c * precision - \<bar>x\<bar>)\<bar> = \<bar>c * precision - \<bar>x\<bar>\<bar>" if "x \<noteq> 0"
    using that by (simp add: abs_mult abs_sgn_eq)
  ultimately show ?thesis
    by (cases "x = 0") (auto simp: cx, simp add: chop_round_def)
qed

lemma chop_round_abs: "\<bar>chop_round x\<bar> * precision \<le> \<bar>x\<bar> + precision"
proof -
  have "2 * \<bar>chop_round x * precision - 0\<bar> \<le> precision + 2 * \<bar>x\<bar>"
    by (rule scaled_triangle [OF chop_round_error]) simp
  then have "2 * (\<bar>chop_round x\<bar> * precision) \<le> precision + 2 * \<bar>x\<bar>"
    by (simp add: abs_mult)
  then show ?thesis using precision_nonneg by linarith
qed

lemma sdiv_abs: "\<bar>(a::int) sdiv b\<bar> = \<bar>a\<bar> div \<bar>b\<bar>"
  by (cases "a = 0 \<or> b = 0") (auto simp: signed_divide_int_def abs_mult abs_sgn_eq
      pos_imp_zdiv_nonneg_iff)

lemma sdiv_error: "(b::int) \<noteq> 0 \<Longrightarrow> \<bar>(a sdiv b) * b - a\<bar> < \<bar>b\<bar>"
proof -
  assume b: "b \<noteq> 0"
  have "(a sdiv b) * b = sgn a * (\<bar>a\<bar> div \<bar>b\<bar> * \<bar>b\<bar>)"
    using b by (simp add: signed_divide_int_def sgn_if abs_if)
  moreover have "a = sgn a * \<bar>a\<bar>" by (simp add: mult_sgn_abs)
  ultimately have "(a sdiv b) * b - a = sgn a * (\<bar>a\<bar> div \<bar>b\<bar> * \<bar>b\<bar> - \<bar>a\<bar>)"
    by (metis right_diff_distrib)
  then have "\<bar>(a sdiv b) * b - a\<bar> \<le> \<bar>\<bar>a\<bar> div \<bar>b\<bar> * \<bar>b\<bar> - \<bar>a\<bar>\<bar>"
    by (simp add: abs_mult abs_sgn_eq)
  also have "\<dots> = \<bar>a\<bar> mod \<bar>b\<bar>"
    using div_mult_mod_eq [of "\<bar>a\<bar>" "\<bar>b\<bar>"] b pos_mod_sign [of "\<bar>b\<bar>" "\<bar>a\<bar>"] by linarith
  also have "\<dots> < \<bar>b\<bar>" using b by simp
  finally show ?thesis .
qed

lemma div_less_bound: "0 \<le> a \<Longrightarrow> 0 < b \<Longrightarrow> a < k * b \<Longrightarrow> (a::int) div b < k"
  by (smt (verit) div_mult_mod_eq mult_right_mono pos_mod_sign)

lemma div_le_bound: "0 \<le> a \<Longrightarrow> 0 < b \<Longrightarrow> a \<le> k * b \<Longrightarrow> (a::int) div b \<le> k"
  using zdiv_mono1 [of a "k * b" b] by simp

lemma chop_round_le:
  assumes "\<bar>t\<bar> \<le> b * precision"
  shows "\<bar>chop_round t\<bar> \<le> b"
proof (rule ccontr)
  assume "\<not> ?thesis"
  then have "(b + 1) * precision \<le> \<bar>chop_round t\<bar> * precision" by (intro mult_right_mono) auto
  moreover have "\<bar>chop_round t\<bar> * precision = \<bar>chop_round t * precision\<bar>" by (simp add: abs_mult)
  ultimately show False
    using chop_round_error [of t] assms unfolding distrib_right by (simp add: precision_def)
qed

lemma ref_Quo_error:
  assumes "y \<noteq> 0"
  shows "2 * precision * \<bar>chop_round ((x * precision * precision) sdiv y) * y - x * precision\<bar>
    \<le> \<bar>y\<bar> * (precision + 2)"
proof -
  let ?t = "(x * precision * precision) sdiv y"
  let ?c = "chop_round ?t"
  have e1: "\<bar>?t * y - x * precision * precision\<bar> \<le> \<bar>y\<bar>"
    using sdiv_error [OF assms, of "x * precision * precision"] by simp
  have "2 * \<bar>?c * precision - ?t\<bar> * \<bar>y\<bar> \<le> precision * \<bar>y\<bar>"
    using chop_round_error [of ?t] by (intro mult_right_mono) auto
  moreover have "\<bar>?c * precision - ?t\<bar> * \<bar>y\<bar> = \<bar>?c * precision * y - ?t * y\<bar>"
    by (simp only: abs_mult [symmetric] left_diff_distrib)
  ultimately have e2: "2 * \<bar>?c * precision * y - ?t * y\<bar> \<le> precision * \<bar>y\<bar>"
    by (metis mult.assoc)
  have "2 * \<bar>?c * precision * y - x * precision * precision\<bar> \<le> precision * \<bar>y\<bar> + 2 * \<bar>y\<bar>"
    by (rule scaled_triangle [OF e2 e1])
  moreover have "\<bar>?c * precision * y - x * precision * precision\<bar>
      = precision * \<bar>?c * y - x * precision\<bar>"
  proof -
    have "?c * precision * y - x * precision * precision = precision * (?c * y - x * precision)"
      by (simp add: algebra_simps)
    then show ?thesis by (simp add: abs_mult)
  qed
  ultimately show ?thesis by (simp add: algebra_simps)
qed

interpretation ref: sdk_math ref_math
proof unfold_locales
  fix x y :: int
  have round_bound: "\<bar>chop_round t\<bar> < 2 ^ 315" if "\<bar>t\<bar> \<le> dec_max * precision" for t
    using chop_round_le [OF that] by (simp add: dec_max_def)
  show "op_spec (dec_Mul ref_math x y) (\<lambda>z. 2 * \<bar>z * precision - x * y\<bar> \<le> precision)
      (\<bar>x * y\<bar> \<le> dec_max * precision)"
    unfolding ref_math_def math_ops.simps
    by (rule checked_spec) (rule chop_round_error, rule round_bound)
  show "op_spec (dec_MulTruncate ref_math x y) (\<lambda>z. z = x * y sdiv precision)
      (\<bar>x * y\<bar> \<le> dec_max * precision)"
    unfolding ref_math_def math_ops.simps
  proof (rule checked_spec)
    assume "\<bar>x * y\<bar> \<le> dec_max * precision"
    then have "\<bar>x * y\<bar> div precision < 2 ^ 315" by (intro div_less_bound) (auto simp: dec_max_def precision_def)
    then show "\<bar>x * y sdiv precision\<bar> < 2 ^ 315"
      unfolding sdiv_abs by simp
  qed simp
  show "op_spec (dec_Quo ref_math x y)
     (\<lambda>z. y \<noteq> 0 \<and> 2 * precision * \<bar>z * y - x * precision\<bar> \<le> \<bar>y\<bar> * (precision + 2))
     (y \<noteq> 0 \<and> \<bar>x\<bar> * precision \<le> dec_max * \<bar>y\<bar>)"
  proof (cases "y = 0")
    case False
    have "op_spec (checked 315 (chop_round ((x * precision * precision) sdiv y)))
     (\<lambda>z. y \<noteq> 0 \<and> 2 * precision * \<bar>z * y - x * precision\<bar> \<le> \<bar>y\<bar> * (precision + 2))
     (y \<noteq> 0 \<and> \<bar>x\<bar> * precision \<le> dec_max * \<bar>y\<bar>)"
    proof (rule checked_spec)
      assume "y \<noteq> 0 \<and> \<bar>x\<bar> * precision \<le> dec_max * \<bar>y\<bar>"
      then have "\<bar>x\<bar> * precision * precision \<le> dec_max * \<bar>y\<bar> * precision"
        by (intro mult_right_mono) auto
      then have "\<bar>x * precision * precision\<bar> div \<bar>y\<bar> \<le> dec_max * precision"
        using False by (intro div_le_bound) (auto simp: abs_mult mult_ac)
      then show "\<bar>chop_round ((x * precision * precision) sdiv y)\<bar> < 2 ^ 315"
        by (intro round_bound) (simp add: sdiv_abs)
    qed (use False ref_Quo_error in simp)
    with False show ?thesis by (simp add: ref_math_def)
  qed (simp add: ref_math_def op_spec_def)
  show "op_spec (dec_QuoTruncate ref_math x y) (\<lambda>z. y \<noteq> 0 \<and> z = x * precision sdiv y)
     (y \<noteq> 0 \<and> \<bar>x\<bar> * precision \<le> dec_max * \<bar>y\<bar>)"
  proof (cases "y = 0")
    case False
    have "op_spec (checked 315 (x * precision sdiv y)) (\<lambda>z. y \<noteq> 0 \<and> z = x * precision sdiv y)
     (y \<noteq> 0 \<and> \<bar>x\<bar> * precision \<le> dec_max * \<bar>y\<bar>)"
    proof (rule checked_spec)
      assume "y \<noteq> 0 \<and> \<bar>x\<bar> * precision \<le> dec_max * \<bar>y\<bar>"
      then have "\<bar>x * precision\<bar> div \<bar>y\<bar> \<le> dec_max"
        by (intro div_le_bound) (auto simp: abs_mult)
      then show "\<bar>x * precision sdiv y\<bar> < 2 ^ 315"
        unfolding sdiv_abs by (simp add: dec_max_def)
    qed (use False in simp)
    with False show ?thesis by (simp add: ref_math_def)
  qed (simp add: ref_math_def op_spec_def)
  show "case dec_ApproxRoot ref_math x y of Inl e \<Rightarrow> \<not> is_panic e
      | Inr z \<Rightarrow> \<bar>z\<bar> \<le> max \<bar>x\<bar> precision \<and> (x \<le> 0 \<longrightarrow> z \<le> 0) \<and> (0 \<le> x \<longrightarrow> 0 \<le> z)"
    using ref_root_bounds [of x y] by (simp add: ref_math_def)
  show "op_spec (dec_RoundInt ref_math x) (\<lambda>a. 2 * \<bar>a * precision - x\<bar> \<le> precision)
      (dec_ok x)"
    unfolding ref_math_def math_ops.simps
  proof (rule checked_spec)
    assume "dec_ok x"
    then have "\<bar>chop_round x\<bar> * precision < 2 ^ 256 * precision"
      using chop_round_abs [of x] by (simp add: dec_ok_def dec_max_def precision_def)
    then show "\<bar>chop_round x\<bar> < 2 ^ 256" by simp
  qed (rule chop_round_error)
qed (auto simp: ref_math_def op_spec_def checked_def int_ok_def dec_ok_def dec_max_def)

text \<open>The laws hold of the reference instance; the witnesses of the components use this fact.\<close>

lemmas ref_math_laws = ref.sdk_math_axioms

end
