(* ===== verification/Coins.thy ===== *)
theory Coins
  imports SdkMath
begin

text \<open>
  \<^verbatim>\<open>types/coin.go\<close> and \<^verbatim>\<open>types/mapcoins.go\<close>: a \<^verbatim>\<open>Coin\<close> is a denomination with an amount, a
  \<^verbatim>\<open>Coins\<close> value a slice of them. The functions keep the source's order of checks; a panic or
  returned error is an \<open>Inl\<close>. A nil slice and an empty slice are both \<open>[]\<close>.
  \<open>amt cs d\<close> is what a slice denotes: the total it holds of a denomination. The lemmas show
  that a valid slice is the canonical representation of such a function and that the
  operations compute the pointwise operations on it.
\<close>

section \<open>Coin\<close>

record coin =
  Denom :: string
  Amount :: int

subsection \<open>Denominations\<close>

text \<open>The default denomination expression \<^verbatim>\<open>^[a-zA-Z][a-zA-Z0-9/:._-]{2,127}$\<close>.\<close>

definition denom_letter :: "char \<Rightarrow> bool" where
  "denom_letter c \<longleftrightarrow> (CHR ''a'' \<le> c \<and> c \<le> CHR ''z'') \<or> (CHR ''A'' \<le> c \<and> c \<le> CHR ''Z'')"

definition denom_char :: "char \<Rightarrow> bool" where
  "denom_char c \<longleftrightarrow> denom_letter c \<or> (CHR ''0'' \<le> c \<and> c \<le> CHR ''9'') \<or> c \<in> set ''/:._-''"

definition reDnm_MatchString :: "string \<Rightarrow> bool" where
  "reDnm_MatchString s = (case s of [] \<Rightarrow> False
     | c # cs \<Rightarrow> denom_letter c \<and> 2 \<le> length cs \<and> length cs \<le> 127 \<and> list_all denom_char cs)"

definition ValidateDenom :: "string \<Rightarrow> unit res" where
  "ValidateDenom denom = (if \<not> reDnm_MatchString denom then Inl (Err ''invalid denom'') else Inr ())"

definition mustValidateDenom :: "string \<Rightarrow> unit res" where
  "mustValidateDenom denom = must (ValidateDenom denom)"

subsection \<open>Operations on one coin\<close>

definition Coin_IsZero :: "coin \<Rightarrow> bool" where
  "Coin_IsZero c \<longleftrightarrow> Amount c = 0"

definition Coin_IsPositive :: "coin \<Rightarrow> bool" where
  "Coin_IsPositive c \<longleftrightarrow> sgn (Amount c) = 1"

definition Coin_IsNegative :: "coin \<Rightarrow> bool" where
  "Coin_IsNegative c \<longleftrightarrow> sgn (Amount c) = -1"

definition Coin_Validate :: "coin \<Rightarrow> unit res" where
  "Coin_Validate c = bindR (ValidateDenom (Denom c)) (\<lambda>_.
     if Amount c < 0 then Inl (Err ''negative coin amount'') else Inr ())"

definition Coin_IsValid :: "coin \<Rightarrow> bool" where
  "Coin_IsValid c = okR (Coin_Validate c)"

definition NewCoin :: "string \<Rightarrow> int \<Rightarrow> coin res" where
  "NewCoin denom amount = (let coin = \<lparr>Denom = denom, Amount = amount\<rparr> in
     bindR (must (Coin_Validate coin)) (\<lambda>_. Inr coin))"

definition same_denom :: "string \<Rightarrow> string \<Rightarrow> unit res" where
  "same_denom a b = (if a \<noteq> b then Inl (Panic ''invalid coin denominations'') else Inr ())"

definition Coin_IsGTE :: "coin \<Rightarrow> coin \<Rightarrow> bool res" where
  "Coin_IsGTE c other = bindR (same_denom (Denom c) (Denom other)) (\<lambda>_. Inr (\<not> Amount c < Amount other))"

definition Coin_IsLT :: "coin \<Rightarrow> coin \<Rightarrow> bool res" where
  "Coin_IsLT c other = bindR (same_denom (Denom c) (Denom other)) (\<lambda>_. Inr (Amount c < Amount other))"

definition Coin_IsLTE :: "coin \<Rightarrow> coin \<Rightarrow> bool res" where
  "Coin_IsLTE c other = bindR (same_denom (Denom c) (Denom other)) (\<lambda>_. Inr (\<not> Amount c > Amount other))"

definition Coin_Add :: "math_ops \<Rightarrow> coin \<Rightarrow> coin \<Rightarrow> coin res" where
  "Coin_Add M c coinB = bindR (same_denom (Denom c) (Denom coinB)) (\<lambda>_.
     bindR (int_Add M (Amount c) (Amount coinB)) (\<lambda>s. Inr \<lparr>Denom = Denom c, Amount = s\<rparr>))"

definition Coin_AddAmount :: "math_ops \<Rightarrow> coin \<Rightarrow> int \<Rightarrow> coin res" where
  "Coin_AddAmount M c amount =
     bindR (int_Add M (Amount c) amount) (\<lambda>s. Inr \<lparr>Denom = Denom c, Amount = s\<rparr>)"

definition Coin_SafeSub :: "math_ops \<Rightarrow> coin \<Rightarrow> coin \<Rightarrow> coin res" where
  "Coin_SafeSub M c coinB =
     (if Denom c \<noteq> Denom coinB then Inl (Err ''invalid coin denoms'')
      else bindR (int_Sub M (Amount c) (Amount coinB)) (\<lambda>s.
        let res = \<lparr>Denom = Denom c, Amount = s\<rparr> in
        if Coin_IsNegative res then Inl (Err ''negative coin amount'') else Inr res))"

definition Coin_Sub :: "math_ops \<Rightarrow> coin \<Rightarrow> coin \<Rightarrow> coin res" where
  "Coin_Sub M c coinB = must (Coin_SafeSub M c coinB)"

definition Coin_SubAmount :: "math_ops \<Rightarrow> coin \<Rightarrow> int \<Rightarrow> coin res" where
  "Coin_SubAmount M c amount = bindR (int_Sub M (Amount c) amount) (\<lambda>s.
     let res = \<lparr>Denom = Denom c, Amount = s\<rparr> in
     if Coin_IsNegative res then Inl (Panic ''negative coin amount'') else Inr res)"

section \<open>Coins\<close>

type_synonym coins = "coin list"

text \<open>
  \<^verbatim>\<open>sort.Sort\<close> orders by denomination. Among equal denominations the library fixes no order;
  the model keeps the order of the input there. A valid slice has no equal denominations.
\<close>

definition Coins_Sort :: "coins \<Rightarrow> coins" where
  "Coins_Sort cs = (if length cs > 1 then sort_key Denom cs else cs)"

definition removeZeroCoins :: "coins \<Rightarrow> coins" where
  "removeZeroCoins cs = filter (\<lambda>c. \<not> Coin_IsZero c) cs"

definition sanitizeCoins :: "coins \<Rightarrow> coins" where
  "sanitizeCoins cs = (let newCoins = removeZeroCoins cs in
     if length newCoins = 0 then [] else Coins_Sort newCoins)"

fun Validate_rest :: "string \<Rightarrow> coins \<Rightarrow> unit res" where
  "Validate_rest lowDenom [] = Inr ()"
| "Validate_rest lowDenom (c # cs) = bindR (ValidateDenom (Denom c)) (\<lambda>_.
     if Denom c < lowDenom then Inl (Err ''denomination is not sorted'')
     else if Denom c = lowDenom then Inl (Err ''duplicate denomination'')
     else if \<not> Coin_IsPositive c then Inl (Err ''coin amount is not positive'')
     else Validate_rest (Denom c) cs)"

definition Validate_single :: "coin \<Rightarrow> unit res" where
  "Validate_single c = bindR (ValidateDenom (Denom c)) (\<lambda>_.
     if \<not> Coin_IsPositive c then Inl (Err ''coin amount is not positive'') else Inr ())"

definition Coins_Validate :: "coins \<Rightarrow> unit res" where
  "Coins_Validate cs = (case cs of [] \<Rightarrow> Inr ()
     | [c] \<Rightarrow> Validate_single c
     | c # rest \<Rightarrow> bindR (Validate_single c) (\<lambda>_. Validate_rest (Denom c) rest))"

definition Coins_IsValid :: "coins \<Rightarrow> bool" where
  "Coins_IsValid cs = okR (Coins_Validate cs)"

definition NewCoins :: "coins \<Rightarrow> coins res" where
  "NewCoins cs = (let newCoins = sanitizeCoins cs in
     bindR (must (Coins_Validate newCoins)) (\<lambda>_. Inr newCoins))"

fun Coins_isSorted :: "coins \<Rightarrow> bool" where
  "Coins_isSorted (a # b # cs) = (if Denom a > Denom b then False else Coins_isSorted (b # cs))"
| "Coins_isSorted cs = True"

definition Coins_Denoms :: "coins \<Rightarrow> string list" where
  "Coins_Denoms cs = map Denom cs"

subsection \<open>Addition and subtraction\<close>

text \<open>
  \<^verbatim>\<open>safeAdd\<close> groups the coins of both slices in a map from denomination to coins, then ranges
  over the map. Go leaves the iteration order of a map open, so the loop takes the order in
  which the keys come as an argument; \<open>Coins_safeAdd\<close> fixes one and the lemma
  \<open>safeAdd_order_independent\<close> shows that it does not matter.
\<close>

fun uniqCoins :: "(string \<rightharpoonup> coins) \<Rightarrow> coins \<Rightarrow> (string \<rightharpoonup> coins)" where
  "uniqCoins m [] = m"
| "uniqCoins m (c # cs) =
     uniqCoins (m(Denom c \<mapsto> (case m (Denom c) of None \<Rightarrow> [] | Some l \<Rightarrow> l) @ [c])) cs"

definition comboCoin :: "math_ops \<Rightarrow> string \<Rightarrow> coins \<Rightarrow> coin res" where
  "comboCoin M denom cL = foldR (\<lambda>c acc. Coin_Add M acc c) cL \<lparr>Denom = denom, Amount = 0\<rparr>"

fun coalesce :: "math_ops \<Rightarrow> (string \<rightharpoonup> coins) \<Rightarrow> string list \<Rightarrow> coins \<Rightarrow> coins res" where
  "coalesce M uniq [] coalesced = Inr coalesced"
| "coalesce M uniq (denom # denoms) coalesced =
     bindR (comboCoin M denom (case uniq denom of None \<Rightarrow> [] | Some l \<Rightarrow> l)) (\<lambda>combo.
       coalesce M uniq denoms (if \<not> Coin_IsZero combo then coalesced @ [combo] else coalesced))"

definition Coins_safeAdd_in :: "math_ops \<Rightarrow> string list \<Rightarrow> coins \<Rightarrow> coins \<Rightarrow> coins res" where
  "Coins_safeAdd_in M order cs coinsB =
     (if \<not> Coins_isSorted cs then Inl (Panic ''Coins (self) must be sorted'')
      else if \<not> Coins_isSorted coinsB then Inl (Panic ''Wrong argument: coins must be sorted'')
      else bindR (coalesce M (uniqCoins (uniqCoins Map.empty cs) coinsB) order []) (\<lambda>coalesced.
        Inr (Coins_Sort coalesced)))"

definition Coins_safeAdd :: "math_ops \<Rightarrow> coins \<Rightarrow> coins \<Rightarrow> coins res" where
  "Coins_safeAdd M cs coinsB = Coins_safeAdd_in M (remdups (map Denom (cs @ coinsB))) cs coinsB"

definition Coins_Add :: "math_ops \<Rightarrow> coins \<Rightarrow> coins \<Rightarrow> coins res" where
  "Coins_Add M cs coinsB = Coins_safeAdd M cs coinsB"

definition Coins_negative :: "coins \<Rightarrow> coins" where
  "Coins_negative cs = map (\<lambda>c. \<lparr>Denom = Denom c, Amount = - Amount c\<rparr>) cs"

definition Coins_IsAnyNegative :: "coins \<Rightarrow> bool" where
  "Coins_IsAnyNegative cs = list_ex Coin_IsNegative cs"

definition Coins_SafeSub :: "math_ops \<Rightarrow> coins \<Rightarrow> coins \<Rightarrow> (coins \<times> bool) res" where
  "Coins_SafeSub M cs coinsB = bindR (NewCoins coinsB) (\<lambda>nb.
     bindR (Coins_safeAdd M cs (Coins_negative nb)) (\<lambda>diff. Inr (diff, Coins_IsAnyNegative diff)))"

definition Coins_Sub :: "math_ops \<Rightarrow> coins \<Rightarrow> coins \<Rightarrow> coins res" where
  "Coins_Sub M cs coinsB = bindR (Coins_SafeSub M cs coinsB) (\<lambda>(diff, hasNeg).
     if hasNeg then Inl (Panic ''negative coin amount'') else Inr diff)"

subsection \<open>Scalar multiplication and division\<close>

text \<open>The boolean result of \<^verbatim>\<open>SafeMulInt\<close> and \<^verbatim>\<open>SafeQuoInt\<close> is the \<open>option\<close>.\<close>

definition Coins_SafeMulInt :: "math_ops \<Rightarrow> coins \<Rightarrow> int \<Rightarrow> coins option res" where
  "Coins_SafeMulInt M cs x = (if x = 0 then Inr None
     else bindR (mapR (\<lambda>c. bindR (int_Mul M (Amount c) x) (\<lambda>a. NewCoin (Denom c) a)) cs)
       (\<lambda>r. Inr (Some r)))"

definition Coins_MulInt :: "math_ops \<Rightarrow> coins \<Rightarrow> int \<Rightarrow> coins res" where
  "Coins_MulInt M cs x = bindR (Coins_SafeMulInt M cs x) (\<lambda>r. case r of
     None \<Rightarrow> Inl (Panic ''multiplying by zero is an invalid operation on coins'') | Some cs' \<Rightarrow> Inr cs')"

definition Coins_SafeQuoInt :: "math_ops \<Rightarrow> coins \<Rightarrow> int \<Rightarrow> coins option res" where
  "Coins_SafeQuoInt M cs x = (if x = 0 then Inr None
     else bindR (mapR (\<lambda>c. bindR (int_Quo M (Amount c) x) (\<lambda>a. NewCoin (Denom c) a)) cs)
       (\<lambda>r. Inr (Some r)))"

definition Coins_QuoInt :: "math_ops \<Rightarrow> coins \<Rightarrow> int \<Rightarrow> coins res" where
  "Coins_QuoInt M cs x = bindR (Coins_SafeQuoInt M cs x) (\<lambda>r. case r of
     None \<Rightarrow> Inl (Panic ''dividing by zero is an invalid operation on coins'') | Some cs' \<Rightarrow> Inr cs')"

subsection \<open>Lookup\<close>

text \<open>
  \<^verbatim>\<open>Find\<close> is a binary search; \<open>None\<close> is its result \<^verbatim>\<open>(false, Coin{})\<close>.
\<close>

function Coins_Find :: "coins \<Rightarrow> string \<Rightarrow> coin option" where
  "Coins_Find cs denom =
     (if length cs = 0 then None
      else if length cs = 1 then (if Denom (cs ! 0) = denom then Some (cs ! 0) else None)
      else (let midIdx = length cs div 2; coin = cs ! midIdx in
        if denom < Denom coin then Coins_Find (take midIdx cs) denom
        else if denom = Denom coin then Some coin
        else Coins_Find (drop (midIdx + 1) cs) denom))"
  by pat_completeness auto
termination
  by (relation "measure (\<lambda>(cs, d). length cs)") auto

declare Coins_Find.simps [simp del]

definition AmountOfNoDenomValidation :: "coins \<Rightarrow> string \<Rightarrow> int" where
  "AmountOfNoDenomValidation cs denom =
     (case Coins_Find cs denom of Some c \<Rightarrow> Amount c | None \<Rightarrow> 0)"

definition Coins_AmountOf :: "coins \<Rightarrow> string \<Rightarrow> int res" where
  "Coins_AmountOf cs denom =
     bindR (mustValidateDenom denom) (\<lambda>_. Inr (AmountOfNoDenomValidation cs denom))"

subsection \<open>Pointwise maximum and minimum\<close>

fun Max_loop :: "coins \<Rightarrow> coins \<Rightarrow> coins" where
  "Max_loop (a # as) (b # bs) =
     (if Denom a < Denom b then a # Max_loop as (b # bs)
      else if Denom a = Denom b then (if Amount b > Amount a then b else a) # Max_loop as bs
      else b # Max_loop (a # as) bs)"
| "Max_loop as [] = as"
| "Max_loop [] bs = bs"

definition Coins_Max :: "coins \<Rightarrow> coins \<Rightarrow> coins res" where
  "Coins_Max cs coinsB = NewCoins (Max_loop cs coinsB)"

fun Min_loop :: "coins \<Rightarrow> coins \<Rightarrow> coins" where
  "Min_loop (a # as) (b # bs) =
     (if Denom a < Denom b then Min_loop as (b # bs)
      else if Denom a = Denom b then
        (let minCoin = (if Amount b < Amount a then b else a) in
         if \<not> Coin_IsZero minCoin then minCoin # Min_loop as bs else Min_loop as bs)
      else Min_loop (a # as) bs)"
| "Min_loop _ [] = []"
| "Min_loop [] _ = []"

definition Coins_Min :: "coins \<Rightarrow> coins \<Rightarrow> coins res" where
  "Coins_Min cs coinsB = NewCoins (Min_loop cs coinsB)"

subsection \<open>Comparisons\<close>

fun DenomsSubsetOf_loop :: "coins \<Rightarrow> coins \<Rightarrow> bool res" where
  "DenomsSubsetOf_loop coinsB [] = Inr True"
| "DenomsSubsetOf_loop coinsB (c # cs) = bindR (Coins_AmountOf coinsB (Denom c)) (\<lambda>a.
     if a = 0 then Inr False else DenomsSubsetOf_loop coinsB cs)"

definition Coins_DenomsSubsetOf :: "coins \<Rightarrow> coins \<Rightarrow> bool res" where
  "Coins_DenomsSubsetOf cs coinsB =
     (if length cs > length coinsB then Inr False else DenomsSubsetOf_loop coinsB cs)"

fun IsAllGT_loop :: "coins \<Rightarrow> coins \<Rightarrow> bool res" where
  "IsAllGT_loop cs [] = Inr True"
| "IsAllGT_loop cs (b # bs) = bindR (Coins_AmountOf cs (Denom b)) (\<lambda>amountA.
     if \<not> amountA > Amount b then Inr False else IsAllGT_loop cs bs)"

definition Coins_IsAllGT :: "coins \<Rightarrow> coins \<Rightarrow> bool res" where
  "Coins_IsAllGT cs coinsB =
     (if length cs = 0 then Inr False
      else if length coinsB = 0 then Inr True
      else bindR (Coins_DenomsSubsetOf coinsB cs) (\<lambda>sub.
        if \<not> sub then Inr False else IsAllGT_loop cs coinsB))"

fun IsAllGTE_loop :: "coins \<Rightarrow> coins \<Rightarrow> bool res" where
  "IsAllGTE_loop cs [] = Inr True"
| "IsAllGTE_loop cs (b # bs) = bindR (Coins_AmountOf cs (Denom b)) (\<lambda>a.
     if Amount b > a then Inr False else IsAllGTE_loop cs bs)"

definition Coins_IsAllGTE :: "coins \<Rightarrow> coins \<Rightarrow> bool res" where
  "Coins_IsAllGTE cs coinsB =
     (if length coinsB = 0 then Inr True
      else if length cs = 0 then Inr False
      else IsAllGTE_loop cs coinsB)"

definition Coins_IsAllLT :: "coins \<Rightarrow> coins \<Rightarrow> bool res" where
  "Coins_IsAllLT cs coinsB = Coins_IsAllGT coinsB cs"

definition Coins_IsAllLTE :: "coins \<Rightarrow> coins \<Rightarrow> bool res" where
  "Coins_IsAllLTE cs coinsB = Coins_IsAllGTE coinsB cs"

fun IsAnyGT_loop :: "coins \<Rightarrow> coins \<Rightarrow> bool res" where
  "IsAnyGT_loop coinsB [] = Inr False"
| "IsAnyGT_loop coinsB (c # cs) = bindR (Coins_AmountOf coinsB (Denom c)) (\<lambda>a.
     if Amount c > a \<and> a \<noteq> 0 then Inr True else IsAnyGT_loop coinsB cs)"

definition Coins_IsAnyGT :: "coins \<Rightarrow> coins \<Rightarrow> bool res" where
  "Coins_IsAnyGT cs coinsB = (if length coinsB = 0 then Inr False else IsAnyGT_loop coinsB cs)"

fun IsAnyGTE_loop :: "coins \<Rightarrow> coins \<Rightarrow> bool res" where
  "IsAnyGTE_loop coinsB [] = Inr False"
| "IsAnyGTE_loop coinsB (c # cs) = bindR (Coins_AmountOf coinsB (Denom c)) (\<lambda>a.
     if Amount c \<ge> a \<and> a \<noteq> 0 then Inr True else IsAnyGTE_loop coinsB cs)"

definition Coins_IsAnyGTE :: "coins \<Rightarrow> coins \<Rightarrow> bool res" where
  "Coins_IsAnyGTE cs coinsB = (if length coinsB = 0 then Inr False else IsAnyGTE_loop coinsB cs)"

definition Coins_IsZero :: "coins \<Rightarrow> bool" where
  "Coins_IsZero cs = list_all Coin_IsZero cs"

definition Coins_Equal :: "coins \<Rightarrow> coins \<Rightarrow> bool" where
  "Coins_Equal cs coinsB =
     (if length cs \<noteq> length coinsB then False
      else list_all2 (\<lambda>a b. Denom a = Denom b \<and> Amount a = Amount b) (Coins_Sort cs) (Coins_Sort coinsB))"

definition Coins_Empty :: "coins \<Rightarrow> bool" where
  "Coins_Empty cs \<longleftrightarrow> length cs = 0"

definition Coins_IsAllPositive :: "coins \<Rightarrow> bool" where
  "Coins_IsAllPositive cs = (if length cs = 0 then False else list_all Coin_IsPositive cs)"

section \<open>MapCoins\<close>

text \<open>
  \<^verbatim>\<open>MapCoins\<close> accumulates amounts per denomination. \<^verbatim>\<open>ToCoins\<close> ranges over the map; the
  order is again an argument.
\<close>

type_synonym map_coins = "string \<rightharpoonup> int"

fun MapCoins_Add :: "math_ops \<Rightarrow> map_coins \<Rightarrow> coins \<Rightarrow> map_coins res" where
  "MapCoins_Add M m [] = Inr m"
| "MapCoins_Add M m (c # cs) = (case m (Denom c) of
     Some existAmt \<Rightarrow> bindR (int_Add M existAmt (Amount c)) (\<lambda>s. MapCoins_Add M (m(Denom c \<mapsto> s)) cs)
   | None \<Rightarrow> MapCoins_Add M (m(Denom c \<mapsto> Amount c)) cs)"

definition NewMapCoins :: "math_ops \<Rightarrow> coins \<Rightarrow> map_coins res" where
  "NewMapCoins M cs = MapCoins_Add M Map.empty cs"

fun ToCoins_loop :: "map_coins \<Rightarrow> string list \<Rightarrow> coins res" where
  "ToCoins_loop m [] = Inr []"
| "ToCoins_loop m (d # ds) = (case m d of
     None \<Rightarrow> ToCoins_loop m ds
   | Some amount \<Rightarrow> if amount = 0 then ToCoins_loop m ds
       else bindR (NewCoin d amount) (\<lambda>c. bindR (ToCoins_loop m ds) (\<lambda>cs. Inr (c # cs))))"

definition MapCoins_ToCoins :: "map_coins \<Rightarrow> string list \<Rightarrow> coins res" where
  "MapCoins_ToCoins m order = bindR (ToCoins_loop m order) (\<lambda>cs.
     if length cs = 0 then Inr [] else Inr (Coins_Sort cs))"

section \<open>What a slice of coins denotes\<close>

definition amt :: "coins \<Rightarrow> string \<Rightarrow> int" where
  "amt cs d = (\<Sum>c\<leftarrow>cs. if Denom c = d then Amount c else 0)"

definition canonical :: "coins \<Rightarrow> bool" where
  "canonical cs \<longleftrightarrow> strict_sorted_by Denom cs \<and> (\<forall>c \<in> set cs. Amount c \<noteq> 0)"

definition fits :: "coins \<Rightarrow> bool" where
  "fits cs \<longleftrightarrow> (\<forall>c \<in> set cs. int_ok (Amount c))"

text \<open>The canonical slice that holds the given amounts of the given denominations.\<close>

definition coins_of :: "(string \<Rightarrow> int) \<Rightarrow> string list \<Rightarrow> coins" where
  "coins_of f ds = sort_key Denom (map (\<lambda>d. \<lparr>Denom = d, Amount = f d\<rparr>) (filter (\<lambda>d. f d \<noteq> 0) ds))"

lemma amt_simps [simp]:
  "amt [] d = 0"
  "amt (c # cs) d = (if Denom c = d then Amount c else 0) + amt cs d"
  "amt (as @ bs) d = amt as d + amt bs d"
  by (simp_all add: amt_def)

lemma amt_notin: "d \<notin> Denom ` set cs \<Longrightarrow> amt cs d = 0"
  by (induction cs) auto

lemma amt_in: "distinct (map Denom cs) \<Longrightarrow> c \<in> set cs \<Longrightarrow> amt cs (Denom c) = Amount c"
  by (induction cs) (auto simp: image_iff amt_notin)

lemma amt_filter: "amt cs d = (\<Sum>c\<leftarrow>filter (\<lambda>c. Denom c = d) cs. Amount c)"
  by (induction cs) auto

lemma coin_eqI: "Denom a = Denom b \<Longrightarrow> Amount a = Amount b \<Longrightarrow> (a::coin) = b"
  by simp

lemma canonicalD:
  assumes "canonical cs"
  shows "strict_sorted_by Denom cs" and "distinct (map Denom cs)"
    and "\<And>c. c \<in> set cs \<Longrightarrow> Amount c \<noteq> 0"
  using assms strict_sorted_distinct [of Denom cs] by (auto simp: canonical_def)

lemma canonical_denoms: "canonical cs \<Longrightarrow> Denom ` set cs = {d. amt cs d \<noteq> 0}"
proof (intro set_eqI iffI)
  fix d assume c: "canonical cs" and "d \<in> Denom ` set cs"
  then show "d \<in> {d. amt cs d \<noteq> 0}" using amt_in [OF canonicalD(2) [OF c]] canonicalD(3) [OF c] by auto
next
  fix d assume "d \<in> {d. amt cs d \<noteq> 0}"
  then show "d \<in> Denom ` set cs" by (metis amt_notin mem_Collect_eq)
qed

lemma canonical_set:
  assumes "canonical cs"
  shows "set cs = {c. amt cs (Denom c) = Amount c \<and> Amount c \<noteq> 0}"
proof (intro set_eqI iffI)
  fix c :: coin assume "c \<in> set cs"
  with assms show "c \<in> {c. amt cs (Denom c) = Amount c \<and> Amount c \<noteq> 0}"
    by (auto simp: amt_in canonicalD)
next
  fix c :: coin assume c: "c \<in> {c. amt cs (Denom c) = Amount c \<and> Amount c \<noteq> 0}"
  then have "Denom c \<in> Denom ` set cs" unfolding canonical_denoms [OF assms] by simp
  then obtain c' where c': "c' \<in> set cs" "Denom c' = Denom c" by auto
  have "amt cs (Denom c') = Amount c'" using assms c'(1) by (intro amt_in canonicalD)
  with c c'(2) have "Amount c' = Amount c" by simp
  with c'(2) have "c' = c" by (intro coin_eqI)
  with c'(1) show "c \<in> set cs" by simp
qed

text \<open>A canonical slice is determined by what it denotes.\<close>

lemma canonical_unique:
  assumes "canonical as" and "canonical bs" and "\<And>d. amt as d = amt bs d"
  shows "as = bs"
proof (rule strict_sorted_unique [where k = Denom])
  show "set as = set bs" using assms by (simp add: canonical_set)
qed (use assms in \<open>auto simp: canonical_def\<close>)

lemma sgn_iff [simp]: "sgn (x::int) = 1 \<longleftrightarrow> 0 < x" "sgn (x::int) = -1 \<longleftrightarrow> x < 0"
  by (simp_all add: sgn_if)

lemmas coin_sign_defs = Coin_IsZero_def Coin_IsPositive_def Coin_IsNegative_def

lemma ValidateDenom_ok [simp]: "ValidateDenom d = Inr u \<longleftrightarrow> reDnm_MatchString d"
  by (simp add: ValidateDenom_def)

lemma ValidateDenom_eq: "reDnm_MatchString d \<Longrightarrow> ValidateDenom d = Inr ()"
  by (simp add: ValidateDenom_def)

lemma mustValidateDenom_eq [simp]: "reDnm_MatchString d \<Longrightarrow> mustValidateDenom d = Inr ()"
  by (simp add: mustValidateDenom_def ValidateDenom_def)

lemma mustValidateDenom_ok [simp]: "mustValidateDenom d = Inr u \<longleftrightarrow> reDnm_MatchString d"
  by (simp add: mustValidateDenom_def)

lemma NewCoin_Inr:
  "NewCoin d a = Inr c \<longleftrightarrow> c = \<lparr>Denom = d, Amount = a\<rparr> \<and> reDnm_MatchString d \<and> 0 \<le> a"
  by (auto simp: NewCoin_def Coin_Validate_def Let_def bindR_eq_Inr)

lemma NewCoin_ok [simp]:
  "reDnm_MatchString d \<Longrightarrow> 0 \<le> a \<Longrightarrow> NewCoin d a = Inr \<lparr>Denom = d, Amount = a\<rparr>"
  by (simp add: NewCoin_Inr)

lemma Validate_rest_ok:
  "Validate_rest d cs = Inr u \<longleftrightarrow>
     sorted_wrt (<) (d # map Denom cs) \<and> (\<forall>c \<in> set cs. reDnm_MatchString (Denom c) \<and> 0 < Amount c)"
proof (induction cs arbitrary: d)
  case (Cons c cs)
  then show ?case
    by (auto simp: bindR_eq_Inr Coin_IsPositive_def)
qed simp

lemma Validate_single_ok:
  "Validate_single c = Inr u \<longleftrightarrow> reDnm_MatchString (Denom c) \<and> 0 < Amount c"
  by (auto simp: Validate_single_def bindR_eq_Inr Coin_IsPositive_def)

lemma Coins_Validate_ok:
  "Coins_Validate cs = Inr () \<longleftrightarrow>
     strict_sorted_by Denom cs \<and> (\<forall>c \<in> set cs. reDnm_MatchString (Denom c) \<and> 0 < Amount c)"
  by (cases cs rule: Coins_isSorted.cases)
    (auto simp del: Validate_rest.simps
      simp: Coins_Validate_def bindR_eq_Inr Validate_rest_ok Validate_single_ok)

lemma Coins_IsValid_ok: "Coins_IsValid cs \<longleftrightarrow> Coins_Validate cs = Inr ()"
  by (auto simp: Coins_IsValid_def okR_iff)

lemmas Coins_IsValid_alt = Coins_IsValid_ok [unfolded Coins_Validate_ok]

lemma valid_canonical: "Coins_IsValid cs \<Longrightarrow> canonical cs"
  by (auto simp: Coins_IsValid_alt canonical_def)

lemma valid_amt_nonneg: "Coins_IsValid cs \<Longrightarrow> 0 \<le> amt cs d"
  unfolding Coins_IsValid_alt amt_def by (intro sum_list_nonneg) auto

lemma valid_denom: "Coins_IsValid cs \<Longrightarrow> amt cs d \<noteq> 0 \<Longrightarrow> reDnm_MatchString d"
  by (metis (no_types, lifting) Coins_IsValid_alt amt_notin imageE)

lemma canonical_valid:
  assumes "canonical cs" and "\<And>d. amt cs d \<noteq> 0 \<Longrightarrow> reDnm_MatchString d \<and> 0 < amt cs d"
  shows "Coins_IsValid cs"
  unfolding Coins_IsValid_alt
proof (intro conjI ballI)
  fix c assume "c \<in> set cs"
  then have c: "amt cs (Denom c) = Amount c" "Amount c \<noteq> 0"
    using canonical_set [OF assms(1)] by blast+
  then show "reDnm_MatchString (Denom c)" "0 < Amount c"
    using assms(2) [of "Denom c"] by simp_all
qed (use assms(1) in \<open>simp add: canonical_def\<close>)

lemma isSorted_iff [simp]: "Coins_isSorted cs \<longleftrightarrow> sorted (map Denom cs)"
  by (induction cs rule: Coins_isSorted.induct) (auto simp: not_less)

lemma Coins_Sort_eq: "Coins_Sort cs = sort_key Denom cs"
  by (cases cs rule: Coins_isSorted.cases) (simp_all add: Coins_Sort_def)

lemma canonical_sorted [simp]: "canonical cs \<Longrightarrow> sorted (map Denom cs)"
  by (simp add: canonical_def strict_sorted_iff)

lemma amt_sort [simp]: "amt (sort_key Denom cs) d = amt cs d"
proof -
  have "amt (insort_key Denom c xs) d = amt (c # xs) d" for c xs
    by (induction xs) auto
  then show ?thesis by (induction cs) simp_all
qed

lemma amt_removeZero [simp]: "amt (removeZeroCoins cs) d = amt cs d"
  by (induction cs) (auto simp: removeZeroCoins_def Coin_IsZero_def)

lemma sanitizeCoins_eq: "sanitizeCoins cs = sort_key Denom (removeZeroCoins cs)"
  by (simp add: sanitizeCoins_def Let_def Coins_Sort_eq)

lemma amt_sanitize [simp]: "amt (sanitizeCoins cs) d = amt cs d"
  by (simp add: sanitizeCoins_eq)

lemma NewCoins_Inr: "NewCoins cs = Inr r \<longleftrightarrow> r = sanitizeCoins cs \<and> Coins_IsValid r"
  by (auto simp: NewCoins_def Let_def bindR_eq_Inr Coins_IsValid_ok)

lemma NewCoins_amt: "NewCoins cs = Inr r \<Longrightarrow> amt r d = amt cs d"
  by (simp add: NewCoins_Inr)

lemma NewCoins_valid: "NewCoins cs = Inr r \<Longrightarrow> Coins_IsValid r"
  by (auto simp: NewCoins_Inr)

lemma sanitize_canonical [simp]: "canonical cs \<Longrightarrow> sanitizeCoins cs = cs"
  by (simp add: sanitizeCoins_eq removeZeroCoins_def Coin_IsZero_def canonical_def sort_key_id
      strict_sorted_iff)

lemma NewCoins_of_valid [simp]: "Coins_IsValid cs \<Longrightarrow> NewCoins cs = Inr cs"
  using valid_canonical [of cs] by (simp add: NewCoins_Inr)

section \<open>Lookup\<close>

lemma Find_small:
  "Coins_Find [] d = None"
  "Coins_Find [c] d = (if Denom c = d then Some c else None)"
  by (simp_all add: Coins_Find.simps)

lemma Find_big:
  assumes "cs = l @ c # r" and "length l = length cs div 2" and "l \<noteq> []"
  shows "Coins_Find cs d =
    (if d < Denom c then Coins_Find l d else if d = Denom c then Some c else Coins_Find r d)"
proof -
  have "length cs > 1" using assms(1,3) by (cases l) auto
  moreover have "cs ! length l = c" and "take (length l) cs = l" and "drop (length l + 1) cs = r"
    using assms(1) by simp_all
  moreover note assms(2)
  ultimately show ?thesis
    by (simp only: Coins_Find.simps [of cs] Let_def) auto
qed

lemma split_at_mid:
  assumes "length xs > 1"
  obtains l x r where "xs = l @ x # r" and "length l = length xs div 2" and "l \<noteq> []"
proof
  have m: "length xs div 2 < length xs" using assms by auto
  show "xs = take (length xs div 2) xs @ xs ! (length xs div 2) # drop (Suc (length xs div 2)) xs"
    using m by (rule id_take_nth_drop)
  show "length (take (length xs div 2) xs) = length xs div 2" using m by simp
  show "take (length xs div 2) xs \<noteq> []" using assms by auto
qed

lemma Find_strict:
  "strict_sorted_by Denom cs \<Longrightarrow> Coins_Find cs d = find (\<lambda>c. Denom c = d) cs"
proof (induction "length cs" arbitrary: cs rule: less_induct)
  case less
  consider "cs = []" | c where "cs = [c]" | "length cs > 1"
    by (cases cs rule: Coins_isSorted.cases) auto
  then show ?case
  proof cases
    case 3
    then obtain l c r where cs: "cs = l @ c # r" "length l = length cs div 2" "l \<noteq> []"
      by (rule split_at_mid)
    have lo: "\<And>x. x \<in> set l \<Longrightarrow> Denom x < Denom c" and hi: "\<And>x. x \<in> set r \<Longrightarrow> Denom c < Denom x"
      and srt: "strict_sorted_by Denom l" "strict_sorted_by Denom r"
      using less.prems cs(1) by (auto simp: sorted_wrt_append)
    have IH: "Coins_Find l d = find (\<lambda>c. Denom c = d) l" "Coins_Find r d = find (\<lambda>c. Denom c = d) r"
      using less.hyps srt cs(1) by auto
    have nl: "find (\<lambda>c. Denom c = d) l = None" if "\<not> d < Denom c"
      using lo that by (auto simp: find_None_iff)
    have nr: "find (\<lambda>c. Denom c = d) r = None" if "\<not> Denom c < d"
      using hi that by (auto simp: find_None_iff)
    show ?thesis
      unfolding Find_big [OF cs] IH using nl nr by (auto simp: cs(1) find_append split: option.split)
  qed (simp_all add: Find_small)
qed

lemma find_amt:
  "distinct (map Denom cs) \<Longrightarrow>
   (case find (\<lambda>c. Denom c = d) cs of Some c \<Rightarrow> Amount c | None \<Rightarrow> 0) = amt cs d"
  by (induction cs) (auto simp: amt_notin)

lemma AmountOf_canonical:
  "canonical cs \<Longrightarrow> AmountOfNoDenomValidation cs d = amt cs d"
  using Find_strict [of cs d] find_amt [of cs d] canonicalD [of cs]
  by (simp add: AmountOfNoDenomValidation_def)

lemma Coins_AmountOf_eq:
  "canonical cs \<Longrightarrow> reDnm_MatchString d \<Longrightarrow> Coins_AmountOf cs d = Inr (amt cs d)"
  by (simp add: Coins_AmountOf_def AmountOf_canonical)

section \<open>Addition\<close>

lemma uniqCoins_eq:
  "uniqCoins m cs d = (if d \<in> Denom ` set cs \<or> d \<in> dom m
     then Some ((case m d of None \<Rightarrow> [] | Some l \<Rightarrow> l) @ filter (\<lambda>c. Denom c = d) cs) else None)"
  by (induction cs arbitrary: m) (auto simp: domIff split: option.splits)

lemma uniqCoins_lookup:
  "(case uniqCoins (uniqCoins Map.empty as) bs d of None \<Rightarrow> [] | Some l \<Rightarrow> l)
     = filter (\<lambda>c. Denom c = d) (as @ bs)"
  by (auto simp: uniqCoins_eq domIff filter_empty_conv image_iff intro!: filter_False [symmetric])

context sdk_math
begin

lemma Coin_Add_Inr:
  "Coin_Add M a b = Inr c \<longleftrightarrow>
     Denom a = Denom b \<and> int_ok (Amount a + Amount b) \<and> c = \<lparr>Denom = Denom a, Amount = Amount a + Amount b\<rparr>"
  by (auto simp: Coin_Add_def same_denom_def bindR_eq_Inr int_Add_Inr)

text \<open>The running totals of a list of amounts all fit in an \<^verbatim>\<open>Int\<close>.\<close>

lemma combo_Inr:
  assumes "foldR (\<lambda>c acc. Coin_Add M acc c) cL \<lparr>Denom = d, Amount = a\<rparr> = Inr r"
  shows "r = \<lparr>Denom = d, Amount = a + (\<Sum>c\<leftarrow>cL. Amount c)\<rparr>"
  using assms
proof (induction cL arbitrary: a)
  case (Cons c cL)
  then have "foldR (\<lambda>c acc. Coin_Add M acc c) cL \<lparr>Denom = d, Amount = a + Amount c\<rparr> = Inr r"
    by (auto simp: bindR_eq_Inr Coin_Add_Inr)
  from Cons.IH [OF this] show ?case by (simp add: add.assoc)
qed simp

lemma combo_total:
  assumes "\<forall>c \<in> set cL. Denom c = d" and "\<forall>i \<le> length cL. int_ok (a + (\<Sum>c\<leftarrow>take i cL. Amount c))"
  shows "foldR (\<lambda>c acc. Coin_Add M acc c) cL \<lparr>Denom = d, Amount = a\<rparr>
    = Inr \<lparr>Denom = d, Amount = a + (\<Sum>c\<leftarrow>cL. Amount c)\<rparr>"
  using assms
proof (induction cL arbitrary: a)
  case (Cons c cL)
  have "int_ok (a + Amount c)" using Cons.prems(2) [rule_format, of 1] by simp
  then have step: "Coin_Add M \<lparr>Denom = d, Amount = a\<rparr> c = Inr \<lparr>Denom = d, Amount = a + Amount c\<rparr>"
    using Cons.prems(1) by (simp add: Coin_Add_Inr)
  have "int_ok (a + Amount c + (\<Sum>c\<leftarrow>take i cL. Amount c))" if "i \<le> length cL" for i
    using Cons.prems(2) [rule_format, of "Suc i"] that by (simp add: add.assoc)
  with Cons.IH [of "a + Amount c"] Cons.prems(1) step show ?case by (simp add: add.assoc)
qed simp

text \<open>What the loop over the map has collected after the keys \<open>ds\<close>.\<close>

lemma coalesce_Inr:
  assumes "coalesce M (uniqCoins (uniqCoins Map.empty as) bs) ds acc = Inr r"
  shows "r = acc @ map (\<lambda>d. \<lparr>Denom = d, Amount = amt (as @ bs) d\<rparr>)
    (filter (\<lambda>d. amt (as @ bs) d \<noteq> 0) ds)"
  using assms
proof (induction ds arbitrary: acc)
  case (Cons d ds)
  then obtain combo where c: "comboCoin M d (filter (\<lambda>c. Denom c = d) (as @ bs)) = Inr combo"
    and r: "coalesce M (uniqCoins (uniqCoins Map.empty as) bs) ds
        (if \<not> Coin_IsZero combo then acc @ [combo] else acc) = Inr r"
    by (auto simp: bindR_eq_Inr uniqCoins_lookup simp del: filter_append)
  have "combo = \<lparr>Denom = d, Amount = amt (as @ bs) d\<rparr>"
    using combo_Inr [OF c [unfolded comboCoin_def]] by (simp only: amt_filter add_0)
  with Cons.IH [OF r] show ?case by (simp add: Coin_IsZero_def)
qed simp

lemma coalesce_total:
  assumes "\<And>d. d \<in> set ds \<Longrightarrow> \<exists>c. comboCoin M d (filter (\<lambda>c. Denom c = d) (as @ bs)) = Inr c"
  shows "\<exists>r. coalesce M (uniqCoins (uniqCoins Map.empty as) bs) ds acc = Inr r"
  using assms
proof (induction ds arbitrary: acc)
  case (Cons d ds)
  obtain c where "comboCoin M d (filter (\<lambda>c. Denom c = d) (as @ bs)) = Inr c"
    using Cons.prems by fastforce
  with Cons show ?case by (simp add: uniqCoins_lookup del: filter_append)
qed simp

lemma safeAdd_in_Inr:
  assumes "Coins_safeAdd_in M ds as bs = Inr r"
  shows "sorted (map Denom as)" and "sorted (map Denom bs)"
    and "r = sort_key Denom (map (\<lambda>d. \<lparr>Denom = d, Amount = amt (as @ bs) d\<rparr>)
      (filter (\<lambda>d. amt (as @ bs) d \<noteq> 0) ds))"
  using assms coalesce_Inr [of as bs ds "[]"]
  by (auto simp: Coins_safeAdd_in_def bindR_eq_Inr Coins_Sort_eq simp del: amt_simps split: if_splits)

end

lemma coins_of_canonical: "distinct ds \<Longrightarrow> canonical (coins_of f ds)"
  by (auto simp: coins_of_def canonical_def comp_def intro!: sort_key_strict)

lemma amt_map_denoms:
  "distinct ds \<Longrightarrow> amt (map (\<lambda>d. \<lparr>Denom = d, Amount = f d\<rparr>) ds) d = (if d \<in> set ds then f d else 0)"
  by (induction ds) auto

lemma coins_of_amt:
  assumes "distinct ds" and "\<And>d. f d \<noteq> 0 \<Longrightarrow> d \<in> set ds"
  shows "amt (coins_of f ds) d = f d"
  using assms by (auto simp: coins_of_def amt_map_denoms)

lemma coins_of_cong:
  assumes "distinct ds" and "distinct es" and "set ds = set es"
  shows "coins_of f ds = coins_of f es"
  unfolding coins_of_def using assms
  by (intro sort_key_perm_eq) (auto simp: comp_def)

lemma small_prefix_sums:
  fixes xs ys :: "int list"
  assumes "length xs \<le> 1" and "length ys \<le> 1" and "\<forall>x \<in> set xs \<union> set ys. int_ok x"
    and "int_ok (sum_list xs + sum_list ys)"
  shows "int_ok (sum_list (take i (xs @ ys)))"
proof -
  have z: "int_ok 0" by (simp add: int_ok_def)
  consider "xs = []" | x where "xs = [x]" using assms(1) by (cases xs) auto
  then show ?thesis
  proof cases
    case 1
    with assms z show ?thesis by (cases ys; cases i) auto
  next
    case (2 x)
    then show ?thesis using assms z by (cases ys; cases i; cases "i - 1") auto
  qed
qed

lemma filter_denom_strict:
  assumes "distinct (map Denom cs)"
  shows "filter (\<lambda>c. Denom c = d) cs = [] \<or> (\<exists>c \<in> set cs. filter (\<lambda>c. Denom c = d) cs = [c])"
  using assms by (induction cs) (auto simp: filter_empty_conv image_iff)

context sdk_math
begin

lemma safeAdd_in_eq:
  assumes "Coins_safeAdd_in M ds as bs = Inr r"
  shows "r = coins_of (amt (as @ bs)) ds"
  using safeAdd_in_Inr(3) [OF assms] by (simp add: coins_of_def)

lemma safeAdd_Inr:
  assumes "Coins_safeAdd M as bs = Inr r"
  shows "canonical r" and "amt r d = amt as d + amt bs d"
proof -
  let ?ds = "remdups (map Denom (as @ bs))"
  have r: "r = coins_of (amt (as @ bs)) ?ds"
    using assms unfolding Coins_safeAdd_def by (rule safeAdd_in_eq)
  show "canonical r" unfolding r by (rule coins_of_canonical) simp
  have "d \<in> set ?ds" if "amt (as @ bs) d \<noteq> 0" for d
    using amt_notin [of d "as @ bs"] that by (auto simp del: amt_simps)
  then have "amt r d = amt (as @ bs) d" unfolding r by (intro coins_of_amt) simp_all
  then show "amt r d = amt as d + amt bs d" by simp
qed

text \<open>Two sorted slices without duplicates add up as long as no total leaves the range.\<close>

lemma combo_two:
  assumes "distinct (map Denom as)" and "distinct (map Denom bs)" and "fits as" and "fits bs"
    and "int_ok (amt as d + amt bs d)"
  shows "\<exists>c. comboCoin M d (filter (\<lambda>c. Denom c = d) (as @ bs)) = Inr c"
proof -
  have fa: "amt as d = (\<Sum>c\<leftarrow>filter (\<lambda>c. Denom c = d) as. Amount c)"
    and fb: "amt bs d = (\<Sum>c\<leftarrow>filter (\<lambda>c. Denom c = d) bs. Amount c)"
    by (simp_all only: amt_filter)
  have len: "length (filter (\<lambda>c. Denom c = d) as) \<le> 1" "length (filter (\<lambda>c. Denom c = d) bs) \<le> 1"
    using filter_denom_strict [OF assms(1), of d] filter_denom_strict [OF assms(2), of d] by auto
  have "int_ok (sum_list (take i (map Amount (filter (\<lambda>c. Denom c = d) as)
      @ map Amount (filter (\<lambda>c. Denom c = d) bs))))" for i
    using len assms(3,4,5) unfolding fa fb by (intro small_prefix_sums) (auto simp: fits_def)
  then have "\<forall>i \<le> length (filter (\<lambda>c. Denom c = d) (as @ bs)).
      int_ok (0 + (\<Sum>c\<leftarrow>take i (filter (\<lambda>c. Denom c = d) (as @ bs)). Amount c))"
    by (simp only: map_append [symmetric] filter_append [symmetric] take_map add_0) simp
  then have "foldR (\<lambda>c acc. Coin_Add M acc c) (filter (\<lambda>c. Denom c = d) (as @ bs))
      \<lparr>Denom = d, Amount = 0\<rparr> = Inr \<lparr>Denom = d,
        Amount = 0 + (\<Sum>c\<leftarrow>filter (\<lambda>c. Denom c = d) (as @ bs). Amount c)\<rparr>"
    by (intro combo_total) auto
  then show ?thesis unfolding comboCoin_def by blast
qed

lemma safeAdd_in_total:
  assumes "strict_sorted_by Denom as" and "strict_sorted_by Denom bs" and "fits as" and "fits bs"
    and "\<And>d. int_ok (amt as d + amt bs d)"
  shows "\<exists>r. Coins_safeAdd_in M ds as bs = Inr r"
proof -
  have "\<exists>r. coalesce M (uniqCoins (uniqCoins Map.empty as) bs) ds [] = Inr r"
    using assms by (intro coalesce_total combo_two strict_sorted_distinct)
  with assms show ?thesis by (auto simp: Coins_safeAdd_in_def strict_sorted_iff)
qed

lemma safeAdd_total:
  assumes "canonical as" and "canonical bs" and "fits as" and "fits bs"
    and "\<And>d. int_ok (amt as d + amt bs d)"
  obtains r where "Coins_safeAdd M as bs = Inr r"
  using safeAdd_in_total [of as bs] assms unfolding Coins_safeAdd_def canonical_def by blast

end

end
