(* ===== verification/CoinLaws.thy ===== *)
theory CoinLaws
  imports Coins
begin

text \<open>
  The properties of \<^verbatim>\<open>types/coin.go\<close> and \<^verbatim>\<open>types/mapcoins.go\<close>: validation, lookup, addition and
  subtraction, maximum and minimum, comparison, scalar operations and bulk addition, each
  against the pointwise operation on the amounts the slices denote (\<open>amt\<close>).
\<close>

section \<open>Auxiliary facts\<close>

lemma int_ok_diff: "0 \<le> x \<Longrightarrow> 0 \<le> y \<Longrightarrow> int_ok x \<Longrightarrow> int_ok y \<Longrightarrow> int_ok (x - y)"
  by (auto simp: int_ok_def)

lemma int_ok_0 [simp]: "int_ok 0"
  by (simp add: int_ok_def)

lemma int_ok_uminus [simp]: "int_ok (- x) = int_ok x"
  by (simp add: int_ok_def)

lemma fits_amt: "canonical cs \<Longrightarrow> fits cs \<Longrightarrow> int_ok (amt cs d)"
proof (cases "d \<in> Denom ` set cs")
  case True
  assume c: "canonical cs" "fits cs"
  from True obtain k where "k \<in> set cs" "d = Denom k" by blast
  with c show ?thesis using amt_in [OF canonicalD(2) [OF c(1)]] by (simp add: fits_def)
qed (simp add: amt_notin)

lemma Coins_negative_simps [simp]:
  "map Denom (Coins_negative cs) = map Denom cs"
  "amt (Coins_negative cs) d = - amt cs d"
  by (simp add: Coins_negative_def, induction cs) (auto simp: Coins_negative_def)

lemma Coins_negative_canonical [simp]: "canonical (Coins_negative cs) = canonical cs"
  by (auto simp: canonical_def) (auto simp: Coins_negative_def)

lemma Coins_negative_fits [simp]: "fits (Coins_negative cs) = fits cs"
  by (auto simp: fits_def Coins_negative_def)

lemma IsAnyNegative_amt:
  assumes "canonical cs"
  shows "Coins_IsAnyNegative cs \<longleftrightarrow> (\<exists>d. amt cs d < 0)"
proof
  assume "Coins_IsAnyNegative cs"
  then obtain c where "c \<in> set cs" "Amount c < 0"
    by (auto simp: Coins_IsAnyNegative_def list_ex_iff Coin_IsNegative_def)
  then show "\<exists>d. amt cs d < 0" using amt_in [OF canonicalD(2) [OF assms]] by metis
next
  assume "\<exists>d. amt cs d < 0"
  then obtain d where d: "amt cs d < 0" ..
  then have "d \<in> Denom ` set cs" using amt_notin [of d cs] by force
  then obtain c where "c \<in> set cs" "d = Denom c" by blast
  with d show "Coins_IsAnyNegative cs" using amt_in [OF canonicalD(2) [OF assms]]
    by (auto simp: Coins_IsAnyNegative_def list_ex_iff Coin_IsNegative_def)
qed

context sdk_math
begin

lemma coalesce_ok_iff:
  "(\<exists>r. coalesce M (uniqCoins (uniqCoins Map.empty as) bs) ds acc = Inr r) \<longleftrightarrow>
   (\<forall>d \<in> set ds. \<exists>c. comboCoin M d (filter (\<lambda>c. Denom c = d) (as @ bs)) = Inr c)"
proof
  show "\<forall>d \<in> set ds. \<exists>c. comboCoin M d (filter (\<lambda>c. Denom c = d) (as @ bs)) = Inr c"
    if "\<exists>r. coalesce M (uniqCoins (uniqCoins Map.empty as) bs) ds acc = Inr r"
    using that
    by (induction ds arbitrary: acc) (auto simp: bindR_eq_Inr uniqCoins_lookup simp del: filter_append)
qed (use coalesce_total in blast)

lemma safeAdd_in_perm:
  assumes "distinct ds" and "distinct es" and "set ds = set es"
    and "Coins_safeAdd_in M ds as bs = Inr r"
  shows "Coins_safeAdd_in M es as bs = Inr r"
proof -
  have srt: "Coins_isSorted as" "Coins_isSorted bs"
    using safeAdd_in_Inr(1,2) [OF assms(4)] by simp_all
  have "\<exists>q. coalesce M (uniqCoins (uniqCoins Map.empty as) bs) ds [] = Inr q"
    using assms(4) srt by (auto simp: Coins_safeAdd_in_def bindR_eq_Inr)
  then have "\<exists>q. coalesce M (uniqCoins (uniqCoins Map.empty as) bs) es [] = Inr q"
    unfolding coalesce_ok_iff using assms(3) by simp
  then obtain r' where r': "Coins_safeAdd_in M es as bs = Inr r'"
    using srt by (auto simp: Coins_safeAdd_in_def)
  then have "r' = coins_of (amt (as @ bs)) es" by (rule safeAdd_in_eq)
  also have "\<dots> = coins_of (amt (as @ bs)) ds" using assms(1-3) by (intro coins_of_cong) auto
  also have "\<dots> = r" using safeAdd_in_eq [OF assms(4)] by simp
  finally show ?thesis using r' by simp
qed

lemma Add_valid:
  assumes "Coins_IsValid as" and "Coins_IsValid bs" and "Coins_Add M as bs = Inr r"
  shows "Coins_IsValid r"
proof (rule canonical_valid)
  show "canonical r" using assms(3) unfolding Coins_Add_def by (rule safeAdd_Inr)
  fix d assume d: "amt r d \<noteq> 0"
  have eq: "amt r d = amt as d + amt bs d" using assms(3) unfolding Coins_Add_def by (rule safeAdd_Inr)
  have "0 \<le> amt as d" "0 \<le> amt bs d" using assms(1,2) by (auto intro: valid_amt_nonneg)
  moreover have "amt as d \<noteq> 0 \<or> amt bs d \<noteq> 0" using d eq by auto
  ultimately show "reDnm_MatchString d \<and> 0 < amt r d"
    using eq assms(1,2) by (auto dest: valid_denom)
qed

lemma SafeSub_spec:
  assumes "canonical as" and "Coins_IsValid bs" and "Coins_SafeSub M as bs = Inr (diff, neg)"
  shows "canonical diff" and "amt diff d = amt as d - amt bs d"
    and "neg \<longleftrightarrow> (\<exists>d. amt as d < amt bs d)"
proof -
  have s: "Coins_safeAdd M as (Coins_negative bs) = Inr diff" and n: "neg = Coins_IsAnyNegative diff"
    using assms by (auto simp: Coins_SafeSub_def bindR_eq_Inr)
  show c: "canonical diff" using s by (rule safeAdd_Inr)
  have a: "amt diff d = amt as d - amt bs d" for d
    using safeAdd_Inr(2) [OF s, of d] by simp
  then show "amt diff d = amt as d - amt bs d" .
  show "neg \<longleftrightarrow> (\<exists>d. amt as d < amt bs d)" by (simp add: n IsAnyNegative_amt [OF c] a)
qed

lemma SafeSub_total:
  assumes "Coins_IsValid as" and "Coins_IsValid bs" and "fits as" and "fits bs"
  obtains diff neg where "Coins_SafeSub M as bs = Inr (diff, neg)"
proof -
  have ca: "canonical as" "canonical bs" using assms(1,2) by (auto intro: valid_canonical)
  have "int_ok (amt as d + amt (Coins_negative bs) d)" for d
    using assms ca by (simp add: int_ok_diff valid_amt_nonneg fits_amt)
  then obtain diff where "Coins_safeAdd M as (Coins_negative bs) = Inr diff"
    using safeAdd_total [of as "Coins_negative bs"] ca assms(3,4) by auto
  with assms(2) show ?thesis by (intro that) (simp add: Coins_SafeSub_def)
qed

lemma Sub_spec:
  assumes "Coins_IsValid as" and "Coins_IsValid bs" and "Coins_Sub M as bs = Inr r"
  shows "Coins_IsValid r" and "amt r d = amt as d - amt bs d"
proof -
  obtain neg where s: "Coins_SafeSub M as bs = Inr (r, neg)" and n: "\<not> neg"
    using assms(3) by (auto simp: Coins_Sub_def bindR_eq_Inr split: if_splits)
  note sp = SafeSub_spec [OF valid_canonical [OF assms(1)] assms(2) s]
  show "amt r d = amt as d - amt bs d" by (rule sp)
  have le: "amt bs d \<le> amt as d" for d using sp(3) n by (metis not_less)
  have ge: "0 \<le> amt bs d" for d using assms(2) by (rule valid_amt_nonneg)
  show "Coins_IsValid r"
  proof (rule canonical_valid [OF sp(1)])
    fix d assume "amt r d \<noteq> 0"
    then have "0 < amt r d" "amt as d \<noteq> 0" using sp(2) [of d] le [of d] ge [of d] by auto
    then show "reDnm_MatchString d \<and> 0 < amt r d" using valid_denom [OF assms(1)] by blast
  qed
qed

lemma Sub_total:
  assumes "Coins_IsValid as" and "Coins_IsValid bs" and "fits as" and "fits bs"
    and "\<And>d. amt bs d \<le> amt as d"
  obtains r where "Coins_Sub M as bs = Inr r"
proof -
  obtain diff neg where s: "Coins_SafeSub M as bs = Inr (diff, neg)"
    using SafeSub_total [OF assms(1-4)] .
  have "\<not> neg" using SafeSub_spec(3) [OF valid_canonical [OF assms(1)] assms(2) s] assms(5)
    by (meson not_less)
  with s show ?thesis by (intro that) (simp add: Coins_Sub_def)
qed

end

section \<open>Maximum and minimum\<close>

lemma all_denoms: "(\<forall>c \<in> set cs. P (Denom c)) \<longleftrightarrow> (\<forall>e \<in> Denom ` set cs. P e)"
  by simp

lemma Max_loop_denoms: "Denom ` set (Max_loop as bs) = Denom ` set as \<union> Denom ` set bs"
  by (induction as bs rule: Max_loop.induct) auto

lemma Max_loop_sorted:
  "strict_sorted_by Denom as \<Longrightarrow> strict_sorted_by Denom bs \<Longrightarrow> strict_sorted_by Denom (Max_loop as bs)"
proof (induction as bs rule: Max_loop.induct)
  case (1 a as b bs)
  have *: "(\<forall>c \<in> set (Max_loop xs ys). d < Denom c) \<longleftrightarrow>
      (\<forall>c \<in> set xs. d < Denom c) \<and> (\<forall>c \<in> set ys. d < Denom c)" for d xs ys
    using all_denoms [of "Max_loop xs ys" "\<lambda>e. d < e"] unfolding Max_loop_denoms by auto
  from 1 show ?case by (auto simp: *)
qed auto

lemma Max_loop_amt:
  assumes "strict_sorted_by Denom as" and "strict_sorted_by Denom bs"
    and "\<forall>c \<in> set as \<union> set bs. 0 \<le> Amount c"
  shows "amt (Max_loop as bs) d = max (amt as d) (amt bs d)"
  using assms
proof (induction as bs rule: Max_loop.induct)
  case (1 a as b bs)
  have na: "amt as (Denom a) = 0" and nb: "amt bs (Denom b) = 0"
    using "1.prems"(1,2) by (auto intro!: amt_notin)
  have ab: "amt (b # bs) (Denom a) = 0" if "Denom a < Denom b"
    using "1.prems"(2) that by (intro amt_notin) auto
  have ba: "amt (a # as) (Denom b) = 0" if "Denom b < Denom a"
    using "1.prems"(1) that by (intro amt_notin) auto
  consider "Denom a < Denom b" | "Denom a = Denom b" | "Denom b < Denom a" by fastforce
  then show ?case
  proof cases
    case 1
    with "1.IH"(1) "1.prems" na ab show ?thesis by (cases "Denom a = d") auto
  next
    case 2
    with "1.IH"(2) "1.prems" na nb show ?thesis by (cases "Denom a = d") auto
  next
    case 3
    then have *: "\<not> Denom a < Denom b" "Denom a \<noteq> Denom b" by auto
    with "1.IH"(3) "1.prems" nb ba 3 show ?thesis by (cases "Denom b = d") auto
  qed
next
  case (2 as)
  then have "0 \<le> amt as d" unfolding amt_def by (intro sum_list_nonneg) auto
  then show ?case by simp
next
  case (3 v va)
  then have "0 \<le> amt (v # va) d" unfolding amt_def by (intro sum_list_nonneg) auto
  then show ?case by simp
qed

lemma Min_loop_denoms: "c \<in> set (Min_loop as bs) \<Longrightarrow> Denom c \<in> Denom ` set as"
  by (induction as bs rule: Min_loop.induct) (auto simp: Let_def split: if_splits)

lemma Min_loop_nonzero: "c \<in> set (Min_loop as bs) \<Longrightarrow> Amount c \<noteq> 0"
  by (induction as bs rule: Min_loop.induct) (auto simp: Let_def Coin_IsZero_def split: if_splits)

lemma Min_loop_above:
  assumes "\<forall>c \<in> set as. d < Denom c"
  shows "\<forall>c \<in> set (Min_loop as bs). d < Denom c"
proof
  fix c assume "c \<in> set (Min_loop as bs)"
  then have "Denom c \<in> Denom ` set as" by (rule Min_loop_denoms)
  with assms show "d < Denom c" by auto
qed

lemma Min_loop_sorted:
  "strict_sorted_by Denom as \<Longrightarrow> strict_sorted_by Denom bs \<Longrightarrow> strict_sorted_by Denom (Min_loop as bs)"
  by (induction as bs rule: Min_loop.induct) (auto simp: Let_def Min_loop_above)

lemma Min_loop_amt:
  assumes "strict_sorted_by Denom as" and "strict_sorted_by Denom bs"
    and "\<forall>c \<in> set as \<union> set bs. 0 \<le> Amount c"
  shows "amt (Min_loop as bs) d = min (amt as d) (amt bs d)"
  using assms
proof (induction as bs rule: Min_loop.induct)
  case (1 a as b bs)
  have na: "amt as (Denom a) = 0" and nb: "amt bs (Denom b) = 0"
    using "1.prems"(1,2) by (auto intro!: amt_notin)
  have ab: "amt (b # bs) (Denom a) = 0" if "Denom a < Denom b"
    using "1.prems"(2) that by (intro amt_notin) auto
  have ba: "amt (a # as) (Denom b) = 0" if "Denom b < Denom a"
    using "1.prems"(1) that by (intro amt_notin) auto
  consider "Denom a < Denom b" | "Denom a = Denom b" | "Denom b < Denom a" by fastforce
  then show ?case
  proof cases
    case 1
    with "1.IH"(1) "1.prems" na ab show ?thesis by (cases "Denom a = d") auto
  next
    case 2
    with "1.IH"(2,3) "1.prems" na nb show ?thesis
      by (cases "Denom a = d") (auto simp: Let_def Coin_IsZero_def)
  next
    case 3
    then have *: "\<not> Denom a < Denom b" "Denom a \<noteq> Denom b" by auto
    with "1.IH"(4) "1.prems" nb ba 3 show ?thesis by (cases "Denom b = d") auto
  qed
next
  case (2 as)
  then have "0 \<le> amt as d" unfolding amt_def by (intro sum_list_nonneg) auto
  then show ?case by simp
next
  case (3 v va)
  then have "0 \<le> amt (v # va) d" unfolding amt_def by (intro sum_list_nonneg) auto
  then show ?case by simp
qed

lemma valid_parts:
  assumes "Coins_IsValid cs"
  shows "strict_sorted_by Denom cs" and "\<forall>c \<in> set cs. 0 \<le> Amount c"
    and "\<And>c. c \<in> set cs \<Longrightarrow> reDnm_MatchString (Denom c)" and "\<And>c. c \<in> set cs \<Longrightarrow> 0 < Amount c"
  using assms by (auto simp: Coins_IsValid_alt intro: less_imp_le)

lemma Coins_Max_spec:
  assumes "Coins_IsValid as" and "Coins_IsValid bs"
  obtains r where "Coins_Max as bs = Inr r" and "Coins_IsValid r"
    and "\<And>d. amt r d = max (amt as d) (amt bs d)"
proof -
  let ?r = "Max_loop as bs"
  have a: "amt ?r d = max (amt as d) (amt bs d)" for d
    using assms by (intro Max_loop_amt) (auto dest: valid_parts)
  have pos: "\<forall>c \<in> set ?r. 0 < Amount c"
    using assms by (induction as bs rule: Max_loop.induct) (auto simp: Coins_IsValid_alt)
  have "canonical ?r" using assms pos
    by (auto simp: canonical_def intro!: Max_loop_sorted dest: valid_parts)
  moreover have "reDnm_MatchString d \<and> 0 < amt ?r d" if "amt ?r d \<noteq> 0" for d
  proof -
    have "amt as d \<noteq> 0 \<or> amt bs d \<noteq> 0" using that a by (auto simp: max_def)
    then have "reDnm_MatchString d" using assms by (auto dest: valid_denom)
    moreover have "0 \<le> amt ?r d" using a valid_amt_nonneg [OF assms(1), of d] by (simp add: max_def)
    ultimately show ?thesis using that by simp
  qed
  ultimately have "Coins_IsValid ?r" by (rule canonical_valid)
  then show ?thesis by (intro that [of ?r]) (simp_all add: Coins_Max_def a)
qed

lemma Coins_Min_spec:
  assumes "Coins_IsValid as" and "Coins_IsValid bs"
  obtains r where "Coins_Min as bs = Inr r" and "Coins_IsValid r"
    and "\<And>d. amt r d = min (amt as d) (amt bs d)"
proof -
  let ?r = "Min_loop as bs"
  have a: "amt ?r d = min (amt as d) (amt bs d)" for d
    using assms by (intro Min_loop_amt) (auto dest: valid_parts)
  have nz: "\<forall>c \<in> set ?r. Amount c \<noteq> 0"
    by (auto dest: Min_loop_nonzero)
  have "canonical ?r" using assms nz
    by (auto simp: canonical_def intro!: Min_loop_sorted dest: valid_parts)
  moreover have "reDnm_MatchString d \<and> 0 < amt ?r d" if "amt ?r d \<noteq> 0" for d
  proof -
    have "amt as d \<noteq> 0" using that a valid_amt_nonneg [OF assms(2), of d]
      valid_amt_nonneg [OF assms(1), of d] by (auto simp: min_def split: if_splits)
    then have "reDnm_MatchString d" using assms by (auto dest: valid_denom)
    moreover have "0 \<le> amt ?r d" using a valid_amt_nonneg [OF assms(1), of d]
      valid_amt_nonneg [OF assms(2), of d] by (simp add: min_def)
    ultimately show ?thesis using that by simp
  qed
  ultimately have "Coins_IsValid ?r" by (rule canonical_valid)
  then show ?thesis by (intro that [of ?r]) (simp_all add: Coins_Min_def a)
qed

section \<open>Comparison\<close>

lemma IsAllGTE_loop_eq:
  assumes "canonical cs" and "\<forall>b \<in> set bs. reDnm_MatchString (Denom b)"
  shows "IsAllGTE_loop cs bs = Inr (\<forall>b \<in> set bs. Amount b \<le> amt cs (Denom b))"
  using assms(2) by (induction bs) (auto simp: Coins_AmountOf_eq [OF assms(1)])

lemma pointwise_le_iff:
  assumes "Coins_IsValid bs" and "Coins_IsValid cs"
  shows "(\<forall>b \<in> set bs. Amount b \<le> amt cs (Denom b)) \<longleftrightarrow> (\<forall>d. amt bs d \<le> amt cs d)"
proof
  assume l: "\<forall>b \<in> set bs. Amount b \<le> amt cs (Denom b)"
  show "\<forall>d. amt bs d \<le> amt cs d"
  proof
    fix d
    show "amt bs d \<le> amt cs d"
    proof (cases "d \<in> Denom ` set bs")
      case True
      then obtain b where "b \<in> set bs" "d = Denom b" by blast
      with l show ?thesis using amt_in [OF canonicalD(2) [OF valid_canonical [OF assms(1)]]] by simp
    next
      case False
      then show ?thesis using valid_amt_nonneg [OF assms(2)] by (simp add: amt_notin)
    qed
  qed
next
  assume "\<forall>d. amt bs d \<le> amt cs d"
  then show "\<forall>b \<in> set bs. Amount b \<le> amt cs (Denom b)"
    using amt_in [OF canonicalD(2) [OF valid_canonical [OF assms(1)]]] by metis
qed

lemma IsAllGTE_valid:
  assumes "Coins_IsValid cs" and "Coins_IsValid bs"
  shows "Coins_IsAllGTE cs bs = Inr (\<forall>d. amt bs d \<le> amt cs d)"
proof -
  have loop: "IsAllGTE_loop cs bs = Inr (\<forall>d. amt bs d \<le> amt cs d)"
    using IsAllGTE_loop_eq [OF valid_canonical [OF assms(1)], of bs] valid_parts(3) [OF assms(2)]
    by (simp add: pointwise_le_iff [OF assms(2,1)])
  show ?thesis
  proof (cases "bs = [] \<or> cs = []")
    case True
    then show ?thesis
    proof (cases "bs = []")
      case True
      then show ?thesis using valid_amt_nonneg [OF assms(1)] by (simp add: Coins_IsAllGTE_def)
    next
      case False
      then obtain b where "b \<in> set bs" by (cases bs) auto
      then have "0 < amt bs (Denom b)"
        using amt_in [OF canonicalD(2) [OF valid_canonical [OF assms(2)]]] valid_parts(4) [OF assms(2)]
        by simp
      with True False show ?thesis by (auto simp: Coins_IsAllGTE_def not_le)
    qed
  qed (simp add: Coins_IsAllGTE_def loop)
qed

section \<open>Bulk addition\<close>

definition at0 :: "map_coins \<Rightarrow> string \<Rightarrow> int" where
  "at0 m d = (case m d of None \<Rightarrow> 0 | Some a \<Rightarrow> a)"

lemma at0_upd [simp]: "at0 (m(k \<mapsto> v)) d = (if d = k then v else at0 m d)" "at0 Map.empty d = 0"
  by (simp_all add: at0_def)

lemma ToCoins_loop_eq:
  assumes "\<And>d. d \<in> set ds \<Longrightarrow> at0 m d \<noteq> 0 \<Longrightarrow> reDnm_MatchString d \<and> 0 \<le> at0 m d"
  shows "ToCoins_loop m ds = Inr (map (\<lambda>d. \<lparr>Denom = d, Amount = at0 m d\<rparr>) (filter (\<lambda>d. at0 m d \<noteq> 0) ds))"
  using assms
proof (induction ds)
  case (Cons d ds)
  then have IH: "ToCoins_loop m ds = Inr (map (\<lambda>d. \<lparr>Denom = d, Amount = at0 m d\<rparr>) (filter (\<lambda>d. at0 m d \<noteq> 0) ds))"
    by simp
  show ?case
  proof (cases "at0 m d = 0")
    case True
    then show ?thesis by (cases "m d") (simp_all add: IH at0_def [of m d])
  next
    case False
    then obtain a where a: "m d = Some a" "at0 m d = a" by (auto simp: at0_def split: option.splits)
    with False Cons.prems [of d] show ?thesis by (simp add: IH)
  qed
qed simp

lemma ToCoins_eq:
  assumes "\<And>d. d \<in> set ds \<Longrightarrow> at0 m d \<noteq> 0 \<Longrightarrow> reDnm_MatchString d \<and> 0 \<le> at0 m d"
  shows "MapCoins_ToCoins m ds = Inr (coins_of (at0 m) ds)"
  using ToCoins_loop_eq [OF assms] by (simp add: MapCoins_ToCoins_def Coins_Sort_eq coins_of_def)

context sdk_math
begin

lemma MapCoins_Add_Inr:
  assumes "MapCoins_Add M m cs = Inr m'"
  shows "at0 m' d = at0 m d + amt cs d" and "dom m' = dom m \<union> Denom ` set cs"
  using assms
proof (induction cs arbitrary: m)
  case (Cons c cs)
  have "MapCoins_Add M (m(Denom c \<mapsto> at0 m (Denom c) + Amount c)) cs = Inr m'"
    if "MapCoins_Add M m (c # cs) = Inr m'" for m
    using that by (cases "m (Denom c)") (auto simp: bindR_eq_Inr int_Add_Inr at0_def)
  note step = this
  {
    case 1
    from Cons.IH(1) [OF step [OF 1]] show ?case by (simp add: at0_def split: if_splits)
  next
    case 2
    from Cons.IH(2) [OF step [OF 2]] show ?case by auto
  }
qed simp_all

lemma bulk_Add_Inr:
  assumes "foldR (\<lambda>cs m. MapCoins_Add M m cs) css m = Inr m'"
  shows "at0 m' d = at0 m d + (\<Sum>cs\<leftarrow>css. amt cs d)"
    and "dom m' = dom m \<union> (\<Union>cs \<in> set css. Denom ` set cs)"
  using assms
proof (induction css arbitrary: m)
  case (Cons cs css)
  {
    case 1
    then obtain m1 where "MapCoins_Add M m cs = Inr m1" "foldR (\<lambda>cs m. MapCoins_Add M m cs) css m1 = Inr m'"
      by (auto simp: bindR_eq_Inr)
    with Cons.IH(1) [of m1] show ?case by (simp add: MapCoins_Add_Inr)
  next
    case 2
    then obtain m1 where "MapCoins_Add M m cs = Inr m1" "foldR (\<lambda>cs m. MapCoins_Add M m cs) css m1 = Inr m'"
      by (auto simp: bindR_eq_Inr)
    with Cons.IH(2) [of m1] show ?case by (auto simp: MapCoins_Add_Inr)
  }
qed simp_all

lemma repeated_Add_Inr:
  assumes "foldR (\<lambda>cs acc. Coins_Add M acc cs) css a = Inr r" and "Coins_IsValid a"
    and "\<And>cs. cs \<in> set css \<Longrightarrow> Coins_IsValid cs"
  shows "Coins_IsValid r" and "amt r d = amt a d + (\<Sum>cs\<leftarrow>css. amt cs d)"
  using assms
proof (induction css arbitrary: a)
  case (Cons cs css)
  {
    case 1
    then obtain a1 where "Coins_Add M a cs = Inr a1" "foldR (\<lambda>cs acc. Coins_Add M acc cs) css a1 = Inr r"
      by (auto simp: bindR_eq_Inr)
    with 1 Cons.IH(1) [of a1] show ?case by (auto intro: Add_valid)
  next
    case 2
    then obtain a1 where a1: "Coins_Add M a cs = Inr a1" "foldR (\<lambda>cs acc. Coins_Add M acc cs) css a1 = Inr r"
      by (auto simp: bindR_eq_Inr)
    have "amt a1 d = amt a d + amt cs d" using a1(1) unfolding Coins_Add_def by (rule safeAdd_Inr)
    moreover have "Coins_IsValid a1" using a1(1) 2 by (auto intro: Add_valid)
    ultimately show ?case using 2 a1(2) Cons.IH(2) [of a1] by simp
  }
qed simp_all

lemma bulk_ToCoins:
  assumes "foldR (\<lambda>cs m. MapCoins_Add M m cs) css Map.empty = Inr m"
    and "\<And>cs. cs \<in> set css \<Longrightarrow> Coins_IsValid cs" and "distinct ds" and "set ds = dom m"
  obtains r where "MapCoins_ToCoins m ds = Inr r" and "Coins_IsValid r"
    and "\<And>d. amt r d = (\<Sum>cs\<leftarrow>css. amt cs d)"
proof -
  have v: "at0 m d = (\<Sum>cs\<leftarrow>css. amt cs d)" for d
    using bulk_Add_Inr(1) [OF assms(1)] by simp
  have ok: "reDnm_MatchString d \<and> 0 < at0 m d" if "at0 m d \<noteq> 0" for d
  proof -
    have "\<exists>cs \<in> set css. amt cs d \<noteq> 0"
      using that unfolding v by (metis (no_types, lifting) map_eq_conv sum_list_0)
    then have "reDnm_MatchString d" using assms(2) by (auto dest: valid_denom)
    moreover have "0 \<le> at0 m d"
      unfolding v using assms(2) by (intro sum_list_nonneg) (auto dest: valid_amt_nonneg)
    ultimately show ?thesis using that by simp
  qed
  let ?r = "coins_of (at0 m) ds"
  have "MapCoins_ToCoins m ds = Inr ?r" using ok by (intro ToCoins_eq) (simp add: less_imp_le)
  moreover have a: "amt ?r d = at0 m d" for d
    using assms(3,4) by (intro coins_of_amt) (auto simp: at0_def domIff split: option.splits)
  moreover have "Coins_IsValid ?r"
    using coins_of_canonical [OF assms(3)] ok by (intro canonical_valid) (auto simp: a)
  ultimately show ?thesis using that v by auto
qed

end

section \<open>Scalar operations\<close>

lemma scale_amt:
  assumes "f 0 = 0"
  shows "distinct (map Denom cs) \<Longrightarrow>
    amt (map (\<lambda>c. \<lparr>Denom = Denom c, Amount = f (Amount c)\<rparr>) cs) d = f (amt cs d)"
proof (induction cs)
  case (Cons c cs)
  then show ?case using assms by (auto simp: amt_notin)
qed (simp add: assms)

lemma scale_valid:
  assumes "Coins_IsValid cs"
  shows "Coins_IsValid (map (\<lambda>c. \<lparr>Denom = Denom c, Amount = f (Amount c)\<rparr>) cs) \<longleftrightarrow>
    (\<forall>c \<in> set cs. 0 < f (Amount c))"
  using assms by (auto simp: Coins_IsValid_alt comp_def)

context sdk_math
begin

lemma MulInt_Inr:
  assumes "Coins_MulInt M cs x = Inr r"
  shows "r = map (\<lambda>c. \<lparr>Denom = Denom c, Amount = Amount c * x\<rparr>) cs"
proof -
  have "mapR (\<lambda>c. bindR (int_Mul M (Amount c) x) (\<lambda>a. NewCoin (Denom c) a)) cs = Inr r"
    using assms by (auto simp: Coins_MulInt_def Coins_SafeMulInt_def bindR_eq_Inr split: if_splits)
  then show ?thesis
    by (rule mapR_Inr_map) (auto simp: bindR_eq_Inr NewCoin_Inr int_Mul_Inr)
qed

lemma QuoInt_Inr:
  assumes "Coins_QuoInt M cs x = Inr r"
  shows "r = map (\<lambda>c. \<lparr>Denom = Denom c, Amount = Amount c sdiv x\<rparr>) cs"
proof -
  have "mapR (\<lambda>c. bindR (int_Quo M (Amount c) x) (\<lambda>a. NewCoin (Denom c) a)) cs = Inr r"
    using assms by (auto simp: Coins_QuoInt_def Coins_SafeQuoInt_def bindR_eq_Inr split: if_splits)
  then show ?thesis
    by (rule mapR_Inr_map) (auto simp: bindR_eq_Inr NewCoin_Inr dest!: int_Quo_Inr)
qed

end

lemma Coins_Equal_refl: "Coins_Equal cs cs"
  by (simp add: Coins_Equal_def list_all2_same)

section \<open>Properties\<close>

definition ex_wallet :: coins where
  "ex_wallet = [\<lparr>Denom = ''atone'', Amount = 5\<rparr>, \<lparr>Denom = ''photon'', Amount = 3\<rparr>]"

definition ex_fee :: coins where
  "ex_fee = [\<lparr>Denom = ''photon'', Amount = 2\<rparr>]"

lemma ex_coins_valid: "Coins_IsValid ex_wallet" "Coins_IsValid ex_fee" "fits ex_wallet" "fits ex_fee"
  by code_simp+

lemma ex_coins_sum: "int_ok (amt ex_wallet d + amt ex_fee d)"
  by (simp add: ex_wallet_def ex_fee_def int_ok_def)

text \<open>C19: \<^verbatim>\<open>Coins.Add\<close> on valid slices, as long as the totals fit in an \<^verbatim>\<open>Int\<close>, returns a valid
  slice (sorted, no duplicates, positive amounts, valid denominations) that holds of every
  denomination the sum of what the two arguments hold.\<close>

theorem Coins_Add_correct:
  assumes "sdk_math M" and "Coins_IsValid as" and "Coins_IsValid bs" and "fits as" and "fits bs"
    and "\<And>d. int_ok (amt as d + amt bs d)"
  shows "\<exists>r. Coins_Add M as bs = Inr r \<and> Coins_IsValid r \<and> (\<forall>d. amt r d = amt as d + amt bs d)"
proof -
  obtain r where r: "Coins_safeAdd M as bs = Inr r"
    using sdk_math.safeAdd_total [OF assms(1) _ _ assms(4-6)] assms(2,3) by (auto dest: valid_canonical)
  then show ?thesis
    using sdk_math.safeAdd_Inr(2) [OF assms(1) r] sdk_math.Add_valid [OF assms(1-3)]
    by (auto simp: Coins_Add_def)
qed

theorem Coins_Add_correct_witness:
  "\<exists>r. Coins_Add ref_math ex_wallet ex_fee = Inr r \<and> Coins_IsValid r \<and>
     (\<forall>d. amt r d = amt ex_wallet d + amt ex_fee d)"
  by (rule Coins_Add_correct [OF ref_math_laws ex_coins_valid ex_coins_sum])

text \<open>C21: the result of \<^verbatim>\<open>safeAdd\<close> does not depend on the order in which Go's map iteration
  delivers the denominations: any two enumerations of the map's keys give the same slice,
  whatever the (sorted or unsorted) arguments.\<close>

theorem safeAdd_order_independent:
  assumes "sdk_math M" and "distinct ds" and "distinct es" and "set ds = set es"
  shows "Coins_safeAdd_in M ds as bs = Inr r \<longleftrightarrow> Coins_safeAdd_in M es as bs = Inr r"
  using sdk_math.safeAdd_in_perm [OF assms] sdk_math.safeAdd_in_perm [OF assms(1,3,2)] assms(4)
  by blast

theorem safeAdd_order_independent_witness:
  "Coins_safeAdd_in ref_math [''photon'', ''atone''] ex_wallet ex_fee =
     Inr [\<lparr>Denom = ''atone'', Amount = 5\<rparr>, \<lparr>Denom = ''photon'', Amount = 5\<rparr>]"
proof -
  have "Coins_safeAdd_in ref_math [''atone'', ''photon''] ex_wallet ex_fee =
     Inr [\<lparr>Denom = ''atone'', Amount = 5\<rparr>, \<lparr>Denom = ''photon'', Amount = 5\<rparr>]"
    by code_simp
  then show ?thesis
    by (subst safeAdd_order_independent [OF ref_math_laws, of _ "[''atone'', ''photon'']"]) auto
qed

text \<open>C20: \<^verbatim>\<open>SafeSub\<close> on valid slices never panics, its slice holds the pointwise difference, and
  its flag says exactly whether some denomination would go negative.\<close>

theorem Coins_SafeSub_correct:
  assumes "sdk_math M" and "Coins_IsValid as" and "Coins_IsValid bs" and "fits as" and "fits bs"
  shows "\<exists>diff neg. Coins_SafeSub M as bs = Inr (diff, neg) \<and> canonical diff \<and>
    (\<forall>d. amt diff d = amt as d - amt bs d) \<and> (neg \<longleftrightarrow> (\<exists>d. amt as d < amt bs d))"
proof -
  obtain diff neg where s: "Coins_SafeSub M as bs = Inr (diff, neg)"
    using sdk_math.SafeSub_total [OF assms] .
  show ?thesis
    using sdk_math.SafeSub_spec [OF assms(1) valid_canonical [OF assms(2)] assms(3) s] s by blast
qed

theorem Coins_SafeSub_correct_witness:
  "\<exists>diff neg. Coins_SafeSub ref_math ex_fee ex_wallet = Inr (diff, neg) \<and> canonical diff \<and>
    (\<forall>d. amt diff d = amt ex_fee d - amt ex_wallet d) \<and> (neg \<longleftrightarrow> (\<exists>d. amt ex_fee d < amt ex_wallet d))"
  by (rule Coins_SafeSub_correct [OF ref_math_laws ex_coins_valid(2,1,4,3)])

text \<open>C26: subtracting what was added gives back the original slice, coin for coin.\<close>

theorem Coins_Add_Sub_roundtrip:
  assumes "sdk_math M" and "Coins_IsValid as" and "Coins_IsValid bs" and "fits as" and "fits bs"
    and "Coins_Add M as bs = Inr r" and "fits r"
  shows "Coins_Sub M r bs = Inr as"
proof -
  have rv: "Coins_IsValid r" using assms(6) by (rule sdk_math.Add_valid [OF assms(1-3)])
  have ra: "amt r d = amt as d + amt bs d" for d
    using assms(6) unfolding Coins_Add_def by (rule sdk_math.safeAdd_Inr [OF assms(1)])
  obtain q where q: "Coins_Sub M r bs = Inr q"
    using sdk_math.Sub_total [OF assms(1) rv assms(3,7,5)] valid_amt_nonneg [OF assms(2)] by (auto simp: ra)
  note qs = sdk_math.Sub_spec [OF assms(1) rv assms(3) q]
  have "q = as" using qs assms(2) by (intro canonical_unique) (auto simp: ra intro: valid_canonical)
  with q show ?thesis by simp
qed

theorem Coins_Add_Sub_roundtrip_witness:
  "Coins_Sub ref_math [\<lparr>Denom = ''atone'', Amount = 5\<rparr>, \<lparr>Denom = ''photon'', Amount = 5\<rparr>] ex_fee = Inr ex_wallet"
  by (rule Coins_Add_Sub_roundtrip [OF ref_math_laws ex_coins_valid]) code_simp+

text \<open>C24: the binary search \<^verbatim>\<open>Find\<close> on a valid slice finds the coin of a denomination exactly
  when the slice has one.\<close>

theorem Coins_Find_correct:
  assumes "Coins_IsValid cs"
  shows "Coins_Find cs d = Some c \<longleftrightarrow> c \<in> set cs \<and> Denom c = d"
proof -
  have dist: "distinct (map Denom cs)" using assms by (simp add: canonicalD valid_canonical)
  have "find (\<lambda>c. Denom c = d) cs = Some c \<longleftrightarrow> c \<in> set cs \<and> Denom c = d"
    using dist by (induction cs) (auto simp: image_iff)
  with Find_strict [OF valid_parts(1) [OF assms]] show ?thesis by simp
qed

theorem Coins_Find_correct_witness:
  "Coins_Find ex_wallet ''photon'' = Some \<lparr>Denom = ''photon'', Amount = 3\<rparr>"
  by (simp add: Coins_Find_correct [OF ex_coins_valid(1)]) (simp add: ex_wallet_def)

text \<open>C23: \<^verbatim>\<open>Coins.Validate\<close> accepts a slice exactly when its denominations are strictly increasing
  and valid and its amounts positive.\<close>

theorem Coins_Validate_iff:
  "Coins_Validate cs = Inr () \<longleftrightarrow> sorted_wrt (<) (map Denom cs) \<and>
     list_all (\<lambda>c. reDnm_MatchString (Denom c) \<and> 0 < Amount c) cs"
  by (simp add: Coins_Validate_ok list_all_iff)

text \<open>C27: \<^verbatim>\<open>Max\<close> and \<^verbatim>\<open>Min\<close> on valid slices return valid slices with the pointwise maximum and
  minimum, and the law of the comment holds: \<open>a + b = min(a,b) + max(a,b)\<close>, as slices.\<close>

theorem Coins_Max_Min_correct:
  assumes "sdk_math M" and "Coins_IsValid as" and "Coins_IsValid bs"
  shows "\<exists>mx mn. Coins_Max as bs = Inr mx \<and> Coins_Min as bs = Inr mn \<and>
    Coins_IsValid mx \<and> Coins_IsValid mn \<and>
    (\<forall>d. amt mx d = max (amt as d) (amt bs d) \<and> amt mn d = min (amt as d) (amt bs d)) \<and>
    (\<forall>s t. Coins_Add M as bs = Inr s \<and> Coins_Add M mn mx = Inr t \<longrightarrow> Coins_Equal s t)"
proof -
  obtain mx where mx: "Coins_Max as bs = Inr mx" "Coins_IsValid mx" "\<And>d. amt mx d = max (amt as d) (amt bs d)"
    using Coins_Max_spec [OF assms(2,3)] by blast
  obtain mn where mn: "Coins_Min as bs = Inr mn" "Coins_IsValid mn" "\<And>d. amt mn d = min (amt as d) (amt bs d)"
    using Coins_Min_spec [OF assms(2,3)] by blast
  have "s = t" if s: "Coins_Add M as bs = Inr s" and t: "Coins_Add M mn mx = Inr t" for s t
  proof (rule canonical_unique)
    note cs = sdk_math.safeAdd_Inr [OF assms(1) s [unfolded Coins_Add_def]]
      and ct = sdk_math.safeAdd_Inr [OF assms(1) t [unfolded Coins_Add_def]]
    show "canonical s" "canonical t" by (rule cs ct)+
    show "amt s d = amt t d" for d by (simp add: cs ct mx(3) mn(3) min_def max_def)
  qed
  then have "\<forall>s t. Coins_Add M as bs = Inr s \<and> Coins_Add M mn mx = Inr t \<longrightarrow> Coins_Equal s t"
    by (metis Coins_Equal_refl)
  with mx mn show ?thesis by blast
qed

theorem Coins_Max_Min_correct_witness:
  "\<exists>mx mn. Coins_Max ex_wallet ex_fee = Inr mx \<and> Coins_Min ex_wallet ex_fee = Inr mn \<and>
    Coins_IsValid mx \<and> Coins_IsValid mn \<and>
    (\<forall>d. amt mx d = max (amt ex_wallet d) (amt ex_fee d) \<and> amt mn d = min (amt ex_wallet d) (amt ex_fee d)) \<and>
    (\<forall>s t. Coins_Add ref_math ex_wallet ex_fee = Inr s \<and> Coins_Add ref_math mn mx = Inr t \<longrightarrow> Coins_Equal s t)"
  by (rule Coins_Max_Min_correct [OF ref_math_laws ex_coins_valid(1,2)])

text \<open>C25: \<^verbatim>\<open>IsAllGTE\<close> on valid slices is the pointwise order, and \<^verbatim>\<open>Equal\<close> is equality of what the
  slices hold.\<close>

theorem Coins_order_correct:
  assumes "Coins_IsValid as" and "Coins_IsValid bs"
  shows "Coins_IsAllGTE as bs = Inr (\<forall>d. amt bs d \<le> amt as d) \<and>
    (Coins_Equal as bs \<longleftrightarrow> (\<forall>d. amt as d = amt bs d))"
proof -
  have srt: "Coins_Sort as = as" "Coins_Sort bs = bs"
    using assms by (auto simp: Coins_Sort_eq intro!: sort_key_id canonical_sorted dest: valid_canonical)
  have "Coins_Equal as bs \<longleftrightarrow> as = bs"
    by (auto simp: Coins_Equal_def srt list_all2_same list_eq_iff_nth_eq list_all2_conv_all_nth)
  also have "\<dots> \<longleftrightarrow> (\<forall>d. amt as d = amt bs d)"
    using assms by (metis canonical_unique valid_canonical)
  finally show ?thesis using IsAllGTE_valid [OF assms] by simp
qed

theorem Coins_order_correct_witness:
  "Coins_IsAllGTE ex_wallet ex_fee = Inr (\<forall>d. amt ex_fee d \<le> amt ex_wallet d) \<and>
   (Coins_Equal ex_wallet ex_fee \<longleftrightarrow> (\<forall>d. amt ex_wallet d = amt ex_fee d))"
  using Coins_order_correct [OF ex_coins_valid(1,2)] by blast

text \<open>C22: the linear bulk addition through \<^verbatim>\<open>MapCoins\<close> (add every slice into the map, convert
  once, in whatever order the map is ranged over) gives the same slice as adding the valid
  slices one after the other with \<^verbatim>\<open>Coins.Add\<close>.\<close>

theorem MapCoins_equals_repeated_Add:
  assumes "sdk_math M" and "\<And>cs. cs \<in> set css \<Longrightarrow> Coins_IsValid cs"
    and "foldR (\<lambda>cs m. MapCoins_Add M m cs) css Map.empty = Inr m"
    and "distinct order" and "set order = dom m"
    and "foldR (\<lambda>cs acc. Coins_Add M acc cs) css [] = Inr r"
  shows "MapCoins_ToCoins m order = Inr r"
proof -
  obtain q where q: "MapCoins_ToCoins m order = Inr q" "Coins_IsValid q" "\<And>d. amt q d = (\<Sum>cs\<leftarrow>css. amt cs d)"
    using sdk_math.bulk_ToCoins [OF assms(1,3,2,4,5)] by blast
  have e: "Coins_IsValid []" by code_simp
  note rr = sdk_math.repeated_Add_Inr [OF assms(1,6) e assms(2)]
  have "q = r" using q rr by (intro canonical_unique) (auto dest: valid_canonical)
  with q show ?thesis by simp
qed

theorem MapCoins_equals_repeated_Add_witness:
  "MapCoins_ToCoins (Map.empty(''photon'' \<mapsto> 5, ''atone'' \<mapsto> 5)) [''photon'', ''atone''] =
     Inr [\<lparr>Denom = ''atone'', Amount = 5\<rparr>, \<lparr>Denom = ''photon'', Amount = 5\<rparr>]"
proof (rule MapCoins_equals_repeated_Add [OF ref_math_laws, of "[ex_fee, ex_wallet]"])
  show "foldR (\<lambda>cs m. MapCoins_Add ref_math m cs) [ex_fee, ex_wallet] Map.empty =
      Inr (Map.empty(''photon'' \<mapsto> 5, ''atone'' \<mapsto> 5))"
    by (simp add: ex_fee_def ex_wallet_def ref_math_def checked_def fun_upd_twist)
  show "foldR (\<lambda>cs acc. Coins_Add ref_math acc cs) [ex_fee, ex_wallet] [] =
      Inr [\<lparr>Denom = ''atone'', Amount = 5\<rparr>, \<lparr>Denom = ''photon'', Amount = 5\<rparr>]"
    by code_simp
qed (use ex_coins_valid in auto)

text \<open>C28: \<^verbatim>\<open>MulInt\<close> by a positive factor keeps a slice valid and multiplies what it holds, and
  \<^verbatim>\<open>QuoInt\<close> by a positive divisor divides it (rounding down); the quotient is valid exactly when
  no amount is below the divisor. Both panic at zero.\<close>

theorem Coins_scalar_correct:
  assumes "sdk_math M" and "Coins_IsValid cs" and "0 < x"
    and "Coins_MulInt M cs x = Inr r" and "Coins_QuoInt M cs x = Inr q"
  shows "Coins_IsValid r \<and> (\<forall>d. amt r d = amt cs d * x \<and> amt q d = amt cs d div x) \<and>
    (Coins_IsValid q \<longleftrightarrow> (\<forall>c \<in> set cs. x \<le> Amount c)) \<and>
    is_panic (projl (Coins_MulInt M cs 0)) \<and> is_panic (projl (Coins_QuoInt M cs 0))"
proof -
  have dist: "distinct (map Denom cs)" using assms(2) by (simp add: canonicalD valid_canonical)
  have pos: "0 < Amount c" if "c \<in> set cs" for c using that valid_parts(4) [OF assms(2)] by blast
  have r: "r = map (\<lambda>c. \<lparr>Denom = Denom c, Amount = Amount c * x\<rparr>) cs"
    using sdk_math.MulInt_Inr [OF assms(1,4)] .
  have q: "q = map (\<lambda>c. \<lparr>Denom = Denom c, Amount = Amount c div x\<rparr>) cs"
    using sdk_math.QuoInt_Inr [OF assms(1,5)] assms(3) pos by (simp add: sdiv_nonneg less_imp_le)
  show ?thesis
    unfolding r q using assms(3) pos dist
    by (simp add: scale_valid [OF assms(2), of "\<lambda>a. a * x"] scale_amt [of "\<lambda>a. a * x"]
        scale_valid [OF assms(2), of "\<lambda>a. a div x"] scale_amt [of "\<lambda>a. a div x"]
        pos_imp_zdiv_pos_iff Coins_MulInt_def Coins_SafeMulInt_def Coins_QuoInt_def Coins_SafeQuoInt_def)
qed

theorem Coins_scalar_correct_witness:
  "Coins_IsValid [\<lparr>Denom = ''atone'', Amount = 15\<rparr>, \<lparr>Denom = ''photon'', Amount = 9\<rparr>] \<and>
   amt [\<lparr>Denom = ''atone'', Amount = 1\<rparr>, \<lparr>Denom = ''photon'', Amount = 1\<rparr>] ''atone'' = amt ex_wallet ''atone'' div 3"
proof -
  have "Coins_MulInt ref_math ex_wallet 3 =
      Inr [\<lparr>Denom = ''atone'', Amount = 15\<rparr>, \<lparr>Denom = ''photon'', Amount = 9\<rparr>]"
    and "Coins_QuoInt ref_math ex_wallet 3 =
      Inr [\<lparr>Denom = ''atone'', Amount = 1\<rparr>, \<lparr>Denom = ''photon'', Amount = 1\<rparr>]"
    by code_simp+
  from Coins_scalar_correct [OF ref_math_laws ex_coins_valid(1) _ this] show ?thesis by (simp del: amt_simps)
qed

end
