(* ===== verification/DecCoins.thy ===== *)
theory DecCoins
  imports CoinLaws
begin

text \<open>
  Decimal coins, \<^verbatim>\<open>types/dec_coin.go\<close>: slices of \<^verbatim>\<open>DecCoin\<close> with the two-index merge of
  \<^verbatim>\<open>safeAdd\<close>, the recursive binary search of \<^verbatim>\<open>AmountOf\<close>, scaling by a decimal, and the split of
  a decimal slice into whole coins and change. What a decimal slice denotes is given through
  \<open>scaled\<close>, which forgets the scale of the amounts, so that the notions of \<open>Coins\<close> apply.
\<close>

section \<open>Decimal coins\<close>

record dec_coin =
  DenomD :: string
  AmountD :: dec

type_synonym dec_coins = "dec_coin list"

definition DecCoin_IsZero :: "dec_coin \<Rightarrow> bool" where
  "DecCoin_IsZero c \<longleftrightarrow> AmountD c = 0"

definition DecCoin_IsPositive :: "dec_coin \<Rightarrow> bool" where
  "DecCoin_IsPositive c \<longleftrightarrow> 0 < AmountD c"

definition DecCoin_IsNegative :: "dec_coin \<Rightarrow> bool" where
  "DecCoin_IsNegative c \<longleftrightarrow> AmountD c < 0"

definition NewDecCoin :: "string \<Rightarrow> int \<Rightarrow> dec_coin res" where
  "NewDecCoin denom amount = bindR (NewCoin denom amount) (\<lambda>coin.
     Inr \<lparr>DenomD = Denom coin, AmountD = dec_of_int (Amount coin)\<rparr>)"

definition NewDecCoinFromDec :: "string \<Rightarrow> dec \<Rightarrow> dec_coin res" where
  "NewDecCoinFromDec denom amount = bindR (mustValidateDenom denom) (\<lambda>_.
     if amount < 0 then Inl (Panic ''negative decimal coin amount'')
     else Inr \<lparr>DenomD = denom, AmountD = amount\<rparr>)"

definition NewDecCoinFromCoin :: "coin \<Rightarrow> dec_coin res" where
  "NewDecCoinFromCoin coin = bindR (must (Coin_Validate coin)) (\<lambda>_.
     Inr \<lparr>DenomD = Denom coin, AmountD = dec_of_int (Amount coin)\<rparr>)"

definition DecCoin_IsGTE :: "dec_coin \<Rightarrow> dec_coin \<Rightarrow> bool res" where
  "DecCoin_IsGTE c other = bindR (same_denom (DenomD c) (DenomD other)) (\<lambda>_.
     Inr (\<not> AmountD c < AmountD other))"

definition DecCoin_IsLT :: "dec_coin \<Rightarrow> dec_coin \<Rightarrow> bool res" where
  "DecCoin_IsLT c other = bindR (same_denom (DenomD c) (DenomD other)) (\<lambda>_.
     Inr (AmountD c < AmountD other))"

definition DecCoin_Add :: "math_ops \<Rightarrow> dec_coin \<Rightarrow> dec_coin \<Rightarrow> dec_coin res" where
  "DecCoin_Add M c coinB = bindR (same_denom (DenomD c) (DenomD coinB)) (\<lambda>_.
     bindR (dec_Add M (AmountD c) (AmountD coinB)) (\<lambda>a. Inr \<lparr>DenomD = DenomD c, AmountD = a\<rparr>))"

definition DecCoin_Sub :: "math_ops \<Rightarrow> dec_coin \<Rightarrow> dec_coin \<Rightarrow> dec_coin res" where
  "DecCoin_Sub M c coinB = bindR (same_denom (DenomD c) (DenomD coinB)) (\<lambda>_.
     bindR (dec_Sub M (AmountD c) (AmountD coinB)) (\<lambda>a.
       if a < 0 then Inl (Panic ''negative decimal coin amount'')
       else Inr \<lparr>DenomD = DenomD c, AmountD = a\<rparr>))"

definition DecCoin_TruncateDecimal :: "math_ops \<Rightarrow> dec_coin \<Rightarrow> (coin \<times> dec_coin) res" where
  "DecCoin_TruncateDecimal M c = bindR (dec_TruncateInt M (AmountD c)) (\<lambda>truncated.
     bindR (dec_Sub M (AmountD c) (dec_of_int truncated)) (\<lambda>change.
       bindR (NewCoin (DenomD c) truncated) (\<lambda>t.
         bindR (NewDecCoinFromDec (DenomD c) change) (\<lambda>r. Inr (t, r)))))"

definition DecCoin_Validate :: "dec_coin \<Rightarrow> unit res" where
  "DecCoin_Validate c = bindR (ValidateDenom (DenomD c)) (\<lambda>_.
     if DecCoin_IsNegative c then Inl (Err ''decimal coin amount cannot be negative'') else Inr ())"

definition DecCoin_IsValid :: "dec_coin \<Rightarrow> bool" where
  "DecCoin_IsValid c = okR (DecCoin_Validate c)"

section \<open>Slices of decimal coins\<close>

definition DecCoins_Sort :: "dec_coins \<Rightarrow> dec_coins" where
  "DecCoins_Sort cs = (if length cs > 1 then sort_key DenomD cs else cs)"

definition removeZeroDecCoins :: "dec_coins \<Rightarrow> dec_coins" where
  "removeZeroDecCoins cs = filter (\<lambda>c. \<not> DecCoin_IsZero c) cs"

definition sanitizeDecCoins :: "dec_coins \<Rightarrow> dec_coins" where
  "sanitizeDecCoins cs = (let newDecCoins = removeZeroDecCoins cs in
     if length newDecCoins = 0 then [] else DecCoins_Sort newDecCoins)"

fun DecCoins_Validate_rest :: "string \<Rightarrow> string set \<Rightarrow> dec_coins \<Rightarrow> unit res" where
  "DecCoins_Validate_rest lowDenom seenDenoms [] = Inr ()"
| "DecCoins_Validate_rest lowDenom seenDenoms (c # cs) =
     (if DenomD c \<in> seenDenoms then Inl (Err ''duplicate denomination'')
      else bindR (ValidateDenom (DenomD c)) (\<lambda>_.
        if DenomD c \<le> lowDenom then Inl (Err ''denomination is not sorted'')
        else if \<not> DecCoin_IsPositive c then Inl (Err ''coin amount is not positive'')
        else DecCoins_Validate_rest (DenomD c) (insert (DenomD c) seenDenoms) cs))"

definition DecCoins_Validate_single :: "dec_coin \<Rightarrow> unit res" where
  "DecCoins_Validate_single c = bindR (ValidateDenom (DenomD c)) (\<lambda>_.
     if \<not> DecCoin_IsPositive c then Inl (Err ''coin amount is not positive'') else Inr ())"

definition DecCoins_Validate :: "dec_coins \<Rightarrow> unit res" where
  "DecCoins_Validate cs = (case cs of [] \<Rightarrow> Inr ()
     | [c] \<Rightarrow> DecCoins_Validate_single c
     | c # rest \<Rightarrow> bindR (DecCoins_Validate_single c) (\<lambda>_.
         DecCoins_Validate_rest (DenomD c) {DenomD c} rest))"

definition DecCoins_IsValid :: "dec_coins \<Rightarrow> bool" where
  "DecCoins_IsValid cs = okR (DecCoins_Validate cs)"

definition NewDecCoins :: "dec_coins \<Rightarrow> dec_coins res" where
  "NewDecCoins cs = (let newDecCoins = sanitizeDecCoins cs in
     bindR (must (DecCoins_Validate newDecCoins)) (\<lambda>_. Inr newDecCoins))"

definition NewDecCoinsFromCoins :: "coins \<Rightarrow> dec_coins res" where
  "NewDecCoinsFromCoins cs = (if length cs = 0 then Inr []
     else bindR (NewCoins cs) (\<lambda>newCoins. mapR NewDecCoinFromCoin newCoins))"

text \<open>
  The merge loop of \<^verbatim>\<open>safeAdd\<close>: the two indices are the two remaining slices, and the slice
  \<^verbatim>\<open>sum\<close> is what the recursion has put in front.
\<close>

fun DecCoins_safeAdd :: "math_ops \<Rightarrow> dec_coins \<Rightarrow> dec_coins \<Rightarrow> dec_coins res" where
  "DecCoins_safeAdd M [] bs = Inr (removeZeroDecCoins bs)"
| "DecCoins_safeAdd M as [] = Inr (removeZeroDecCoins as)"
| "DecCoins_safeAdd M (coinA # as) (coinB # bs) =
     (if DenomD coinA < DenomD coinB then
        bindR (DecCoins_safeAdd M as (coinB # bs)) (\<lambda>r.
          Inr (if \<not> DecCoin_IsZero coinA then coinA # r else r))
      else if DenomD coinA = DenomD coinB then
        bindR (DecCoin_Add M coinA coinB) (\<lambda>c.
          bindR (DecCoins_safeAdd M as bs) (\<lambda>r. Inr (if \<not> DecCoin_IsZero c then c # r else r)))
      else bindR (DecCoins_safeAdd M (coinA # as) bs) (\<lambda>r.
          Inr (if \<not> DecCoin_IsZero coinB then coinB # r else r)))"

definition DecCoins_Add :: "math_ops \<Rightarrow> dec_coins \<Rightarrow> dec_coins \<Rightarrow> dec_coins res" where
  "DecCoins_Add M cs coinsB = DecCoins_safeAdd M cs coinsB"

definition DecCoins_negative :: "dec_coins \<Rightarrow> dec_coins" where
  "DecCoins_negative cs = map (\<lambda>c. \<lparr>DenomD = DenomD c, AmountD = - AmountD c\<rparr>) cs"

definition DecCoins_IsAnyNegative :: "dec_coins \<Rightarrow> bool" where
  "DecCoins_IsAnyNegative cs = list_ex DecCoin_IsNegative cs"

definition DecCoins_SafeSub :: "math_ops \<Rightarrow> dec_coins \<Rightarrow> dec_coins \<Rightarrow> (dec_coins \<times> bool) res" where
  "DecCoins_SafeSub M cs coinsB = bindR (DecCoins_safeAdd M cs (DecCoins_negative coinsB)) (\<lambda>diff.
     Inr (diff, DecCoins_IsAnyNegative diff))"

definition DecCoins_Sub :: "math_ops \<Rightarrow> dec_coins \<Rightarrow> dec_coins \<Rightarrow> dec_coins res" where
  "DecCoins_Sub M cs coinsB = bindR (DecCoins_SafeSub M cs coinsB) (\<lambda>(diff, hasNeg).
     if hasNeg then Inl (Panic ''negative coin amount'') else Inr diff)"

function DecCoins_AmountOf :: "dec_coins \<Rightarrow> string \<Rightarrow> dec res" where
  "DecCoins_AmountOf cs denom = bindR (mustValidateDenom denom) (\<lambda>_.
     if length cs = 0 then Inr 0
     else if length cs = 1 then Inr (if DenomD (cs ! 0) = denom then AmountD (cs ! 0) else 0)
     else (let midIdx = length cs div 2; coin = cs ! midIdx in
        if denom < DenomD coin then DecCoins_AmountOf (take midIdx cs) denom
        else if denom = DenomD coin then Inr (AmountD coin)
        else DecCoins_AmountOf (drop (midIdx + 1) cs) denom))"
  by pat_completeness auto
termination
  by (relation "measure (\<lambda>(cs, d). length cs)") auto

declare DecCoins_AmountOf.simps [simp del]

definition DecCoins_Intersect :: "dec_coins \<Rightarrow> dec_coins \<Rightarrow> dec_coins res" where
  "DecCoins_Intersect cs coinsB = bindR (mapR (\<lambda>c. bindR (DecCoins_AmountOf coinsB (DenomD c)) (\<lambda>b.
     Inr \<lparr>DenomD = DenomD c, AmountD = min (AmountD c) b\<rparr>)) cs) (\<lambda>r. Inr (removeZeroDecCoins r))"

text \<open>The body that the four scaling operations share: append the product unless it is zero.\<close>

definition addNonZero :: "math_ops \<Rightarrow> (dec \<Rightarrow> dec res) \<Rightarrow> dec_coin \<Rightarrow> dec_coins \<Rightarrow> dec_coins res" where
  "addNonZero M f c r = bindR (f (AmountD c)) (\<lambda>a.
     let product = \<lparr>DenomD = DenomD c, AmountD = a\<rparr> in
     if \<not> DecCoin_IsZero product then DecCoins_Add M r [product] else Inr r)"

definition DecCoins_MulDec :: "math_ops \<Rightarrow> dec_coins \<Rightarrow> dec \<Rightarrow> dec_coins res" where
  "DecCoins_MulDec M cs d = foldR (addNonZero M (\<lambda>a. dec_Mul M a d)) cs []"

definition DecCoins_MulDecTruncate :: "math_ops \<Rightarrow> dec_coins \<Rightarrow> dec \<Rightarrow> dec_coins res" where
  "DecCoins_MulDecTruncate M cs d = (if d = 0 then Inr []
     else foldR (addNonZero M (\<lambda>a. dec_MulTruncate M a d)) cs [])"

definition DecCoins_QuoDec :: "math_ops \<Rightarrow> dec_coins \<Rightarrow> dec \<Rightarrow> dec_coins res" where
  "DecCoins_QuoDec M cs d = (if d = 0 then Inl (Panic ''invalid zero decimal'')
     else foldR (addNonZero M (\<lambda>a. dec_Quo M a d)) cs [])"

definition DecCoins_QuoDecTruncate :: "math_ops \<Rightarrow> dec_coins \<Rightarrow> dec \<Rightarrow> dec_coins res" where
  "DecCoins_QuoDecTruncate M cs d = (if d = 0 then Inl (Panic ''invalid zero decimal'')
     else foldR (addNonZero M (\<lambda>a. dec_QuoTruncate M a d)) cs [])"

definition TruncateDecimal_step ::
  "math_ops \<Rightarrow> dec_coin \<Rightarrow> coins \<times> dec_coins \<Rightarrow> (coins \<times> dec_coins) res" where
  "TruncateDecimal_step M c = (\<lambda>(truncatedCoins, changeCoins).
     bindR (DecCoin_TruncateDecimal M c) (\<lambda>(truncated, change).
       bindR (if \<not> Coin_IsZero truncated then Coins_Add M truncatedCoins [truncated]
              else Inr truncatedCoins) (\<lambda>t.
         bindR (if \<not> DecCoin_IsZero change then DecCoins_Add M changeCoins [change]
                else Inr changeCoins) (\<lambda>r. Inr (t, r)))))"

definition DecCoins_TruncateDecimal :: "math_ops \<Rightarrow> dec_coins \<Rightarrow> (coins \<times> dec_coins) res" where
  "DecCoins_TruncateDecimal M cs = foldR (TruncateDecimal_step M) cs ([], [])"

definition DecCoins_Empty :: "dec_coins \<Rightarrow> bool" where
  "DecCoins_Empty cs \<longleftrightarrow> length cs = 0"

definition DecCoins_Equal :: "dec_coins \<Rightarrow> dec_coins \<Rightarrow> bool" where
  "DecCoins_Equal cs coinsB = (if length cs \<noteq> length coinsB then False
     else list_all2 (\<lambda>a b. DenomD a = DenomD b \<and> AmountD a = AmountD b)
       (DecCoins_Sort cs) (DecCoins_Sort coinsB))"

definition DecCoins_IsZero :: "dec_coins \<Rightarrow> bool" where
  "DecCoins_IsZero cs = list_all (\<lambda>c. AmountD c = 0) cs"

definition DecCoins_IsAllPositive :: "dec_coins \<Rightarrow> bool" where
  "DecCoins_IsAllPositive cs = (if length cs = 0 then False else list_all DecCoin_IsPositive cs)"

section \<open>What a decimal slice denotes\<close>

definition scaled :: "dec_coins \<Rightarrow> coins" where
  "scaled cs = map (\<lambda>c. \<lparr>Denom = DenomD c, Amount = AmountD c\<rparr>) cs"

definition damt :: "dec_coins \<Rightarrow> string \<Rightarrow> dec" where
  "damt cs d = amt (scaled cs) d"

definition dfits :: "dec_coins \<Rightarrow> bool" where
  "dfits cs \<longleftrightarrow> (\<forall>c \<in> set cs. dec_ok (AmountD c))"

lemma scaled_simps [simp]:
  "scaled [] = []"
  "scaled (c # cs) = \<lparr>Denom = DenomD c, Amount = AmountD c\<rparr> # scaled cs"
  "scaled (as @ bs) = scaled as @ scaled bs"
  "map Denom (scaled cs) = map DenomD cs"
  "Denom ` set (scaled cs) = DenomD ` set cs"
  "length (scaled cs) = length cs"
  by (auto simp: scaled_def image_image)

lemma damt_simps [simp]:
  "damt [] d = 0"
  "damt (c # cs) d = (if DenomD c = d then AmountD c else 0) + damt cs d"
  "damt (as @ bs) d = damt as d + damt bs d"
  by (simp_all add: damt_def)

lemma damt_notin: "d \<notin> DenomD ` set cs \<Longrightarrow> damt cs d = 0"
  by (simp add: damt_def amt_notin)

lemma scaled_inject: "scaled as = scaled bs \<Longrightarrow> as = bs"
  unfolding scaled_def by (rule map_injective) (auto simp: inj_def)

abbreviation dcanonical :: "dec_coins \<Rightarrow> bool" where
  "dcanonical cs \<equiv> canonical (scaled cs)"

lemma dcanonical_iff:
  "dcanonical cs \<longleftrightarrow> strict_sorted_by DenomD cs \<and> (\<forall>c \<in> set cs. AmountD c \<noteq> 0)"
  by (auto simp: canonical_def scaled_def comp_def)

lemma dcanonical_unique:
  "dcanonical as \<Longrightarrow> dcanonical bs \<Longrightarrow> (\<And>d. damt as d = damt bs d) \<Longrightarrow> as = bs"
  unfolding damt_def by (intro scaled_inject canonical_unique)

lemma damt_in: "distinct (map DenomD cs) \<Longrightarrow> c \<in> set cs \<Longrightarrow> damt cs (DenomD c) = AmountD c"
  by (induction cs) (auto simp: image_iff damt_notin)

lemma Validate_rest_dec_ok:
  assumes "\<And>d. d \<in> seen \<Longrightarrow> d \<le> low"
  shows "DecCoins_Validate_rest low seen cs = Inr u \<longleftrightarrow>
     sorted_wrt (<) (low # map DenomD cs) \<and> (\<forall>c \<in> set cs. reDnm_MatchString (DenomD c) \<and> 0 < AmountD c)"
  using assms
proof (induction cs arbitrary: low seen)
  case (Cons c cs)
  show ?case
  proof (cases "low < DenomD c")
    case True
    then have "\<And>d. d \<in> insert (DenomD c) seen \<Longrightarrow> d \<le> DenomD c" and "DenomD c \<notin> seen"
      using Cons.prems by (fastforce intro: less_imp_le)+
    with Cons.IH [of "insert (DenomD c) seen" "DenomD c"] True show ?thesis
      by (auto simp: bindR_eq_Inr DecCoin_IsPositive_def not_le intro: order.strict_trans)
  qed (auto simp: bindR_eq_Inr not_less)
qed simp

lemmas Validate_rest_dec_single = Validate_rest_dec_ok [of "{d}" d for d, simplified]

lemma DecCoins_Validate_ok:
  "DecCoins_Validate cs = Inr () \<longleftrightarrow>
     strict_sorted_by DenomD cs \<and> (\<forall>c \<in> set cs. reDnm_MatchString (DenomD c) \<and> 0 < AmountD c)"
  by (cases cs rule: remdups_adj.cases)
    (auto simp del: DecCoins_Validate_rest.simps simp: DecCoins_Validate_def bindR_eq_Inr
      Validate_rest_dec_single DecCoins_Validate_single_def DecCoin_IsPositive_def)

text \<open>The decimal validity is the integer one of the scaled slice.\<close>

lemma DecCoins_IsValid_scaled: "DecCoins_IsValid cs \<longleftrightarrow> Coins_IsValid (scaled cs)"
  unfolding DecCoins_IsValid_def okR_iff Coins_IsValid_alt
  by (auto simp: DecCoins_Validate_ok scaled_def comp_def)

lemmas DecCoins_IsValid_alt = DecCoins_IsValid_scaled [unfolded Coins_IsValid_alt]

lemma DecCoins_IsValid_iff:
  "DecCoins_IsValid cs \<longleftrightarrow> strict_sorted_by DenomD cs \<and>
    (\<forall>c \<in> set cs. reDnm_MatchString (DenomD c) \<and> 0 < AmountD c)"
  by (auto simp: DecCoins_IsValid_def okR_iff DecCoins_Validate_ok)

lemma dvalid_canonical: "DecCoins_IsValid cs \<Longrightarrow> dcanonical cs"
  by (simp add: DecCoins_IsValid_scaled valid_canonical)

lemma dvalid_nonneg: "DecCoins_IsValid cs \<Longrightarrow> 0 \<le> damt cs d"
  by (simp add: DecCoins_IsValid_scaled damt_def valid_amt_nonneg)

lemma dvalid_denom: "DecCoins_IsValid cs \<Longrightarrow> damt cs d \<noteq> 0 \<Longrightarrow> reDnm_MatchString d"
  by (simp add: DecCoins_IsValid_scaled damt_def valid_denom)

lemma dcanonical_valid:
  "dcanonical cs \<Longrightarrow> (\<And>d. damt cs d \<noteq> 0 \<Longrightarrow> reDnm_MatchString d \<and> 0 < damt cs d) \<Longrightarrow> DecCoins_IsValid cs"
  unfolding DecCoins_IsValid_scaled damt_def by (rule canonical_valid)

section \<open>The merge\<close>

lemma removeZeroDec_set [simp]: "set (removeZeroDecCoins cs) = {c \<in> set cs. AmountD c \<noteq> 0}"
  by (auto simp: removeZeroDecCoins_def DecCoin_IsZero_def)

lemma removeZeroDec_damt [simp]: "damt (removeZeroDecCoins cs) d = damt cs d"
  by (induction cs) (auto simp: removeZeroDecCoins_def DecCoin_IsZero_def)

lemma removeZeroDec_canonical [simp]:
  "strict_sorted_by DenomD cs \<Longrightarrow> dcanonical (removeZeroDecCoins cs)"
  by (auto simp: dcanonical_iff intro: strict_sorted_by_filter simp: removeZeroDecCoins_def DecCoin_IsZero_def)

lemma removeZeroDec_id [simp]: "dcanonical cs \<Longrightarrow> removeZeroDecCoins cs = cs"
  by (auto simp: dcanonical_iff removeZeroDecCoins_def DecCoin_IsZero_def filter_id_conv)

lemma Cons_dcanonical:
  assumes "dcanonical r" and "AmountD c \<noteq> 0" and "\<And>x. x \<in> set r \<Longrightarrow> DenomD c < DenomD x"
  shows "dcanonical (c # r)"
  using assms unfolding dcanonical_iff by auto

text \<open>Induction along the merge.\<close>

lemma merge_induct:
  assumes "\<And>a as b bs. (DenomD a < DenomD b \<Longrightarrow> P as (b # bs)) \<Longrightarrow> (DenomD a = DenomD b \<Longrightarrow> P as bs) \<Longrightarrow>
      (\<not> DenomD a < DenomD b \<Longrightarrow> DenomD a \<noteq> DenomD b \<Longrightarrow> P (a # as) bs) \<Longrightarrow> P (a # as) (b # bs)"
    and "\<And>as. P as []" and "\<And>b bs. P [] (b # bs)"
  shows "P (as :: dec_coins) (bs :: dec_coins)"
  using assms by induction_schema (pat_completeness, lexicographic_order)

lemma dsafeAdd_Nil2 [simp]: "DecCoins_safeAdd M as [] = Inr (removeZeroDecCoins as)"
  by (cases as) simp_all

context sdk_math
begin

lemma DecCoin_Add_Inr:
  "DecCoin_Add M a b = Inr c \<Longrightarrow> DenomD a = DenomD b \<and> c = \<lparr>DenomD = DenomD a, AmountD = AmountD a + AmountD b\<rparr>"
  by (auto simp: DecCoin_Add_def same_denom_def bindR_eq_Inr dest: dec_Add_Inr split: if_splits)

lemma dsafeAdd_ConsE:
  assumes "DecCoins_safeAdd M (a # as) (b # bs) = Inr r"
  obtains (lt) q where "DenomD a < DenomD b" and "DecCoins_safeAdd M as (b # bs) = Inr q"
      and "r = (if AmountD a \<noteq> 0 then a # q else q)"
    | (eq) q where "DenomD a = DenomD b" and "DecCoins_safeAdd M as bs = Inr q"
      and "r = (if AmountD a + AmountD b \<noteq> 0 then \<lparr>DenomD = DenomD a, AmountD = AmountD a + AmountD b\<rparr> # q else q)"
    | (gt) q where "\<not> DenomD a < DenomD b" and "DenomD a \<noteq> DenomD b"
      and "DecCoins_safeAdd M (a # as) bs = Inr q" and "r = (if AmountD b \<noteq> 0 then b # q else q)"
proof -
  consider "DenomD a < DenomD b" | "DenomD a = DenomD b" | "\<not> DenomD a < DenomD b" "DenomD a \<noteq> DenomD b" by blast
  then show ?thesis
  proof cases
    case 1
    with assms lt show ?thesis by (auto simp: bindR_eq_Inr DecCoin_IsZero_def)
  next
    case 2
    with assms obtain c q where c: "DecCoin_Add M a b = Inr c" "DecCoins_safeAdd M as bs = Inr q"
      "r = (if AmountD c \<noteq> 0 then c # q else q)" by (auto simp: bindR_eq_Inr DecCoin_IsZero_def)
    show ?thesis using eq [OF 2 c(2)] c(3) DecCoin_Add_Inr [OF c(1)] by simp
  next
    case 3
    with assms gt show ?thesis by (auto simp: bindR_eq_Inr DecCoin_IsZero_def)
  qed
qed

lemma dsafeAdd_damt: "DecCoins_safeAdd M as bs = Inr r \<Longrightarrow> damt r d = damt as d + damt bs d"
proof (induction as bs arbitrary: r rule: merge_induct)
  case (1 a as b bs)
  from "1.prems" show ?case
    by (cases rule: dsafeAdd_ConsE) (simp_all add: "1.IH")
qed auto

lemma dsafeAdd_denoms:
  "DecCoins_safeAdd M as bs = Inr r \<Longrightarrow> DenomD ` set r \<subseteq> DenomD ` set as \<union> DenomD ` set bs"
proof (induction as bs arbitrary: r rule: merge_induct)
  case (1 a as b bs)
  from "1.prems" show ?case
  proof (cases rule: dsafeAdd_ConsE)
    case (lt q)
    with "1.IH"(1) [OF lt(1,2)] show ?thesis by auto
  next
    case (eq q)
    with "1.IH"(2) [OF eq(1,2)] show ?thesis by auto
  next
    case (gt q)
    with "1.IH"(3) [OF gt(1-3)] show ?thesis by auto
  qed
qed auto

lemma dsafeAdd_above:
  assumes "DecCoins_safeAdd M as bs = Inr r" and "x \<in> set r"
    and "\<And>y. y \<in> set as \<union> set bs \<Longrightarrow> d < DenomD y"
  shows "d < DenomD x"
proof -
  have "DenomD x \<in> DenomD ` set as \<union> DenomD ` set bs"
    using dsafeAdd_denoms [OF assms(1)] assms(2) by blast
  then show ?thesis using assms(3) by auto
qed

lemma dsafeAdd_canonical:
  assumes "DecCoins_safeAdd M as bs = Inr r" and "strict_sorted_by DenomD as" and "strict_sorted_by DenomD bs"
  shows "dcanonical r"
  using assms
proof (induction as bs arbitrary: r rule: merge_induct)
  case (1 a as b bs)
  have lo: "\<And>x. x \<in> set as \<Longrightarrow> DenomD a < DenomD x" "\<And>x. x \<in> set bs \<Longrightarrow> DenomD b < DenomD x"
    and srt: "strict_sorted_by DenomD as" "strict_sorted_by DenomD bs"
    using "1.prems" by auto
  from "1.prems"(1) show ?case
  proof (cases rule: dsafeAdd_ConsE)
    case (lt q)
    have "dcanonical q" using "1.IH"(1) [OF lt(1,2)] "1.prems" by simp
    moreover have "DenomD a < DenomD x" if "x \<in> set q" for x
      using lt(2) that by (rule dsafeAdd_above) (use lo lt(1) in \<open>auto intro: order.strict_trans\<close>)
    ultimately show ?thesis using Cons_dcanonical [of q a] lt(3) by simp
  next
    case (eq q)
    have "dcanonical q" using "1.IH"(2) [OF eq(1,2)] srt by simp
    moreover have "DenomD a < DenomD x" if "x \<in> set q" for x
      using eq(2) that by (rule dsafeAdd_above) (use lo eq(1) in auto)
    ultimately show ?thesis
      using Cons_dcanonical [of q "\<lparr>DenomD = DenomD a, AmountD = AmountD a + AmountD b\<rparr>"] eq(3) by simp
  next
    case (gt q)
    have ba: "DenomD b < DenomD a" using gt(1,2) by (simp add: order.strict_iff_order not_less)
    have "dcanonical q" using "1.IH"(3) [OF gt(1-3)] "1.prems" by simp
    moreover have "DenomD b < DenomD x" if "x \<in> set q" for x
      using gt(3) that by (rule dsafeAdd_above) (use lo ba in \<open>auto intro: order.strict_trans\<close>)
    ultimately show ?thesis using Cons_dcanonical [of q b] gt(4) by simp
  qed
qed auto

lemma dsafeAdd_total:
  assumes "\<And>a b. a \<in> set as \<Longrightarrow> b \<in> set bs \<Longrightarrow> DenomD a = DenomD b \<Longrightarrow> dec_ok (AmountD a + AmountD b)"
  shows "\<exists>r. DecCoins_safeAdd M as bs = Inr r"
  using assms
proof (induction as bs rule: merge_induct)
  case (1 a as b bs)
  then show ?case by (auto simp: DecCoin_Add_def same_denom_def dec_ok_Add)
qed auto

lemma dsafeAdd_snoc: "dcanonical (r @ [p]) \<Longrightarrow> DecCoins_safeAdd M r [p] = Inr (r @ [p])"
proof (induction r)
  case (Cons a r)
  have a: "DenomD a < DenomD p" "AmountD a \<noteq> 0" and "dcanonical (r @ [p])"
    using Cons.prems unfolding dcanonical_iff by auto
  with Cons.IH a show ?case by (simp add: DecCoin_IsZero_def)
qed simp

lemma scale_loop:
  assumes "strict_sorted_by DenomD (r @ cs)" and "\<And>c. c \<in> set r \<Longrightarrow> AmountD c \<noteq> 0"
  shows "foldR (addNonZero M f) cs r =
    bindR (mapR (\<lambda>c. bindR (f (AmountD c)) (\<lambda>a. Inr \<lparr>DenomD = DenomD c, AmountD = a\<rparr>)) cs) (\<lambda>ys.
      Inr (r @ removeZeroDecCoins ys))"
  using assms
proof (induction cs arbitrary: r)
  case Nil
  then show ?case by (simp add: removeZeroDecCoins_def)
next
  case (Cons c cs)
  show ?case
  proof (cases "f (AmountD c)")
    case (Inr a)
    let ?p = "\<lparr>DenomD = DenomD c, AmountD = a\<rparr>"
    show ?thesis
    proof (cases "a = 0")
      case True
      have "foldR (addNonZero M f) cs r = bindR (mapR (\<lambda>c. bindR (f (AmountD c))
          (\<lambda>a. Inr \<lparr>DenomD = DenomD c, AmountD = a\<rparr>)) cs) (\<lambda>ys. Inr (r @ removeZeroDecCoins ys))"
        using Cons.prems by (intro Cons.IH) (auto simp: sorted_wrt_append)
      with True Inr show ?thesis
        by (simp add: addNonZero_def [of M f c] DecCoin_IsZero_def bindR_assoc removeZeroDecCoins_def)
    next
      case False
      have "DecCoins_Add M r [?p] = Inr (r @ [?p])"
        unfolding DecCoins_Add_def using Cons.prems False
        by (intro dsafeAdd_snoc dcanonical_iff [THEN iffD2]) (auto simp: sorted_wrt_append)
      moreover have "foldR (addNonZero M f) cs (r @ [?p]) = bindR (mapR (\<lambda>c. bindR (f (AmountD c))
          (\<lambda>a. Inr \<lparr>DenomD = DenomD c, AmountD = a\<rparr>)) cs) (\<lambda>ys. Inr ((r @ [?p]) @ removeZeroDecCoins ys))"
        using Cons.prems False by (intro Cons.IH) (auto simp: sorted_wrt_append)
      ultimately show ?thesis using Inr False
        by (simp add: addNonZero_def [of M f c] DecCoin_IsZero_def bindR_assoc removeZeroDecCoins_def)
    qed
  qed (simp add: addNonZero_def)
qed

text \<open>What the four scaling operations return: the function applied to every amount.\<close>

lemma scale_Inr:
  assumes "foldR (addNonZero M f) cs [] = Inr r" and "strict_sorted_by DenomD cs"
  shows "dcanonical r"
    and "d \<notin> DenomD ` set cs \<and> damt r d = 0 \<or> (\<exists>c \<in> set cs. DenomD c = d \<and> damt cs d = AmountD c \<and> f (AmountD c) = Inr (damt r d))"
proof -
  note e = scale_loop [of "[]" cs f, simplified, OF assms(2)]
  from assms(1) obtain ys where
    ys: "mapR (\<lambda>c. bindR (f (AmountD c)) (\<lambda>a. Inr \<lparr>DenomD = DenomD c, AmountD = a\<rparr>)) cs = Inr ys"
    and r: "r = removeZeroDecCoins ys"
    unfolding e by (auto simp: bindR_eq_Inr)
  have nth: "DenomD (ys ! i) = DenomD (cs ! i)" "f (AmountD (cs ! i)) = Inr (AmountD (ys ! i))"
    if "i < length cs" for i
  proof -
    have "bindR (f (AmountD (cs ! i))) (\<lambda>a. Inr \<lparr>DenomD = DenomD (cs ! i), AmountD = a\<rparr>) = Inr (ys ! i)"
      using ys that unfolding mapR_Inr_iff by blast
    then obtain a where "f (AmountD (cs ! i)) = Inr a" "ys ! i = \<lparr>DenomD = DenomD (cs ! i), AmountD = a\<rparr>"
      by (auto simp: bindR_eq_Inr)
    then show "DenomD (ys ! i) = DenomD (cs ! i)" "f (AmountD (cs ! i)) = Inr (AmountD (ys ! i))" by simp_all
  qed
  have len: "length ys = length cs" using ys unfolding mapR_Inr_iff by blast
  have den: "map DenomD ys = map DenomD cs" using len nth(1) by (auto intro: nth_equalityI)
  then show "dcanonical r" using assms(2) by (simp add: r)
  have dist: "distinct (map DenomD ys)" "distinct (map DenomD cs)"
    using den assms(2) strict_sorted_distinct by auto
  show "d \<notin> DenomD ` set cs \<and> damt r d = 0 \<or> (\<exists>c \<in> set cs. DenomD c = d \<and> damt cs d = AmountD c \<and> f (AmountD c) = Inr (damt r d))"
  proof (cases "d \<in> DenomD ` set cs")
    case True
    then obtain i where i: "i < length cs" "DenomD (cs ! i) = d" by (auto simp: in_set_conv_nth)
    have "damt ys (DenomD (ys ! i)) = AmountD (ys ! i)" "damt cs (DenomD (cs ! i)) = AmountD (cs ! i)"
      using dist i(1) len by (auto intro: damt_in)
    with i nth show ?thesis by (force simp: r)
  next
    case False
    then have "d \<notin> DenomD ` set ys" using den by (metis list.set_map)
    with False show ?thesis by (simp add: r damt_notin)
  qed
qed

end

section \<open>Lookup and intersection\<close>

lemma DecCoins_AmountOf_eq:
  "strict_sorted_by DenomD cs \<Longrightarrow> reDnm_MatchString d \<Longrightarrow> DecCoins_AmountOf cs d = Inr (damt cs d)"
proof (induction "length cs" arbitrary: cs rule: less_induct)
  case less
  consider "cs = []" | c where "cs = [c]" | "length cs > 1"
    by (cases cs rule: remdups_adj.cases) auto
  then show ?case
  proof cases
    case 3
    then obtain l c r where cs: "cs = l @ c # r" "length l = length cs div 2" "l \<noteq> []"
      by (rule split_at_mid)
    have lo: "\<And>x. x \<in> set l \<Longrightarrow> DenomD x < DenomD c" and hi: "\<And>x. x \<in> set r \<Longrightarrow> DenomD c < DenomD x"
      and srt: "strict_sorted_by DenomD l" "strict_sorted_by DenomD r"
      using less.prems cs(1) by (auto simp: sorted_wrt_append)
    have IH: "DecCoins_AmountOf l d = Inr (damt l d)" "DecCoins_AmountOf r d = Inr (damt r d)"
      using less.hyps srt cs(1) less.prems(2) by auto
    have nl: "damt l d = 0" if "\<not> d < DenomD c"
      using lo that by (intro damt_notin) auto
    have nr: "damt r d = 0" if "\<not> DenomD c < d"
      using hi that by (intro damt_notin) auto
    have mid: "cs ! length l = c" "take (length l) cs = l" "drop (length l + 1) cs = r" "length cs > 1"
      using cs(1) 3 by simp_all
    have "DecCoins_AmountOf cs d = (if d < DenomD c then DecCoins_AmountOf l d
        else if d = DenomD c then Inr (AmountD c) else DecCoins_AmountOf r d)"
      using mid less.prems(2) by (subst DecCoins_AmountOf.simps) (auto simp: Let_def cs(2) [symmetric])
    then show ?thesis using nl nr unfolding IH by (auto simp: cs(1))
  qed (use less.prems in \<open>simp_all add: DecCoins_AmountOf.simps\<close>)
qed

lemma Intersect_eq:
  assumes "DecCoins_IsValid as" and "DecCoins_IsValid bs"
  shows "DecCoins_Intersect as bs =
    Inr (removeZeroDecCoins (map (\<lambda>c. \<lparr>DenomD = DenomD c, AmountD = min (AmountD c) (damt bs (DenomD c))\<rparr>) as))"
proof -
  have "mapR (\<lambda>c. bindR (DecCoins_AmountOf bs (DenomD c)) (\<lambda>b.
      Inr \<lparr>DenomD = DenomD c, AmountD = min (AmountD c) b\<rparr>)) as =
    Inr (map (\<lambda>c. \<lparr>DenomD = DenomD c, AmountD = min (AmountD c) (damt bs (DenomD c))\<rparr>) as)"
    using assms by (intro mapR_eq_map) (simp add: DecCoins_IsValid_iff DecCoins_AmountOf_eq)
  then show ?thesis by (simp add: DecCoins_Intersect_def)
qed

lemma Intersect_damt:
  assumes "distinct (map DenomD as)" and "0 \<le> damt bs d"
  shows "damt (map (\<lambda>c. \<lparr>DenomD = DenomD c, AmountD = min (AmountD c) (damt bs (DenomD c))\<rparr>) as) d =
    min (damt as d) (damt bs d)"
  using assms by (induction as) (auto simp: damt_notin image_image)

section \<open>Splitting into coins and change\<close>

definition whole_coins :: "dec_coins \<Rightarrow> coins" where
  "whole_coins cs = removeZeroCoins (map (\<lambda>c. \<lparr>Denom = DenomD c, Amount = AmountD c div precision\<rparr>) cs)"

definition change_coins :: "dec_coins \<Rightarrow> dec_coins" where
  "change_coins cs = removeZeroDecCoins (map (\<lambda>c. \<lparr>DenomD = DenomD c, AmountD = AmountD c mod precision\<rparr>) cs)"

lemma whole_snoc:
  "whole_coins (cs @ [c]) = whole_coins cs @
    (if AmountD c div precision \<noteq> 0 then [\<lparr>Denom = DenomD c, Amount = AmountD c div precision\<rparr>] else [])"
  by (simp add: whole_coins_def removeZeroCoins_def Coin_IsZero_def)

lemma change_snoc:
  "change_coins (cs @ [c]) = change_coins cs @
    (if AmountD c mod precision \<noteq> 0 then [\<lparr>DenomD = DenomD c, AmountD = AmountD c mod precision\<rparr>] else [])"
  by (simp add: change_coins_def removeZeroDecCoins_def DecCoin_IsZero_def)

lemma whole_canonical: "strict_sorted_by DenomD cs \<Longrightarrow> canonical (whole_coins cs)"
  by (auto simp: whole_coins_def canonical_def removeZeroCoins_def Coin_IsZero_def comp_def
      intro!: strict_sorted_by_filter)

lemma change_canonical: "strict_sorted_by DenomD cs \<Longrightarrow> dcanonical (change_coins cs)"
  by (simp add: change_coins_def comp_def)

lemma whole_amt: "distinct (map DenomD cs) \<Longrightarrow> amt (whole_coins cs) d = damt cs d div precision"
  unfolding whole_coins_def amt_removeZero
  by (induction cs) (auto simp: amt_notin damt_notin image_image)

lemma change_damt: "distinct (map DenomD cs) \<Longrightarrow> damt (change_coins cs) d = damt cs d mod precision"
  unfolding change_coins_def removeZeroDec_damt
  by (induction cs) (auto simp: damt_notin image_image)

lemma dec_ok_div: "0 \<le> a \<Longrightarrow> dec_ok a \<Longrightarrow> int_ok (a div precision)"
proof -
  assume a: "0 \<le> a" "dec_ok a"
  have "a div precision < 2 ^ 256" using a by (intro div_less_bound) (simp_all add: dec_ok_def dec_max_def precision_def)
  moreover have "0 \<le> a div precision" using a(1) by (simp add: pos_imp_zdiv_nonneg_iff)
  ultimately show ?thesis unfolding int_ok_def by simp
qed

lemma whole_fits: "(\<And>c. c \<in> set cs \<Longrightarrow> 0 \<le> AmountD c) \<Longrightarrow> dfits cs \<Longrightarrow> fits (whole_coins cs)"
  by (auto simp: whole_coins_def removeZeroCoins_def fits_def dfits_def intro!: dec_ok_div)

context sdk_math
begin

lemma Coins_Add_snoc:
  assumes "canonical (r @ [p])" and "fits (r @ [p])"
  shows "Coins_Add M r [p] = Inr (r @ [p])"
proof -
  have c: "canonical r" "canonical [p]" and f: "fits r" "fits [p]"
    using assms by (auto simp: canonical_def sorted_wrt_append fits_def)
  have "int_ok (amt r d + amt [p] d)" for d using fits_amt [OF assms, of d] by simp
  then obtain q where q: "Coins_safeAdd M r [p] = Inr q" using safeAdd_total [OF c f] by blast
  have "q = r @ [p]"
    using safeAdd_Inr [OF q] assms(1) by (intro canonical_unique) auto
  with q show ?thesis by (simp add: Coins_Add_def)
qed

lemma DecCoin_Truncate_eq:
  assumes "reDnm_MatchString (DenomD c)" and "0 \<le> AmountD c" and "dec_ok (AmountD c)"
  shows "DecCoin_TruncateDecimal M c = Inr (\<lparr>Denom = DenomD c, Amount = AmountD c div precision\<rparr>,
    \<lparr>DenomD = DenomD c, AmountD = AmountD c mod precision\<rparr>)"
proof -
  have e: "AmountD c sdiv precision = AmountD c div precision" using assms(2) by (simp add: sdiv_nonneg)
  have t: "dec_TruncateInt M (AmountD c) = Inr (AmountD c div precision)"
    using dec_TruncateInt_spec [of "AmountD c"] dec_ok_div [OF assms(2,3)] unfolding e op_spec_def
    by (auto split: sum.splits)
  have m: "AmountD c - dec_of_int (AmountD c div precision) = AmountD c mod precision"
    by (simp add: dec_of_int_def minus_div_mult_eq_mod)
  have "AmountD c mod precision \<le> AmountD c" using assms(2) by (rule zmod_le_nonneg_dividend)
  then have "dec_ok (AmountD c mod precision)"
    using assms(3) pos_mod_sign [of precision "AmountD c"] unfolding dec_ok_def by simp
  then have "dec_Sub M (AmountD c) (dec_of_int (AmountD c div precision)) = Inr (AmountD c mod precision)"
    using dec_ok_Sub [of "AmountD c" "dec_of_int (AmountD c div precision)"] unfolding m by blast
  then show ?thesis using assms(1,2) t
    by (simp add: DecCoin_TruncateDecimal_def NewDecCoinFromDec_def pos_imp_zdiv_nonneg_iff not_less)
qed

lemma Truncate_loop:
  assumes "DecCoins_IsValid (done @ cs)" and "dfits (done @ cs)"
  shows "foldR (TruncateDecimal_step M) cs (whole_coins done, change_coins done) =
    Inr (whole_coins (done @ cs), change_coins (done @ cs))"
  using assms
proof (induction cs arbitrary: "done")
  case (Cons c cs)
  have c: "reDnm_MatchString (DenomD c)" "0 \<le> AmountD c" "dec_ok (AmountD c)"
    using Cons.prems by (auto simp: DecCoins_IsValid_iff dfits_def less_imp_le)
  have v: "strict_sorted_by DenomD (done @ [c])" "\<And>x. x \<in> set (done @ [c]) \<Longrightarrow> 0 \<le> AmountD x"
    "dfits (done @ [c])"
    using Cons.prems by (auto simp: DecCoins_IsValid_iff dfits_def sorted_wrt_append less_imp_le)
  let ?t = "\<lparr>Denom = DenomD c, Amount = AmountD c div precision\<rparr>"
  let ?r = "\<lparr>DenomD = DenomD c, AmountD = AmountD c mod precision\<rparr>"
  have t: "Coins_Add M (whole_coins done) [?t] = Inr (whole_coins done @ [?t])" if "AmountD c div precision \<noteq> 0"
    using that whole_canonical [OF v(1)] whole_fits [OF v(2,3)] by (intro Coins_Add_snoc) (simp_all add: whole_snoc)
  have r: "DecCoins_Add M (change_coins done) [?r] = Inr (change_coins done @ [?r])" if "AmountD c mod precision \<noteq> 0"
    using that change_canonical [OF v(1)] unfolding DecCoins_Add_def by (intro dsafeAdd_snoc) (simp add: change_snoc)
  have "TruncateDecimal_step M c (whole_coins done, change_coins done) =
      Inr (whole_coins (done @ [c]), change_coins (done @ [c]))"
    using t r by (simp add: TruncateDecimal_step_def DecCoin_Truncate_eq [OF c] whole_snoc change_snoc
        Coin_IsZero_def DecCoin_IsZero_def)
  with Cons.IH [of "done @ [c]"] Cons.prems show ?case by simp
qed simp

lemma Truncate_eq:
  "DecCoins_IsValid cs \<Longrightarrow> dfits cs \<Longrightarrow> DecCoins_TruncateDecimal M cs = Inr (whole_coins cs, change_coins cs)"
  using Truncate_loop [of "[]" cs]
  by (simp add: DecCoins_TruncateDecimal_def whole_coins_def change_coins_def removeZeroCoins_def
      removeZeroDecCoins_def)

end

lemma dneg_damt [simp]: "damt (DecCoins_negative cs) d = - damt cs d"
  by (induction cs) (auto simp: DecCoins_negative_def)

lemma dneg_denoms [simp]: "map DenomD (DecCoins_negative cs) = map DenomD cs"
  by (simp add: DecCoins_negative_def comp_def)

lemma dneg_any:
  assumes "dcanonical cs"
  shows "DecCoins_IsAnyNegative cs \<longleftrightarrow> (\<exists>d. damt cs d < 0)"
proof -
  have "DecCoins_IsAnyNegative cs \<longleftrightarrow> Coins_IsAnyNegative (scaled cs)"
    by (induction cs) (simp_all add: DecCoins_IsAnyNegative_def Coins_IsAnyNegative_def
        DecCoin_IsNegative_def Coin_IsNegative_def)
  then show ?thesis using IsAnyNegative_amt [OF assms] by (simp add: damt_def)
qed

lemma dec_ok_diff: "dec_ok a \<Longrightarrow> dec_ok b \<Longrightarrow> 0 \<le> a \<Longrightarrow> 0 \<le> b \<Longrightarrow> dec_ok (a - b)"
  unfolding dec_ok_def by linarith

context sdk_math
begin

lemma dSafeSub_spec:
  assumes "DecCoins_IsValid as" and "DecCoins_IsValid bs" and "dfits as" and "dfits bs"
  obtains r where "DecCoins_SafeSub M as bs = Inr (r, \<exists>d. damt as d < damt bs d)"
    and "dcanonical r" and "\<And>d. damt r d = damt as d - damt bs d"
proof -
  have s: "strict_sorted_by DenomD as" "strict_sorted_by DenomD (DecCoins_negative bs)"
    using assms(1,2) by (simp_all add: DecCoins_IsValid_iff)
  have "dec_ok (AmountD a + AmountD b)" if ab: "a \<in> set as" "b \<in> set (DecCoins_negative bs)" for a b
  proof -
    obtain b' where "b' \<in> set bs" "AmountD b = - AmountD b'" using ab by (auto simp: DecCoins_negative_def)
    then show ?thesis
      using ab assms dec_ok_diff [of "AmountD a" "AmountD b'"]
      by (auto simp: DecCoins_IsValid_iff dfits_def less_imp_le)
  qed
  then obtain r where r: "DecCoins_safeAdd M as (DecCoins_negative bs) = Inr r"
    using dsafeAdd_total by blast
  have c: "dcanonical r" using dsafeAdd_canonical [OF r s] .
  have a: "damt r d = damt as d - damt bs d" for d using dsafeAdd_damt [OF r, of d] by simp
  have "DecCoins_IsAnyNegative r \<longleftrightarrow> (\<exists>d. damt as d < damt bs d)" using dneg_any [OF c] by (simp add: a)
  then show ?thesis using that [of r] r c a by (simp add: DecCoins_SafeSub_def)
qed

text \<open>A scaling that keeps amounts non-negative and zero at zero keeps a slice valid.\<close>

lemma scale_valid_dec:
  assumes "foldR (addNonZero M f) cs [] = Inr r" and "DecCoins_IsValid cs"
    and "\<And>a b. 0 \<le> a \<Longrightarrow> f a = Inr b \<Longrightarrow> b = g a" and "\<And>a. 0 \<le> a \<Longrightarrow> 0 \<le> g a" and "g 0 = 0"
  shows "DecCoins_IsValid r" and "damt r d = g (damt cs d)"
proof -
  have s: "strict_sorted_by DenomD cs" using assms(2) by (simp add: DecCoins_IsValid_iff)
  have nn: "0 \<le> damt cs d" for d using assms(2) by (rule dvalid_nonneg)
  have e: "damt r d = g (damt cs d)" for d
    using scale_Inr(2) [OF assms(1) s, of d] assms(3) nn [of d] by (auto simp: assms(5) damt_notin)
  show "DecCoins_IsValid r"
  proof (rule dcanonical_valid)
    show "dcanonical r" using assms(1) s by (rule scale_Inr)
    fix d assume "damt r d \<noteq> 0"
    then have "damt cs d \<noteq> 0" using e [of d] assms(5) by auto
    with \<open>damt r d \<noteq> 0\<close> show "reDnm_MatchString d \<and> 0 < damt r d"
      using dvalid_denom [OF assms(2)] assms(4) [OF nn, of d] by (simp add: e order_less_le)
  qed
  show "damt r d = g (damt cs d)" by (rule e)
qed

end

section \<open>Properties\<close>

definition ex_rewards :: dec_coins where
  "ex_rewards = [\<lparr>DenomD = ''atone'', AmountD = 2500000000000000000\<rparr>,
     \<lparr>DenomD = ''photon'', AmountD = 300000000000000000\<rparr>]"

definition ex_share :: dec_coins where
  "ex_share = [\<lparr>DenomD = ''photon'', AmountD = 100000000000000000\<rparr>]"

lemma ex_dec_valid: "DecCoins_IsValid ex_rewards" "DecCoins_IsValid ex_share"
  by code_simp+

lemma ex_dec_fits: "dfits ex_rewards" "dfits ex_share"
  by code_simp+

text \<open>C29: \<^verbatim>\<open>DecCoins.TruncateDecimal\<close> on a valid slice returns a valid slice of whole coins and a
  valid slice of change that together hold exactly the original amounts, each change below
  one: nothing is created or lost when rewards are paid out.\<close>

theorem TruncateDecimal_conserves:
  assumes "sdk_math M" and "DecCoins_IsValid cs" and "dfits cs"
  shows "\<exists>whole change. DecCoins_TruncateDecimal M cs = Inr (whole, change) \<and>
    Coins_IsValid whole \<and> DecCoins_IsValid change \<and>
    (\<forall>d. damt cs d = dec_of_int (amt whole d) + damt change d \<and> damt change d < precision)"
proof -
  have s: "strict_sorted_by DenomD cs" using assms(2) by (simp add: DecCoins_IsValid_iff)
  note dist = strict_sorted_distinct [OF s]
  have wn: "0 \<le> damt cs d div precision" "damt cs d \<noteq> 0 \<longrightarrow> reDnm_MatchString d" for d
    using dvalid_nonneg [OF assms(2)] dvalid_denom [OF assms(2)] by (simp_all add: pos_imp_zdiv_nonneg_iff)
  have "Coins_IsValid (whole_coins cs)"
  proof (rule canonical_valid [OF whole_canonical [OF s]])
    fix d assume "amt (whole_coins cs) d \<noteq> 0"
    then show "reDnm_MatchString d \<and> 0 < amt (whole_coins cs) d"
      using wn [of d] by (cases "damt cs d = 0") (auto simp: whole_amt [OF dist])
  qed
  moreover have "DecCoins_IsValid (change_coins cs)"
  proof (rule dcanonical_valid [OF change_canonical [OF s]])
    fix d assume "damt (change_coins cs) d \<noteq> 0"
    then show "reDnm_MatchString d \<and> 0 < damt (change_coins cs) d"
      using wn(2) [of d] pos_mod_sign [of precision "damt cs d"]
      by (cases "damt cs d = 0") (simp_all add: change_damt [OF dist] order_less_le)
  qed
  moreover have "damt cs d = dec_of_int (amt (whole_coins cs) d) + damt (change_coins cs) d \<and>
      damt (change_coins cs) d < precision" for d
    by (simp add: whole_amt [OF dist] change_damt [OF dist] dec_of_int_def)
  ultimately show ?thesis using sdk_math.Truncate_eq [OF assms] by blast
qed

theorem TruncateDecimal_conserves_witness:
  "\<exists>whole change. DecCoins_TruncateDecimal ref_math ex_rewards = Inr (whole, change) \<and>
    Coins_IsValid whole \<and> DecCoins_IsValid change \<and>
    (\<forall>d. damt ex_rewards d = dec_of_int (amt whole d) + damt change d \<and> damt change d < precision)"
  by (rule TruncateDecimal_conserves [OF ref_math_laws ex_dec_valid(1) ex_dec_fits(1)])

text \<open>C30: the two-index merge of \<^verbatim>\<open>DecCoins.Add\<close> on valid slices returns a valid slice with the
  pointwise sum, and \<^verbatim>\<open>DecCoins.Sub\<close> gives back the first argument from it.\<close>

theorem DecCoins_Add_correct:
  assumes "sdk_math M" and "DecCoins_IsValid as" and "DecCoins_IsValid bs" and "dfits as" and "dfits bs"
    and "\<And>d. dec_ok (damt as d + damt bs d)"
  shows "\<exists>r. DecCoins_Add M as bs = Inr r \<and> DecCoins_IsValid r \<and>
    (\<forall>d. damt r d = damt as d + damt bs d) \<and> (dfits r \<longrightarrow> DecCoins_Sub M r bs = Inr as)"
proof -
  have s: "strict_sorted_by DenomD as" "strict_sorted_by DenomD bs"
    using assms(2,3) by (simp_all add: DecCoins_IsValid_iff)
  have "dec_ok (AmountD a + AmountD b)" if "a \<in> set as" "b \<in> set bs" "DenomD a = DenomD b" for a b
    using assms(6) [of "DenomD a"] that damt_in [OF strict_sorted_distinct [OF s(1)] that(1)]
      damt_in [OF strict_sorted_distinct [OF s(2)] that(2)] by simp
  then obtain r where r: "DecCoins_safeAdd M as bs = Inr r"
    using sdk_math.dsafeAdd_total [OF assms(1)] by blast
  have a: "damt r d = damt as d + damt bs d" for d
    using sdk_math.dsafeAdd_damt [OF assms(1) r] .
  have c: "dcanonical r" using sdk_math.dsafeAdd_canonical [OF assms(1) r s] .
  have nn: "0 \<le> damt as d" "0 \<le> damt bs d" for d using assms(2,3) by (simp_all add: dvalid_nonneg)
  have v: "DecCoins_IsValid r"
  proof (rule dcanonical_valid [OF c])
    fix d assume "damt r d \<noteq> 0"
    then have "damt as d \<noteq> 0 \<or> damt bs d \<noteq> 0" by (auto simp: a)
    then show "reDnm_MatchString d \<and> 0 < damt r d"
      using assms(2,3) nn [of d] by (auto simp: a dest: dvalid_denom)
  qed
  have "DecCoins_Sub M r bs = Inr as" if f: "dfits r"
  proof -
    obtain q where q: "DecCoins_SafeSub M r bs = Inr (q, \<exists>d. damt r d < damt bs d)" "dcanonical q"
      "\<And>d. damt q d = damt r d - damt bs d"
      using sdk_math.dSafeSub_spec [OF assms(1) v assms(3) f assms(5)] by blast
    have "\<not> (\<exists>d. damt r d < damt bs d)" using nn(1) by (auto simp: a not_less)
    moreover have "q = as" using q dvalid_canonical [OF assms(2)] by (intro dcanonical_unique) (simp_all add: a)
    ultimately show ?thesis using q(1) by (simp add: DecCoins_Sub_def)
  qed
  with r v a show ?thesis by (auto simp: DecCoins_Add_def)
qed

theorem DecCoins_Add_correct_witness:
  "\<exists>r. DecCoins_Add ref_math ex_rewards ex_share = Inr r \<and> DecCoins_IsValid r \<and>
    (\<forall>d. damt r d = damt ex_rewards d + damt ex_share d) \<and>
    (dfits r \<longrightarrow> DecCoins_Sub ref_math r ex_share = Inr ex_rewards)"
  by (rule DecCoins_Add_correct [OF ref_math_laws ex_dec_valid ex_dec_fits])
    (simp add: ex_rewards_def ex_share_def dec_ok_def dec_max_def)

text \<open>C31: the recursive binary search \<^verbatim>\<open>AmountOf\<close> returns what the slice holds of a valid
  denomination, and \<^verbatim>\<open>Intersect\<close> returns the valid slice with the pointwise minimum.\<close>

theorem Intersect_correct:
  assumes "DecCoins_IsValid as" and "DecCoins_IsValid bs"
  shows "\<exists>r. DecCoins_Intersect as bs = Inr r \<and> DecCoins_IsValid r \<and>
    (\<forall>d. reDnm_MatchString d \<longrightarrow> DecCoins_AmountOf r d = Inr (min (damt as d) (damt bs d)))"
proof -
  have s: "strict_sorted_by DenomD as" using assms(1) by (simp add: DecCoins_IsValid_iff)
  let ?r = "removeZeroDecCoins (map (\<lambda>c. \<lparr>DenomD = DenomD c, AmountD = min (AmountD c) (damt bs (DenomD c))\<rparr>) as)"
  have m: "damt ?r d = min (damt as d) (damt bs d)" for d
    using Intersect_damt [OF strict_sorted_distinct [OF s] dvalid_nonneg [OF assms(2)]] by simp
  have c: "dcanonical ?r" using s by (simp add: comp_def)
  have nn: "0 \<le> damt as d" "0 \<le> damt bs d" for d using assms by (simp_all add: dvalid_nonneg)
  have v: "DecCoins_IsValid ?r"
  proof (rule dcanonical_valid [OF c])
    fix d assume "damt ?r d \<noteq> 0"
    then have "damt as d \<noteq> 0 \<and> damt bs d \<noteq> 0" using nn [of d] unfolding m by (auto simp: min_def split: if_splits)
    then show "reDnm_MatchString d \<and> 0 < damt ?r d"
      using nn [of d] dvalid_denom [OF assms(1), of d] unfolding m by (auto simp: min_def)
  qed
  then have "strict_sorted_by DenomD ?r" by (simp only: DecCoins_IsValid_iff)
  then show ?thesis using v Intersect_eq [OF assms] DecCoins_AmountOf_eq [of ?r] m by auto
qed

theorem Intersect_correct_witness:
  "\<exists>r. DecCoins_Intersect ex_rewards ex_share = Inr r \<and> DecCoins_IsValid r \<and>
    (\<forall>d. reDnm_MatchString d \<longrightarrow> DecCoins_AmountOf r d = Inr (min (damt ex_rewards d) (damt ex_share d)))"
  by (rule Intersect_correct [OF ex_dec_valid])

text \<open>C32: multiplying a valid slice by a non-negative decimal with \<^verbatim>\<open>MulDecTruncate\<close>, and dividing it
  by a positive one with \<^verbatim>\<open>QuoDecTruncate\<close>, scales every amount rounding down, and the result is
  valid: no zero or negative coin stays in it.\<close>

theorem scale_truncate_correct:
  assumes "sdk_math M" and "DecCoins_IsValid cs" and "0 \<le> x" and "0 < y"
    and "DecCoins_MulDecTruncate M cs x = Inr r" and "DecCoins_QuoDecTruncate M cs y = Inr q"
  shows "DecCoins_IsValid r \<and> DecCoins_IsValid q \<and>
    (\<forall>d. damt r d = damt cs d * x div precision \<and> damt q d = damt cs d * precision div y)"
proof -
  have "DecCoins_IsValid r \<and> (\<forall>d. damt r d = damt cs d * x div precision)"
  proof (cases "x = 0")
    case True
    then show ?thesis using assms(5) by (auto simp: DecCoins_MulDecTruncate_def DecCoins_IsValid_iff)
  next
    case False
    then have "foldR (addNonZero M (\<lambda>a. dec_MulTruncate M a x)) cs [] = Inr r"
      using assms(5) by (simp add: DecCoins_MulDecTruncate_def)
    moreover have "b = a * x div precision" if "0 \<le> a" "dec_MulTruncate M a x = Inr b" for a b
      using sdk_math.dec_MulTruncate_Inr [OF assms(1) that(2)] that(1) assms(3) by (simp add: sdiv_nonneg)
    ultimately show ?thesis
      using sdk_math.scale_valid_dec [OF assms(1) _ assms(2), of _ r "\<lambda>a. a * x div precision"] assms(3)
      by (simp add: pos_imp_zdiv_nonneg_iff)
  qed
  moreover have "foldR (addNonZero M (\<lambda>a. dec_QuoTruncate M a y)) cs [] = Inr q"
    using assms(4,6) by (simp add: DecCoins_QuoDecTruncate_def)
  moreover have "b = a * precision div y" if "0 \<le> a" "dec_QuoTruncate M a y = Inr b" for a b
    using sdk_math.dec_QuoTruncate_Inr [OF assms(1) that(2)] that(1) assms(4) by (simp add: sdiv_nonneg)
  ultimately show ?thesis
    using sdk_math.scale_valid_dec [OF assms(1) _ assms(2), of _ q "\<lambda>a. a * precision div y"] assms(4)
    by (simp add: pos_imp_zdiv_nonneg_iff)
qed

theorem scale_truncate_correct_witness:
  "DecCoins_IsValid [\<lparr>DenomD = ''atone'', AmountD = 5000000000000000000\<rparr>, \<lparr>DenomD = ''photon'', AmountD = 600000000000000000\<rparr>] \<and>
   DecCoins_IsValid [\<lparr>DenomD = ''atone'', AmountD = 1250000000000000000\<rparr>, \<lparr>DenomD = ''photon'', AmountD = 150000000000000000\<rparr>]"
proof -
  have "DecCoins_MulDecTruncate ref_math ex_rewards 2000000000000000000 =
      Inr [\<lparr>DenomD = ''atone'', AmountD = 5000000000000000000\<rparr>, \<lparr>DenomD = ''photon'', AmountD = 600000000000000000\<rparr>]"
    and "DecCoins_QuoDecTruncate ref_math ex_rewards 2000000000000000000 =
      Inr [\<lparr>DenomD = ''atone'', AmountD = 1250000000000000000\<rparr>, \<lparr>DenomD = ''photon'', AmountD = 150000000000000000\<rparr>]"
    by code_simp+
  from scale_truncate_correct [OF ref_math_laws ex_dec_valid(1) _ _ this] show ?thesis by simp
qed

end
