(* ===== verification/BitArray.thy ===== *)
theory BitArray
  imports Prelude "HOL-Library.Word"
begin

unbundle bit_operations_syntax

text \<open>
  The compact bit array that a multi-signature carries to say who signed,
  \<^verbatim>\<open>crypto/types/compact_bit_array.go\<close>. The array is kept as in the code, as bytes with the most
  significant bit first; \<open>bits_of\<close> is the sequence of bits it stands for, and every operation is
  shown to be the corresponding operation on that sequence. A pointer that may be nil is an
  \<^typ>\<open>'a option\<close>. The varint functions of Go's \<^verbatim>\<open>encoding/binary\<close> and \<^verbatim>\<open>bits.OnesCount8\<close> are
  modelled from their documented behaviour in the standard library.
\<close>

section \<open>The array\<close>

record compact_bit_array =
  ExtraBitsStored :: "32 word"
  Elems :: "8 word list"

definition NewCompactBitArray :: "int \<Rightarrow> compact_bit_array option" where
  "NewCompactBitArray bits = (if bits \<le> 0 then None
     else (let nElems = wrap64 (bits + 7) sdiv 8 in
       if nElems \<le> 0 \<or> nElems > 2147483647 then None
       else Some \<lparr>ExtraBitsStored = word_of_int (bits mod 8), Elems = replicate (nat nElems) 0\<rparr>))"

definition Count :: "compact_bit_array option \<Rightarrow> int" where
  "Count bA = (case bA of None \<Rightarrow> 0
     | Some b \<Rightarrow> if ExtraBitsStored b = 0 then int (length (Elems b)) * 8
         else (int (length (Elems b)) - 1) * 8 + uint (ExtraBitsStored b))"

text \<open>The mask \<^verbatim>\<open>1 << uint8(7-(i%8))\<close> of a non-negative index.\<close>

definition index_mask :: "int \<Rightarrow> 8 word" where
  "index_mask i = push_bit (nat (7 - i mod 8)) 1"

definition GetIndex :: "compact_bit_array option \<Rightarrow> int \<Rightarrow> bool res" where
  "GetIndex bA i = (case bA of None \<Rightarrow> Inr False
     | Some b \<Rightarrow> if i < 0 \<or> i \<ge> Count bA then Inr False
         else if nat (i div 8) < length (Elems b) then Inr (Elems b ! nat (i div 8) AND index_mask i > 0)
         else Inl (Panic ''index out of range''))"

definition SetIndex :: "compact_bit_array option \<Rightarrow> int \<Rightarrow> bool \<Rightarrow> (compact_bit_array option \<times> bool) res" where
  "SetIndex bA i v = (case bA of None \<Rightarrow> Inr (bA, False)
     | Some b \<Rightarrow> if i < 0 \<or> i \<ge> Count bA then Inr (bA, False)
         else (let k = nat (i div 8) in
           if k < length (Elems b) then
             Inr (Some (b\<lparr>Elems := (Elems b)[k := if v then Elems b ! k OR index_mask i
                                             else Elems b ! k AND NOT (index_mask i)]\<rparr>), True)
           else Inl (Panic ''index out of range'')))"

definition OnesCount8 :: "8 word \<Rightarrow> int" where
  "OnesCount8 b = int (length (filter (bit b) [0..<8]))"

text \<open>
  Go's \<^verbatim>\<open>%\<close> takes the sign of the dividend, so the shift count \<^verbatim>\<open>7 - (index % 8) + 1\<close> is
  positive also for a negative index.
\<close>

fun NumTrueBits_loop :: "8 word list \<Rightarrow> int \<Rightarrow> int \<Rightarrow> int \<Rightarrow> int" where
  "NumTrueBits_loop [] elem index onesCount = onesCount"
| "NumTrueBits_loop (e # es) elem index onesCount =
     (if elem * 8 + 7 \<ge> index then onesCount + OnesCount8 (drop_bit (nat (7 - index smod 8 + 1)) e)
      else NumTrueBits_loop es (elem + 1) index (onesCount + OnesCount8 e))"

definition NumTrueBitsBefore :: "compact_bit_array option \<Rightarrow> int \<Rightarrow> int res" where
  "NumTrueBitsBefore bA index = (case bA of None \<Rightarrow> Inl (Panic ''nil pointer dereference'')
     | Some b \<Rightarrow> let maximum = Count bA; index = (if index > maximum then maximum else index) in
         Inr (NumTrueBits_loop (Elems b) 0 index 0))"

definition Copy :: "compact_bit_array option \<Rightarrow> compact_bit_array option" where
  "Copy bA = (case bA of None \<Rightarrow> None
     | Some b \<Rightarrow> Some \<lparr>ExtraBitsStored = ExtraBitsStored b, Elems = Elems b\<rparr>)"

definition BitArray_Equal :: "compact_bit_array option \<Rightarrow> compact_bit_array option \<Rightarrow> bool" where
  "BitArray_Equal bA other = (case (bA, other) of
     (None, None) \<Rightarrow> True | (None, Some _) \<Rightarrow> False | (Some _, None) \<Rightarrow> False
     | (Some a, Some b) \<Rightarrow> ExtraBitsStored a = ExtraBitsStored b \<and> Elems a = Elems b)"

section \<open>JSON\<close>

definition quote :: char where
  "quote = CHR 0x22"

definition MarshalJSON :: "compact_bit_array option \<Rightarrow> string res" where
  "MarshalJSON bA = (case bA of None \<Rightarrow> Inr ''null''
     | Some _ \<Rightarrow> bindR (mapR (\<lambda>i. bindR (GetIndex bA i) (\<lambda>x. Inr (if x then CHR ''x'' else CHR ''_'')))
         (map int [0..<nat (Count bA)])) (\<lambda>bits. Inr (quote # bits @ [quote])))"

text \<open>The submatch of the expression \<^verbatim>\<open>\A"([_x]*)"\z\<close>.\<close>

definition bitArrayJSON_match :: "string \<Rightarrow> string option" where
  "bitArrayJSON_match s = (if length s \<ge> 2 \<and> hd s = quote \<and> last s = quote \<and>
     list_all (\<lambda>c. c = CHR ''_'' \<or> c = CHR ''x'') (butlast (tl s)) then Some (butlast (tl s)) else None)"

definition UnmarshalJSON_step :: "string \<Rightarrow> nat \<Rightarrow> compact_bit_array option \<Rightarrow> compact_bit_array option res" where
  "UnmarshalJSON_step bits i bA2 = (if bits ! i = CHR ''x'' then
     bindR (SetIndex bA2 (int i) True) (\<lambda>(b, _). Inr b) else Inr bA2)"

text \<open>The result is what the receiver holds afterwards.\<close>

definition UnmarshalJSON :: "compact_bit_array \<Rightarrow> string \<Rightarrow> compact_bit_array res" where
  "UnmarshalJSON bA b = (if b = ''null'' then Inr (bA\<lparr>ExtraBitsStored := 0, Elems := []\<rparr>)
     else (case bitArrayJSON_match b of
       None \<Rightarrow> Inl (Err ''bitArray in JSON should be a string of format'')
     | Some bits \<Rightarrow> bindR (foldR (UnmarshalJSON_step bits) [0..<length bits]
           (NewCompactBitArray (int (length bits)))) (\<lambda>bA2.
         case bA2 of None \<Rightarrow> Inl (Panic ''nil pointer dereference'') | Some b2 \<Rightarrow> Inr b2)))"

section \<open>The compact encoding\<close>

function PutUvarint :: "64 word \<Rightarrow> 8 word list" where
  "PutUvarint x = (if x \<ge> 0x80 then (ucast x OR 0x80) # PutUvarint (drop_bit 7 x) else [ucast x])"
  by pat_completeness auto
termination
proof (relation "measure unat", goal_cases)
  case (2 x)
  then have "128 \<le> unat x" by (simp add: word_le_nat_alt)
  moreover have "unat (drop_bit 7 x) = unat x div 128"
    unfolding unat_drop_bit_eq by (simp add: drop_bit_eq_div)
  ultimately show ?case by simp
qed simp

declare PutUvarint.simps [simp del]

text \<open>\<^verbatim>\<open>binary.Uvarint\<close>: the value and the number of bytes read, which is negative on overflow.\<close>

fun Uvarint_loop :: "8 word list \<Rightarrow> nat \<Rightarrow> 64 word \<Rightarrow> nat \<Rightarrow> 64 word \<times> int" where
  "Uvarint_loop [] i x s = (0, 0)"
| "Uvarint_loop (b # bs) i x s =
     (if i = 10 then (0, - (int i + 1))
      else if b < 0x80 then
        (if i = 9 \<and> b > 1 then (0, - (int i + 1)) else (x OR push_bit s (ucast b), int i + 1))
      else Uvarint_loop bs (i + 1) (x OR push_bit s (ucast (b AND 0x7f))) (s + 7))"

definition Uvarint :: "8 word list \<Rightarrow> 64 word \<times> int" where
  "Uvarint bz = Uvarint_loop bz 0 0 0"

definition null_bytes :: "8 word list" where
  "null_bytes = [0x6e, 0x75, 0x6c, 0x6c]"

definition CompactMarshal :: "compact_bit_array option \<Rightarrow> 8 word list" where
  "CompactMarshal bA = (let size = Count bA in
     if size \<le> 0 then null_bytes
     else PutUvarint (word_of_int size) @ (case bA of None \<Rightarrow> [] | Some b \<Rightarrow> Elems b))"

definition CompactUnmarshal :: "8 word list \<Rightarrow> compact_bit_array option res" where
  "CompactUnmarshal bz =
     (if length bz < 2 then Inl (Err ''compact bit array: invalid compact unmarshal size'')
      else if bz = null_bytes then Inr (NewCompactBitArray 0)
      else (let (size, n) = Uvarint bz in
        if n < 0 \<or> n \<ge> int (length bz) then Inl (Err ''compact bit array: n is out of range of len(bz)'')
        else (let bz' = drop (nat n) bz in
          if int (length bz') \<noteq> wrap64 (uint (size + 7)) sdiv 8
          then Inl (Err ''compact bit array: invalid compact unmarshal size'')
          else Inr (Some \<lparr>ExtraBitsStored = ucast (size mod 8), Elems = bz'\<rparr>))))"

section \<open>The sequence of bits\<close>

definition byte_bits :: "8 word \<Rightarrow> bool list" where
  "byte_bits e = map (\<lambda>j. bit e (7 - j)) [0..<8]"

definition all_bits :: "8 word list \<Rightarrow> bool list" where
  "all_bits es = concat (map byte_bits es)"

definition bits_of :: "compact_bit_array \<Rightarrow> bool list" where
  "bits_of b = take (nat (Count (Some b))) (all_bits (Elems b))"

text \<open>
  What \<^verbatim>\<open>NewCompactBitArray\<close> and \<^verbatim>\<open>CompactUnmarshal\<close> build: at least one byte, no more than the
  constructor allows, and the number of extra bits below eight.
\<close>

definition wf_array :: "compact_bit_array \<Rightarrow> bool" where
  "wf_array b \<longleftrightarrow> Elems b \<noteq> [] \<and> length (Elems b) \<le> 2147483647 \<and> ExtraBitsStored b < 8"

definition trues :: "bool list \<Rightarrow> nat" where
  "trues bs = length (filter id bs)"

lemma trues_append [simp]: "trues (xs @ ys) = trues xs + trues ys"
  by (simp add: trues_def)

lemma byte_bits_length [simp]: "length (byte_bits e) = 8"
  by (simp add: byte_bits_def)

lemma all_bits_simps [simp]: "all_bits [] = []" "all_bits (e # es) = byte_bits e @ all_bits es"
  by (simp_all add: all_bits_def)

lemma all_bits_length [simp]: "length (all_bits es) = 8 * length es"
  by (induction es) simp_all

lemma all_bits_nth:
  "i < 8 * length es \<Longrightarrow> all_bits es ! i = bit (es ! (i div 8)) (7 - i mod 8)"
proof (induction es arbitrary: i)
  case (Cons e es)
  show ?case
  proof (cases "i < 8")
    case True
    then show ?thesis by (simp add: nth_append byte_bits_def)
  next
    case False
    then obtain k where k: "i = k + 8" by (metis add.commute le_Suc_ex not_less)
    moreover have "(k + 8) div 8 = Suc (k div 8)" by simp
    ultimately show ?thesis using Cons.prems Cons.IH [of k] by (simp add: nth_append)
  qed
qed simp

lemma extra_arith:
  assumes "0 < n" and "0 < e" and "e < (8::int)"
  shows "0 < (n - 1) * 8 + e" and "((n - 1) * 8 + e + 7) div 8 = n" and "((n - 1) * 8 + e) mod 8 = e"
  using assms by presburger+

lemma Count_wf:
  assumes "wf_array b"
  shows "0 < Count (Some b)" and "Count (Some b) \<le> 8 * int (length (Elems b))"
    and "(Count (Some b) + 7) div 8 = int (length (Elems b))" and "Count (Some b) mod 8 = uint (ExtraBitsStored b)"
proof -
  have e: "uint (ExtraBitsStored b) < 8" using assms by (simp add: wf_array_def word_less_def)
  have z: "ExtraBitsStored b = 0 \<longleftrightarrow> uint (ExtraBitsStored b) = 0" by (simp add: uint_0_iff)
  have l: "0 < int (length (Elems b))" using assms by (simp add: wf_array_def)
  have p: "0 \<le> uint (ExtraBitsStored b)" by simp
  show "0 < Count (Some b)" "Count (Some b) \<le> 8 * int (length (Elems b))"
    "(Count (Some b) + 7) div 8 = int (length (Elems b))" "Count (Some b) mod 8 = uint (ExtraBitsStored b)"
    using e z l p extra_arith [OF l _ e] by (auto simp: Count_def order_less_le)
qed

lemma bits_of_length: "wf_array b \<Longrightarrow> length (bits_of b) = nat (Count (Some b))"
  using Count_wf(2) [of b] by (simp add: bits_of_def)

lemma bits_of_nth:
  assumes "wf_array b" and "i < length (bits_of b)"
  shows "bits_of b ! i = bit (Elems b ! (i div 8)) (7 - i mod 8)" and "i div 8 < length (Elems b)"
proof -
  have "i < 8 * length (Elems b)" using assms Count_wf(2) [OF assms(1)] by (simp add: bits_of_def)
  then show "bits_of b ! i = bit (Elems b ! (i div 8)) (7 - i mod 8)" "i div 8 < length (Elems b)"
    using assms(2) by (auto simp: bits_of_def all_bits_nth)
qed

lemma index_mask_eq: "index_mask (int i) = 2 ^ (7 - i mod 8)"
proof -
  have "nat (7 - int i mod 8) = 7 - i mod 8" by (simp add: nat_diff_distrib nat_mod_distrib)
  then show ?thesis by (simp add: index_mask_def push_bit_eq_mult)
qed

lemma mask_test: "w AND index_mask (int i) > 0 \<longleftrightarrow> bit w (7 - i mod 8)"
  by (simp add: index_mask_eq word_gt_0 and_exp_eq_0_iff_not_bit)

lemma nat_index: "nat (int i div 8) = i div 8"
  by (simp add: nat_div_distrib)

lemma GetIndex_eq:
  assumes "wf_array b"
  shows "GetIndex (Some b) i = Inr (0 \<le> i \<and> i < Count (Some b) \<and> bits_of b ! nat i)"
proof (cases "0 \<le> i \<and> i < Count (Some b)")
  case True
  then obtain k where k: "i = int k" by (metis nonneg_int_cases)
  have "k < length (bits_of b)" using True k by (simp add: bits_of_length [OF assms])
  from bits_of_nth [OF assms this] True show ?thesis
    by (simp add: GetIndex_def k mask_test nat_index)
qed (auto simp: GetIndex_def)

lemma bit_set_mask:
  assumes "n < 8" and "m < 8"
  shows "bit ((w :: 8 word) OR 2 ^ n) m \<longleftrightarrow> bit w m \<or> m = n" and "bit (w AND NOT (2 ^ n)) m \<longleftrightarrow> bit w m \<and> m \<noteq> n"
  using assms by (auto simp: bit_simps)

lemma SetIndex_eq:
  assumes "wf_array b" and "k < length (bits_of b)"
  obtains b' where "SetIndex (Some b) (int k) v = Inr (Some b', True)" and "wf_array b'"
    and "Count (Some b') = Count (Some b)" and "bits_of b' = (bits_of b)[k := v]"
proof -
  let ?k = "k div 8"
  let ?e = "if v then Elems b ! ?k OR index_mask (int k) else Elems b ! ?k AND NOT (index_mask (int k))"
  let ?b = "b\<lparr>Elems := (Elems b)[?k := ?e]\<rparr>"
  have in_range: "int k < Count (Some b)" using assms by (simp add: bits_of_length)
  have len: "?k < length (Elems b)" by (rule bits_of_nth [OF assms])
  have s: "SetIndex (Some b) (int k) v = Inr (Some ?b, True)"
    using in_range len by (auto simp: SetIndex_def Let_def nat_index)
  have w: "wf_array ?b" using assms(1) by (simp add: wf_array_def)
  have c: "Count (Some ?b) = Count (Some b)" by (simp add: Count_def)
  have bl: "length (bits_of ?b) = length (bits_of b)" using bits_of_length [OF w] bits_of_length [OF assms(1)] c by simp
  have "bits_of ?b ! i = (bits_of b)[k := v] ! i" if "i < length (bits_of b)" for i
  proof -
    have e: "bits_of ?b ! i = bit (Elems ?b ! (i div 8)) (7 - i mod 8)"
      "bits_of b ! i = bit (Elems b ! (i div 8)) (7 - i mod 8)"
      using bits_of_nth(1) [OF w] bits_of_nth(1) [OF assms(1) that] that bl by auto
    have lt: "7 - i mod 8 < 8" "7 - k mod 8 < 8" by simp_all
    show ?thesis
    proof (cases "i div 8 = ?k")
      case True
      have eq: "7 - i mod 8 = 7 - k mod 8 \<longleftrightarrow> i = k"
      proof
        assume a: "7 - i mod 8 = 7 - k mod 8"
        have "i mod 8 < 8" "k mod 8 < 8" by simp_all
        with a have "i mod 8 = k mod 8" by linarith
        with True show "i = k" by (metis div_mult_mod_eq)
      qed simp
      have "bits_of ?b ! i = bit ?e (7 - i mod 8)" using e(1) True len by simp
      also have "\<dots> \<longleftrightarrow> (if i = k then v else bits_of b ! i)"
        unfolding e(2) True index_mask_eq using bit_set_mask [OF lt(2,1), of "Elems b ! ?k"]
        by (cases v) (simp_all only: eq if_True if_False, auto)
      finally show ?thesis using that by (simp add: nth_list_update)
    next
      case False
      then have "i \<noteq> k" by auto
      with e False show ?thesis by simp
    qed
  qed
  then have "bits_of ?b = (bits_of b)[k := v]" using bl by (intro nth_equalityI) simp_all
  with that s w c show ?thesis by blast
qed

section \<open>Counting\<close>

lemma trues_sum: "trues bs = sum_list (map of_bool bs)"
  by (induction bs) (simp_all add: trues_def)

lemma OnesCount8_eq: "OnesCount8 e = int (trues (byte_bits e))"
proof -
  have "map (\<lambda>j. 7 - j) [0..<8] = rev [0..<8::nat]" by code_simp
  moreover have "byte_bits e = map (bit e) (map (\<lambda>j. 7 - j) [0..<8])"
    by (simp only: byte_bits_def map_map comp_def)
  ultimately have "byte_bits e = map (bit e) (rev [0..<8])" by (simp only:)
  then show ?thesis by (simp add: OnesCount8_def trues_def filter_map comp_def rev_filter [symmetric] del: upt_Suc)
qed

lemma smod_nonneg: "0 \<le> a \<Longrightarrow> 0 < b \<Longrightarrow> (a::int) smod b = a mod b"
  by (cases "a = 0") (auto simp: signed_modulo_int_def)

lemma smod_nonpos: "a \<le> 0 \<Longrightarrow> 0 < b \<Longrightarrow> (a::int) smod b \<le> 0"
  by (simp add: signed_modulo_int_def sgn_if)

lemma byte_bits_drop:
  "j \<le> 8 \<Longrightarrow> byte_bits (drop_bit (8 - j) e) = replicate (8 - j) False @ take j (byte_bits e)"
  by (rule nth_equalityI) (auto simp: byte_bits_def nth_append bit_simps dest: bit_imp_le_length)

lemma trues_replicate [simp]: "trues (replicate n False) = 0"
  by (simp add: trues_def)

lemma NumTrueBits_loop_eq:
  assumes "8 * k \<le> idx" and "0 \<le> k"
  shows "NumTrueBits_loop es k idx c = c + int (trues (take (nat (idx - 8 * k)) (all_bits es)))"
  using assms
proof (induction es arbitrary: k c)
  case Nil
  then show ?case by (simp add: trues_def)
next
  case (Cons e es)
  show ?case
  proof (cases "idx \<le> k * 8 + 7")
    case True
    define j where "j = nat (idx - 8 * k)"
    have j: "j < 8" "idx = 8 * k + int j" using True Cons.prems by (auto simp: j_def)
    have "idx smod 8 = int j" using j Cons.prems by (simp add: smod_nonneg)
    moreover have "nat (7 - int j + 1) = 8 - j" using j(1) by linarith
    ultimately have "NumTrueBits_loop (e # es) k idx c = c + int (trues (take j (byte_bits e)))"
      using True j(1) by (simp add: OnesCount8_eq byte_bits_drop del: upt_Suc)
    then show ?thesis using j by simp
  next
    case False
    then have n: "nat (idx - 8 * k) = 8 + nat (idx - 8 * (k + 1))" by simp
    have "NumTrueBits_loop (e # es) k idx c =
        c + OnesCount8 e + int (trues (take (nat (idx - 8 * (k + 1))) (all_bits es)))"
      using False Cons.IH [of "k + 1"] Cons.prems by simp
    then show ?thesis unfolding n by (simp add: OnesCount8_eq)
  qed
qed

lemma NumTrueBits_negative:
  assumes "idx \<le> 0"
  shows "NumTrueBits_loop es 0 idx 0 = 0"
proof (cases es)
  case (Cons e es')
  have "idx smod 8 \<le> 0" using assms by (simp add: smod_nonpos)
  then have "8 \<le> nat (7 - idx smod 8 + 1)" by linarith
  then have "drop_bit (nat (7 - idx smod 8 + 1)) e = 0"
    by (intro bit_word_eqI) (auto simp: bit_simps dest: bit_imp_le_length)
  then show ?thesis using assms Cons by (simp add: OnesCount8_def)
qed simp

lemma NumTrueBitsBefore_eq:
  assumes "wf_array b"
  shows "NumTrueBitsBefore (Some b) i = Inr (int (trues (take (nat i) (bits_of b))))"
proof -
  have m: "take (nat i) (bits_of b) = take (nat (min i (Count (Some b)))) (all_bits (Elems b))"
    by (simp add: bits_of_def min_def)
  show ?thesis
  proof (cases "0 \<le> i")
    case True
    have "NumTrueBitsBefore (Some b) i = Inr (NumTrueBits_loop (Elems b) 0 (min i (Count (Some b))) 0)"
      by (simp add: NumTrueBitsBefore_def Let_def min_def)
    then show ?thesis
      using True NumTrueBits_loop_eq [of 0 "min i (Count (Some b))" "Elems b" 0] Count_wf(1) [OF assms] m
      by simp
  next
    case False
    then show ?thesis using NumTrueBits_negative [of i "Elems b"] Count_wf(1) [OF assms]
      by (simp add: NumTrueBitsBefore_def Let_def trues_def)
  qed
qed

section \<open>Encodings\<close>

lemma div_mod_unique: "(a + 7) div 8 = (b + 7) div 8 \<Longrightarrow> a mod 8 = b mod 8 \<Longrightarrow> a = (b::int)"
proof -
  assume d: "(a + 7) div 8 = (b + 7) div 8" and "a mod 8 = b mod 8"
  then have "(a + 7) mod 8 = (b + 7) mod 8" by (intro mod_add_cong) simp_all
  with d have "a + 7 = b + 7" by (metis div_mult_mod_eq)
  then show ?thesis by simp
qed

lemma New_eq:
  assumes "0 < n" and "n \<le> 8 * 2147483647"
  obtains b where "NewCompactBitArray (int n) = Some b" and "wf_array b" and "Count (Some b) = int n"
    and "bits_of b = replicate n False"
proof -
  have w: "wrap64 (int n + 7) = int n + 7" using assms by (intro wrap64_id) auto
  have d: "(int n + 7) sdiv 8 = int ((n + 7) div 8)" by (simp add: sdiv_nonneg zdiv_int)
  let ?b = "\<lparr>ExtraBitsStored = word_of_int (int n mod 8), Elems = replicate ((n + 7) div 8) 0\<rparr>"
  have l: "0 < (n + 7) div 8" "(n + 7) div 8 \<le> 2147483647" using assms by simp_all
  have u: "uint (word_of_int (int n mod 8) :: 32 word) = int n mod 8"
    by (simp add: uint_word_of_int_eq take_bit_eq_mod)
  have wf: "wf_array ?b" using l u by (simp add: wf_array_def word_less_def)
  have c: "Count (Some ?b) = int n"
  proof (rule div_mod_unique)
    show "(Count (Some ?b) + 7) div 8 = (int n + 7) div 8"
      using Count_wf(3) [OF wf] by (simp add: zdiv_int)
    show "Count (Some ?b) mod 8 = int n mod 8" using Count_wf(4) [OF wf] u by simp
  qed
  have "bits_of ?b = replicate n False"
  proof (rule nth_equalityI)
    show "length (bits_of ?b) = length (replicate n False)" using bits_of_length [OF wf] c by simp
    fix i assume i: "i < length (bits_of ?b)"
    with bits_of_nth [OF wf i] show "bits_of ?b ! i = replicate n False ! i"
      using bits_of_length [OF wf] c by simp
  qed
  moreover have "NewCompactBitArray (int n) = Some ?b"
    using assms(1) w d l by (simp add: NewCompactBitArray_def Let_def)
  ultimately show ?thesis using that wf c by blast
qed

definition bit_char :: "bool \<Rightarrow> char" where
  "bit_char x = (if x then CHR ''x'' else CHR ''_'')"

lemma bit_char_iff [simp]: "bit_char x = CHR ''x'' \<longleftrightarrow> x" "bit_char x = CHR ''_'' \<longleftrightarrow> \<not> x"
  by (auto simp: bit_char_def)

lemma MarshalJSON_eq:
  assumes "wf_array b"
  shows "MarshalJSON (Some b) = Inr (quote # map bit_char (bits_of b) @ [quote])"
proof -
  let ?n = "nat (Count (Some b))"
  have "mapR (\<lambda>i. bindR (GetIndex (Some b) i) (\<lambda>x. Inr (if x then CHR ''x'' else CHR ''_''))) (map int [0..<?n])
      = Inr (map (\<lambda>i. bit_char (bits_of b ! nat i)) (map int [0..<?n]))"
    by (rule mapR_eq_map) (auto simp: GetIndex_eq [OF assms] bit_char_def)
  moreover have "map (\<lambda>i. bit_char (bits_of b ! nat i)) (map int [0..<?n]) = map bit_char (bits_of b)"
    by (rule nth_equalityI) (simp_all add: bits_of_length [OF assms])
  ultimately show ?thesis by (simp add: MarshalJSON_def)
qed

lemma UnmarshalJSON_loop:
  assumes "wf_array b0" and "bits_of b0 = replicate (length bs) False" and "m \<le> length bs"
  shows "\<exists>b. foldR (UnmarshalJSON_step (map bit_char bs)) [0..<m] (Some b0) = Inr (Some b) \<and>
    wf_array b \<and> bits_of b = take m bs @ replicate (length bs - m) False"
  using assms(3)
proof (induction m)
  case 0
  then show ?case using assms(1,2) by simp
next
  case (Suc m)
  then obtain b where b: "foldR (UnmarshalJSON_step (map bit_char bs)) [0..<m] (Some b0) = Inr (Some b)"
    "wf_array b" "bits_of b = take m bs @ replicate (length bs - m) False" by auto
  have m: "m < length (bits_of b)" using Suc.prems b(3) by simp
  have split: "take (Suc m) bs = take m bs @ [bs ! m]" using Suc.prems by (simp add: take_Suc_conv_app_nth)
  have rep: "replicate (length bs - m) False = False # replicate (length bs - Suc m) False"
    using Suc.prems by (metis Suc_diff_Suc Suc_le_lessD replicate_Suc)
  have upd: "(bits_of b)[m := v] = take m bs @ v # replicate (length bs - Suc m) False" for v
    using Suc.prems unfolding b(3) rep by (simp add: list_update_append)
  show ?case
  proof (cases "bs ! m")
    case True
    obtain b' where "SetIndex (Some b) (int m) True = Inr (Some b', True)" "wf_array b'"
      "bits_of b' = (bits_of b)[m := True]"
      using SetIndex_eq [OF b(2) m, of True] by blast
    with True Suc.prems show ?thesis
      by (simp add: foldR_append b(1) UnmarshalJSON_step_def [of _ m] upd split)
  next
    case False
    with Suc.prems b show ?thesis
      by (simp add: foldR_append UnmarshalJSON_step_def [of _ m] split rep)
  qed
qed

lemma JSON_match_eq: "bitArrayJSON_match (quote # map bit_char bs @ [quote]) = Some (map bit_char bs)"
  by (simp add: bitArrayJSON_match_def list_all_iff butlast_append)

lemma UnmarshalJSON_eq:
  assumes "bs \<noteq> []" and "length bs \<le> 8 * 2147483647"
  shows "\<exists>b. UnmarshalJSON r (quote # map bit_char bs @ [quote]) = Inr b \<and> wf_array b \<and> bits_of b = bs"
proof -
  obtain b0 where b0: "NewCompactBitArray (int (length bs)) = Some b0" "wf_array b0"
    "bits_of b0 = replicate (length bs) False"
    using New_eq [of "length bs"] assms by auto
  obtain b where "foldR (UnmarshalJSON_step (map bit_char bs)) [0..<length bs] (Some b0) = Inr (Some b)"
    "wf_array b" "bits_of b = bs"
    using UnmarshalJSON_loop [OF b0(2,3) order_refl] by auto
  moreover have "quote \<noteq> CHR ''n''" by (simp add: quote_def)
  ultimately show ?thesis using b0(1) by (simp add: UnmarshalJSON_def JSON_match_eq)
qed

lemma split_low7: "push_bit s (ucast ((ucast y OR 0x80 :: 8 word) AND 0x7f)) OR push_bit (s + 7) (drop_bit 7 y) = push_bit s (y :: 64 word)"
proof -
  define h :: "8 word" where "h = 0x80"
  have m: "(0x7f :: 8 word) = mask 7" and h: "h = 2 ^ 7" by (simp_all add: mask_eq_exp_minus_1 h_def)
  have t: "bit h n \<longleftrightarrow> n = 7" for n unfolding h by (simp only: bit_exp_iff) auto
  have low: "ucast ((ucast y OR 0x80 :: 8 word) AND 0x7f) = take_bit 7 y"
    unfolding m h_def [symmetric] by (rule bit_word_eqI) (auto simp: bit_simps t)
  have e: "take_bit 7 y OR push_bit 7 (drop_bit 7 y) = y"
  proof (rule bit_word_eqI)
    fix n assume "n < LENGTH(64)"
    then show "bit (take_bit 7 y OR push_bit 7 (drop_bit 7 y)) n = bit y n"
      by (cases "n < 7") (auto simp: bit_simps)
  qed
  have "push_bit s (take_bit 7 y) OR push_bit (s + 7) (drop_bit 7 y) =
      push_bit s (take_bit 7 y OR push_bit 7 (drop_bit 7 y))"
    by (simp only: push_bit_or push_bit_push_bit)
  then show ?thesis unfolding low e .
qed

lemma Uvarint_loop_PutUvarint:
  assumes "i \<le> 9" and "unat y < 2 ^ (64 - 7 * i)"
  shows "Uvarint_loop (PutUvarint y @ rest) i x (7 * i) =
    (x OR push_bit (7 * i) y, int i + int (length (PutUvarint y)))"
  using assms
proof (induction y arbitrary: i x rule: PutUvarint.induct)
  case (1 y)
  show ?case
  proof (cases "y \<ge> 0x80")
    case True
    have y: "128 \<le> unat y" using True by (simp add: word_le_nat_alt)
    have i: "i < 9"
    proof (rule ccontr)
      assume "\<not> i < 9"
      with "1.prems" have "i = 9" by simp
      with "1.prems" y show False by simp
    qed
    have d: "unat (drop_bit 7 y) = unat y div 128" unfolding unat_drop_bit_eq by (simp add: drop_bit_eq_div)
    have e: "64 - 7 * i = 7 + (64 - 7 * (i + 1))" using i by simp
    have "unat y < 128 * 2 ^ (64 - 7 * (i + 1))" using "1.prems"(2) unfolding e power_add by simp
    then have lt: "unat (drop_bit 7 y) < 2 ^ (64 - 7 * (i + 1))" unfolding d by (simp add: div_less_iff_less_mult mult.commute)
    have b: "\<not> (ucast y OR 0x80 :: 8 word) < 0x80"
    proof -
      have "uint (0x80 :: 8 word) \<le> uint (0x80 OR ucast y :: 8 word)"
        unfolding unsigned_or_eq by (rule or_greater_eq) simp
      then show ?thesis by (simp add: word_less_def or.commute)
    qed
    have p: "PutUvarint y = (ucast y OR 0x80) # PutUvarint (drop_bit 7 y)" using True by (simp add: PutUvarint.simps [of y])
    show ?thesis
      using "1.IH" [OF True, of "i + 1"] lt i b
      by (simp add: p split_low7 [of "7 * i" y] or.assoc add.commute [of 7])
  next
    case False
    have y: "unat y < 128" using False by (simp add: word_le_nat_alt)
    have p: "PutUvarint y = [ucast y]" using False by (simp add: PutUvarint.simps [of y])
    have u: "unat (ucast y :: 8 word) = unat y" using y by (simp add: unsigned_ucast_eq take_bit_eq_mod)
    have "(ucast y :: 8 word) < 0x80" using y u by (simp add: word_less_nat_alt)
    moreover have "\<not> (ucast y :: 8 word) > 1" if "i = 9" using "1.prems" u that by (simp add: word_less_nat_alt)
    moreover have "ucast (ucast y :: 8 word) = y"
    proof -
      have "unat (ucast (ucast y :: 8 word) :: 64 word) = unat (ucast y :: 8 word)"
        by (simp add: unsigned_ucast_eq unsigned_take_bit_eq)
      then show ?thesis using u by (simp only: word_unat_eq_iff)
    qed
    ultimately show ?thesis using "1.prems"(1) by (auto simp: p)
  qed
qed

lemma Uvarint_PutUvarint: "Uvarint (PutUvarint x @ rest) = (x, int (length (PutUvarint x)))"
  using Uvarint_loop_PutUvarint [of 0 x rest 0] unsigned_less [of x] by (simp add: Uvarint_def)

lemma PutUvarint_nonempty: "0 < length (PutUvarint x)"
  by (simp add: PutUvarint.simps [of x])

lemma Compact_roundtrip:
  assumes "wf_array b"
  shows "CompactUnmarshal (CompactMarshal (Some b)) = Inr (Some b)"
proof -
  note c = Count_wf [OF assms]
  have l: "length (Elems b) \<le> 2147483647" "0 < length (Elems b)" using assms by (auto simp: wf_array_def)
  define size where "size = (word_of_int (Count (Some b)) :: 64 word)"
  have cb: "Count (Some b) \<le> 8 * 2147483647" using c(2) l(1) by linarith
  have us: "uint size = Count (Some b)" using c(1) cb by (simp add: size_def uint_word_of_int_eq take_bit_eq_mod)
  have us7: "uint (size + 7) = Count (Some b) + 7"
    using c(1) cb us by (simp add: uint_word_ariths take_bit_eq_mod)
  have w: "wrap64 (uint (size + 7)) sdiv 8 = int (length (Elems b))"
    using c(1,3) cb by (simp add: us7 wrap64_id sdiv_nonneg)
  have m: "CompactMarshal (Some b) = PutUvarint size @ Elems b"
    using c(1) by (simp add: CompactMarshal_def Let_def size_def)
  have u: "Uvarint (PutUvarint size @ Elems b) = (size, int (length (PutUvarint size)))" by (rule Uvarint_PutUvarint)
  have nn: "PutUvarint size @ Elems b \<noteq> null_bytes"
  proof
    assume a: "PutUvarint size @ Elems b = null_bytes"
    have "Uvarint null_bytes = (0x6e, 1)" by code_simp
    with u a have "size = 0x6e" by simp
    then have "uint size = 110" by simp
    with us c(3) have "length (Elems b) = 14" by simp
    moreover have "length (PutUvarint size @ Elems b) = 4" using a by (simp add: null_bytes_def)
    ultimately show False by simp
  qed
  have e: "ucast (size mod 8) = ExtraBitsStored b"
  proof -
    have "uint (size mod 8) = uint (ExtraBitsStored b)" using us c(4) by (simp add: uint_mod)
    moreover have "uint (ExtraBitsStored b) < 2 ^ 32" using uint_lt2p [of "ExtraBitsStored b"] by simp
    ultimately show ?thesis by (simp add: word_uint_eq_iff unsigned_ucast_eq take_bit_eq_mod)
  qed
  have "\<not> length (PutUvarint size @ Elems b) < 2"
    using PutUvarint_nonempty [of size] l(2) unfolding length_append by linarith
  then show ?thesis using nn w e l(2) by (simp add: m CompactUnmarshal_def u)
qed

section \<open>Properties\<close>

definition ex_array :: compact_bit_array where
  "ex_array = \<lparr>ExtraBitsStored = 3, Elems = [0xA1, 0x40]\<rparr>"

lemma ex_array_wf: "wf_array ex_array"
  by (simp add: wf_array_def ex_array_def)

text \<open>C36: \<^verbatim>\<open>SetIndex\<close> and \<^verbatim>\<open>GetIndex\<close> read and write exactly one bit of the sequence: on a well-formed
  array a write in range returns true, keeps the array well formed and of the same length,
  and changes that bit and no other; a read gives the bit; out of range both report false and
  the array stays as it was.\<close>

theorem SetIndex_GetIndex_correct:
  assumes "wf_array b"
  shows "(if 0 \<le> i \<and> i < Count (Some b)
    then (\<exists>b'. SetIndex (Some b) i v = Inr (Some b', True) \<and> wf_array b' \<and>
      Count (Some b') = Count (Some b) \<and> bits_of b' = (bits_of b)[nat i := v] \<and>
      (\<forall>k. GetIndex (Some b') k = (if k = i then Inr v else GetIndex (Some b) k)))
    else SetIndex (Some b) i v = Inr (Some b, False) \<and> GetIndex (Some b) i = Inr False)"
proof (cases "0 \<le> i \<and> i < Count (Some b)")
  case True
  then obtain k where k: "i = int k" by (metis nonneg_int_cases)
  have l: "k < length (bits_of b)" using True k by (simp add: bits_of_length [OF assms])
  obtain b' where b': "SetIndex (Some b) (int k) v = Inr (Some b', True)" "wf_array b'"
    "Count (Some b') = Count (Some b)" "bits_of b' = (bits_of b)[k := v]"
    using SetIndex_eq [OF assms l, of v] .
  have "GetIndex (Some b') j = (if j = i then Inr v else GetIndex (Some b) j)" for j
    using True l k b'(3,4) by (auto simp: GetIndex_eq assms b'(2) nth_list_update nat_eq_iff)
  with b' True k show ?thesis by auto
qed (auto simp: SetIndex_def GetIndex_def)

theorem SetIndex_GetIndex_correct_witness:
  "\<exists>b'. SetIndex (Some ex_array) 9 False = Inr (Some b', True) \<and> wf_array b' \<and>
      Count (Some b') = Count (Some ex_array) \<and> bits_of b' = (bits_of ex_array)[9 := False] \<and>
      (\<forall>k. GetIndex (Some b') k = (if k = 9 then Inr False else GetIndex (Some ex_array) k))"
proof -
  have "Count (Some ex_array) = 11" by code_simp
  then show ?thesis using SetIndex_GetIndex_correct [OF ex_array_wf, of 9 False] by simp
qed

text \<open>C35: \<^verbatim>\<open>NumTrueBitsBefore\<close>, which counts bytes first and then a shifted byte, returns the number
  of bits set before the index (all of them past the end, none for a negative index).\<close>

theorem NumTrueBitsBefore_correct:
  assumes "wf_array b"
  shows "NumTrueBitsBefore (Some b) i = Inr (int (length (filter id (take (nat i) (bits_of b)))))"
  using NumTrueBitsBefore_eq [OF assms] by (simp add: trues_def)

theorem NumTrueBitsBefore_correct_witness:
  "NumTrueBitsBefore (Some ex_array) 9 = Inr 3"
  unfolding NumTrueBitsBefore_correct [OF ex_array_wf] by code_simp

text \<open>C33: encoding a well-formed array with \<^verbatim>\<open>CompactMarshal\<close> and decoding the bytes with
  \<^verbatim>\<open>CompactUnmarshal\<close> gives the same array.\<close>

theorem CompactMarshal_roundtrip:
  assumes "wf_array b"
  shows "CompactUnmarshal (CompactMarshal (Some b)) = Inr (Some b)"
  by (rule Compact_roundtrip [OF assms])

theorem CompactMarshal_roundtrip_witness:
  "CompactUnmarshal (CompactMarshal (Some ex_array)) = Inr (Some ex_array)"
  by (rule CompactMarshal_roundtrip [OF ex_array_wf])

text \<open>C34: the JSON form of a well-formed array decodes to an array with the same bits.\<close>

theorem JSON_roundtrip:
  assumes "wf_array b"
  shows "\<exists>s b'. MarshalJSON (Some b) = Inr s \<and> UnmarshalJSON r s = Inr b' \<and>
    wf_array b' \<and> bits_of b' = bits_of b"
proof -
  have "bits_of b \<noteq> []" "length (bits_of b) \<le> 8 * 2147483647"
    using Count_wf(1,2) [OF assms] assms bits_of_length [OF assms] by (auto simp: wf_array_def)
  from UnmarshalJSON_eq [OF this] MarshalJSON_eq [OF assms] show ?thesis by blast
qed

theorem JSON_roundtrip_witness:
  "\<exists>s b'. MarshalJSON (Some ex_array) = Inr s \<and> UnmarshalJSON \<lparr>ExtraBitsStored = 0, Elems = []\<rparr> s = Inr b' \<and>
    wf_array b' \<and> bits_of b' = bits_of ex_array"
  by (rule JSON_roundtrip [OF ex_array_wf])


end
