(* ===== verification/Accounts.thy ===== *)
theory Accounts
  imports SdkMath
begin

text \<open>
  Addresses and accounts: the account address of \<^verbatim>\<open>types/address.go\<close> with its bech32 form
  (\<^verbatim>\<open>types/bech32\<close>), the base and module accounts of \<^verbatim>\<open>x/auth/types/account.go\<close> and the
  permissions of \<^verbatim>\<open>x/auth/types/permissions.go\<close>. Address bytes are a \<^typ>\<open>string\<close>. The
  bech32 codec, the address hash and the address of a public key belong to libraries outside
  the repository; they are the fields of the parameter \<open>addr_ops\<close>, and what the accounts rely
  on is the locale \<open>addr_codec\<close>.
\<close>

section \<open>Addresses\<close>

record addr_ops =
  lib_ConvertBits :: "string \<Rightarrow> nat \<Rightarrow> nat \<Rightarrow> bool \<Rightarrow> string res"
  lib_Encode :: "string \<Rightarrow> string \<Rightarrow> string res"
  lib_Decode :: "string \<Rightarrow> nat \<Rightarrow> (string \<times> string) res"
  crypto_AddressHash :: "string \<Rightarrow> string"
  PubKey_Address :: "string \<Rightarrow> string"
  Bech32AccountAddrPrefix :: string

definition ConvertAndEncode :: "addr_ops \<Rightarrow> string \<Rightarrow> string \<Rightarrow> string res" where
  "ConvertAndEncode A hrp data = bindR (lib_ConvertBits A data 8 5 True) (\<lambda>converted. lib_Encode A hrp converted)"

definition DecodeAndConvert :: "addr_ops \<Rightarrow> string \<Rightarrow> (string \<times> string) res" where
  "DecodeAndConvert A bech = bindR (lib_Decode A bech 1023) (\<lambda>(hrp, data).
     bindR (lib_ConvertBits A data 5 8 False) (\<lambda>converted. Inr (hrp, converted)))"

text \<open>\<^verbatim>\<open>strings.TrimSpace\<close> on single-byte characters.\<close>

definition is_space :: "char \<Rightarrow> bool" where
  "is_space c \<longleftrightarrow> of_char c \<in> {9, 10, 11, 12, 13, 32 :: nat}"

definition TrimSpace :: "string \<Rightarrow> string" where
  "TrimSpace s = rev (dropWhile is_space (rev (dropWhile is_space s)))"

definition MaxAddrLen :: nat where
  "MaxAddrLen = 255"

definition VerifyAddressFormat :: "string \<Rightarrow> unit res" where
  "VerifyAddressFormat bz = (if bz = [] then Inl (Err ''addresses cannot be empty'')
     else if length bz > MaxAddrLen then Inl (Err ''address max length'') else Inr ())"

definition GetFromBech32 :: "addr_ops \<Rightarrow> string \<Rightarrow> string \<Rightarrow> string res" where
  "GetFromBech32 A bech32str prefix = (if bech32str = [] then Inl (Err ''decoding Bech32 address failed'')
     else bindR (DecodeAndConvert A bech32str) (\<lambda>(hrp, bz).
       if hrp \<noteq> prefix then Inl (Err ''invalid Bech32 prefix'') else Inr bz))"

definition AccAddressFromBech32 :: "addr_ops \<Rightarrow> string \<Rightarrow> string res" where
  "AccAddressFromBech32 A address =
     (if TrimSpace address = [] then Inl (Err ''empty address string is not allowed'')
      else bindR (GetFromBech32 A address (Bech32AccountAddrPrefix A)) (\<lambda>bz.
        bindR (VerifyAddressFormat bz) (\<lambda>_. Inr bz)))"

definition MustAccAddressFromBech32 :: "addr_ops \<Rightarrow> string \<Rightarrow> string res" where
  "MustAccAddressFromBech32 A address = must (AccAddressFromBech32 A address)"

definition AccAddress_String :: "addr_ops \<Rightarrow> string \<Rightarrow> string res" where
  "AccAddress_String A aa =
     (if aa = [] then Inr [] else must (ConvertAndEncode A (Bech32AccountAddrPrefix A) aa))"

text \<open>The address codec of \<^verbatim>\<open>codec/address\<close>, with the prefix of account addresses.\<close>

definition StringToBytes :: "addr_ops \<Rightarrow> string \<Rightarrow> string res" where
  "StringToBytes A text =
     (if TrimSpace text = [] then Inl (Err ''empty address string is not allowed'')
      else bindR (DecodeAndConvert A text) (\<lambda>(hrp, bz).
        if hrp \<noteq> Bech32AccountAddrPrefix A then Inl (Err ''hrp does not match bech32 prefix'')
        else bindR (VerifyAddressFormat bz) (\<lambda>_. Inr bz)))"

definition BytesToString :: "addr_ops \<Rightarrow> string \<Rightarrow> string res" where
  "BytesToString A bz = (if bz = [] then Inr [] else ConvertAndEncode A (Bech32AccountAddrPrefix A) bz)"

definition NewModuleAddress :: "addr_ops \<Rightarrow> string \<Rightarrow> string" where
  "NewModuleAddress A name = crypto_AddressHash A name"

definition NewModuleAddressOrBech32Address :: "addr_ops \<Rightarrow> string \<Rightarrow> string" where
  "NewModuleAddressOrBech32Address A input =
     (case AccAddressFromBech32 A input of Inr addr \<Rightarrow> addr | Inl _ \<Rightarrow> NewModuleAddress A input)"

section \<open>Base accounts\<close>

record base_account =
  Address :: string
  PubKey :: "string option"
  AccountNumber :: int
  Sequence :: int

definition ProtoBaseAccount :: base_account where
  "ProtoBaseAccount = \<lparr>Address = [], PubKey = None, AccountNumber = 0, Sequence = 0\<rparr>"

definition BaseAccount_SetPubKey :: "'a base_account_scheme \<Rightarrow> string option \<Rightarrow> 'a base_account_scheme" where
  "BaseAccount_SetPubKey acc pubKey = acc\<lparr>PubKey := pubKey\<rparr>"

definition NewBaseAccount :: "addr_ops \<Rightarrow> string \<Rightarrow> string option \<Rightarrow> int \<Rightarrow> int \<Rightarrow> base_account res" where
  "NewBaseAccount A address pubKey accountNumber sequence = bindR (AccAddress_String A address) (\<lambda>s.
     Inr (BaseAccount_SetPubKey
       \<lparr>Address = s, PubKey = None, AccountNumber = accountNumber, Sequence = sequence\<rparr> pubKey))"

definition NewBaseAccountWithAddress :: "addr_ops \<Rightarrow> string \<Rightarrow> base_account res" where
  "NewBaseAccountWithAddress A addr = bindR (AccAddress_String A addr) (\<lambda>s.
     Inr \<lparr>Address = s, PubKey = None, AccountNumber = 0, Sequence = 0\<rparr>)"

definition BaseAccount_GetAddress :: "addr_ops \<Rightarrow> 'a base_account_scheme \<Rightarrow> string" where
  "BaseAccount_GetAddress A acc =
     (case AccAddressFromBech32 A (Address acc) of Inr addr \<Rightarrow> addr | Inl _ \<Rightarrow> [])"

definition BaseAccount_SetAddress ::
  "addr_ops \<Rightarrow> 'a base_account_scheme \<Rightarrow> string \<Rightarrow> 'a base_account_scheme res" where
  "BaseAccount_SetAddress A acc addr =
     (if Address acc \<noteq> [] then Inl (Err ''cannot override BaseAccount address'')
      else bindR (AccAddress_String A addr) (\<lambda>s. Inr (acc\<lparr>Address := s\<rparr>)))"

definition BaseAccount_SetAccountNumber :: "'a base_account_scheme \<Rightarrow> int \<Rightarrow> 'a base_account_scheme res" where
  "BaseAccount_SetAccountNumber acc accNumber = Inr (acc\<lparr>AccountNumber := accNumber\<rparr>)"

definition BaseAccount_SetSequence :: "'a base_account_scheme \<Rightarrow> int \<Rightarrow> 'a base_account_scheme res" where
  "BaseAccount_SetSequence acc seq = Inr (acc\<lparr>Sequence := seq\<rparr>)"

definition BaseAccount_Validate :: "addr_ops \<Rightarrow> 'a base_account_scheme \<Rightarrow> unit res" where
  "BaseAccount_Validate A acc = (case PubKey acc of None \<Rightarrow> Inr ()
     | Some pk \<Rightarrow> if Address acc = [] then Inr ()
         else bindR (AccAddressFromBech32 A (Address acc)) (\<lambda>accAddr.
           if PubKey_Address A pk \<noteq> accAddr
           then Inl (Err ''account address and pubkey address do not match'') else Inr ()))"

section \<open>Module accounts and permissions\<close>

definition Minter :: string where "Minter = ''minter''"

definition Burner :: string where "Burner = ''burner''"

definition Staking :: string where "Staking = ''staking''"

record permissions_for_address =
  permissions :: "string list"
  pa_address :: string

definition NewPermissionsForAddress :: "addr_ops \<Rightarrow> string \<Rightarrow> string list \<Rightarrow> permissions_for_address" where
  "NewPermissionsForAddress A name perms = \<lparr>permissions = perms, pa_address = NewModuleAddress A name\<rparr>"

fun has_perm :: "string list \<Rightarrow> string \<Rightarrow> bool" where
  "has_perm [] permission = False"
| "has_perm (perm # ps) permission = (if perm = permission then True else has_perm ps permission)"

definition PermissionsForAddress_HasPermission :: "permissions_for_address \<Rightarrow> string \<Rightarrow> bool" where
  "PermissionsForAddress_HasPermission pa permission = has_perm (permissions pa) permission"

definition validatePermissions :: "string list \<Rightarrow> unit res" where
  "validatePermissions perms = foldR (\<lambda>perm _. if TrimSpace perm = []
     then Inl (Err ''module permission is empty'') else Inr ()) perms ()"

record module_account = base_account +
  Name :: string
  Permissions :: "string list"

definition NewModuleAccount :: "base_account \<Rightarrow> string \<Rightarrow> string list \<Rightarrow> module_account res" where
  "NewModuleAccount ba name perms = bindR (must (validatePermissions perms)) (\<lambda>_.
     Inr (base_account.extend ba \<lparr>Name = name, Permissions = perms\<rparr>))"

definition NewEmptyModuleAccount :: "addr_ops \<Rightarrow> string \<Rightarrow> string list \<Rightarrow> module_account res" where
  "NewEmptyModuleAccount A name perms =
     bindR (NewBaseAccountWithAddress A (NewModuleAddress A name)) (\<lambda>baseAcc.
     bindR (must (validatePermissions perms)) (\<lambda>_.
     Inr (base_account.extend baseAcc \<lparr>Name = name, Permissions = perms\<rparr>)))"

definition ModuleAccount_HasPermission :: "module_account \<Rightarrow> string \<Rightarrow> bool" where
  "ModuleAccount_HasPermission ma permission = has_perm (Permissions ma) permission"

definition ModuleAccount_Validate :: "addr_ops \<Rightarrow> module_account \<Rightarrow> unit res" where
  "ModuleAccount_Validate A ma =
     (if TrimSpace (Name ma) = [] then Inl (Err ''module account name cannot be blank'')
      else bindR (AccAddress_String A (crypto_AddressHash A (Name ma))) (\<lambda>s.
        if Address ma \<noteq> s then Inl (Err ''address cannot be derived from the module name'')
        else BaseAccount_Validate A ma))"

section \<open>What the accounts rely on\<close>

text \<open>
  The bech32 codec gives back what it encoded (BIP-173), its strings are not blank, and the
  address hash has 20 bytes.
\<close>

locale addr_codec =
  fixes A :: addr_ops
  assumes convert_back: "\<exists>c. lib_ConvertBits A data 8 5 True = Inr c \<and> lib_ConvertBits A c 5 8 False = Inr data"
    and encode_back: "\<lbrakk>lib_ConvertBits A data 8 5 True = Inr c; length data \<le> MaxAddrLen\<rbrakk> \<Longrightarrow>
      \<exists>s. lib_Encode A (Bech32AccountAddrPrefix A) c = Inr s \<and> TrimSpace s \<noteq> [] \<and>
        lib_Decode A s 1023 = Inr (Bech32AccountAddrPrefix A, c)"
    and hash_length: "length (crypto_AddressHash A name) = 20"
begin

lemma has_bech32:
  assumes "aa \<noteq> []" and "length aa \<le> MaxAddrLen"
  obtains s where "AccAddress_String A aa = Inr s" and "AccAddressFromBech32 A s = Inr aa" and "s \<noteq> []"
proof -
  obtain c where c: "lib_ConvertBits A aa 8 5 True = Inr c" "lib_ConvertBits A c 5 8 False = Inr aa"
    using convert_back by blast
  obtain s where s: "lib_Encode A (Bech32AccountAddrPrefix A) c = Inr s" "TrimSpace s \<noteq> []"
    "lib_Decode A s 1023 = Inr (Bech32AccountAddrPrefix A, c)"
    using encode_back [OF c(1) assms(2)] by blast
  have "s \<noteq> []" using s(2) by (auto simp: TrimSpace_def)
  moreover have "AccAddress_String A aa = Inr s"
    using assms c s by (simp add: AccAddress_String_def ConvertAndEncode_def)
  moreover have "AccAddressFromBech32 A s = Inr aa"
    using assms c s \<open>s \<noteq> []\<close>
    by (simp add: AccAddressFromBech32_def GetFromBech32_def DecodeAndConvert_def VerifyAddressFormat_def)
  ultimately show ?thesis using that by blast
qed

lemma StringToBytes_eq:
  "StringToBytes A s = Inr bz \<longleftrightarrow> AccAddressFromBech32 A s = Inr bz"
  by (auto simp: StringToBytes_def AccAddressFromBech32_def GetFromBech32_def bindR_eq_Inr TrimSpace_def
      split: if_splits)

lemma from_bech32_nonempty:
  "AccAddressFromBech32 A s = Inr aa \<Longrightarrow> aa \<noteq> [] \<and> length aa \<le> MaxAddrLen"
  by (auto simp: AccAddressFromBech32_def bindR_eq_Inr VerifyAddressFormat_def split: if_splits)

lemma module_address_ok: "NewModuleAddress A name \<noteq> []" "length (NewModuleAddress A name) \<le> MaxAddrLen"
  using hash_length [of name] by (auto simp: NewModuleAddress_def MaxAddrLen_def)

lemma base_account_address:
  assumes "aa \<noteq> []" and "length aa \<le> MaxAddrLen" and "NewBaseAccountWithAddress A aa = Inr acc"
  shows "BaseAccount_GetAddress A acc = aa"
proof -
  obtain s where "AccAddress_String A aa = Inr s" "AccAddressFromBech32 A s = Inr aa"
    using has_bech32 [OF assms(1,2)] by metis
  with assms(3) show ?thesis
    by (auto simp: NewBaseAccountWithAddress_def BaseAccount_GetAddress_def)
qed

end

text \<open>A simple codec that satisfies the laws; concrete inputs are evaluated with it.\<close>

definition ex_addr :: addr_ops where
  "ex_addr = \<lparr>lib_ConvertBits = (\<lambda>d _ _ _. Inr d), lib_Encode = (\<lambda>hrp d. Inr (hrp @ ''1'' @ d)),
     lib_Decode = (\<lambda>s _. Inr (takeWhile (\<lambda>c. c \<noteq> CHR ''1'') s, tl (dropWhile (\<lambda>c. c \<noteq> CHR ''1'') s))),
     crypto_AddressHash = (\<lambda>s. take 20 (s @ replicate 20 (CHR ''.''))),
     PubKey_Address = (\<lambda>pk. pk), Bech32AccountAddrPrefix = ''atone''\<rparr>"

interpretation exa: addr_codec ex_addr
proof
  fix data c name :: string
  show "\<exists>c. lib_ConvertBits ex_addr data 8 5 True = Inr c \<and> lib_ConvertBits ex_addr c 5 8 False = Inr data"
    by (simp add: ex_addr_def)
  show "\<exists>s. lib_Encode ex_addr (Bech32AccountAddrPrefix ex_addr) c = Inr s \<and> TrimSpace s \<noteq> [] \<and>
      lib_Decode ex_addr s 1023 = Inr (Bech32AccountAddrPrefix ex_addr, c)"
    by (auto simp: ex_addr_def TrimSpace_def is_space_def)
  show "length (crypto_AddressHash ex_addr name) = 20"
    by (simp add: ex_addr_def)
qed

lemmas ex_addr_laws = exa.addr_codec_axioms

end
