(* ===== verification/Vesting.thy ===== *)
theory Vesting
  imports CoinLaws Accounts
begin

text \<open>
  Vesting accounts, \<^verbatim>\<open>x/auth/vesting/types/vesting_account.go\<close> and \<^verbatim>\<open>period.go\<close>: continuous, periodic,
  delayed and permanently locked accounts over one base account. Go's struct embedding is
  record extension here, so the methods of the base account apply to every account type. Times
  are Unix seconds in \<^verbatim>\<open>int64\<close>, with the wrap-around of the source. What the accounts share, the
  interface \<^verbatim>\<open>VestingAccount\<close>, is the locale \<open>vesting_account\<close>: coins are split into vested and
  vesting without loss, and the locked coins follow from that.
\<close>

section \<open>The base account\<close>

record base_vesting_account =
  BaseAccount :: base_account
  OriginalVesting :: coins
  DelegatedFree :: coins
  DelegatedVesting :: coins
  EndTime :: int

definition BaseVestingAccount_Validate :: "addr_ops \<Rightarrow> 'a base_vesting_account_scheme \<Rightarrow> unit res" where
  "BaseVestingAccount_Validate A bva =
     (if EndTime bva < 0 then Inl (Err ''end time cannot be negative'')
      else if \<not> Coins_IsValid (OriginalVesting bva) \<or> \<not> Coins_IsAllPositive (OriginalVesting bva)
      then Inl (Err ''invalid coins'')
      else bindR (Coins_IsAllLTE (DelegatedVesting bva) (OriginalVesting bva)) (\<lambda>le.
        if \<not> le then Inl (Err ''delegated vesting amount cannot be greater than original vesting amount'')
        else BaseAccount_Validate A (BaseAccount bva)))"

definition NewBaseVestingAccount ::
  "addr_ops \<Rightarrow> base_account \<Rightarrow> coins \<Rightarrow> int \<Rightarrow> (base_vesting_account \<times> unit res)" where
  "NewBaseVestingAccount A baseAccount originalVesting endTime =
     (let bva = \<lparr>BaseAccount = baseAccount, OriginalVesting = originalVesting, DelegatedFree = [],
                 DelegatedVesting = [], EndTime = endTime\<rparr>
      in (bva, BaseVestingAccount_Validate A bva))"

definition LockedCoinsFromVesting ::
  "math_ops \<Rightarrow> 'a base_vesting_account_scheme \<Rightarrow> coins \<Rightarrow> coins res" where
  "LockedCoinsFromVesting M bva vestingCoins = bindR (Coins_Min vestingCoins (DelegatedVesting bva)) (\<lambda>m.
     Coins_Sub M vestingCoins m)"

text \<open>The blocks \<^verbatim>\<open>if !x.IsZero() { ... }\<close> of the two tracking functions.\<close>

definition addIfNonZero :: "math_ops \<Rightarrow> coins \<Rightarrow> string \<Rightarrow> int \<Rightarrow> coins res" where
  "addIfNonZero M cs denom x =
     (if x \<noteq> 0 then bindR (NewCoin denom x) (\<lambda>xCoin. Coins_Add M cs [xCoin]) else Inr cs)"

definition subIfNonZero :: "math_ops \<Rightarrow> coins \<Rightarrow> string \<Rightarrow> int \<Rightarrow> coins res" where
  "subIfNonZero M cs denom x =
     (if x \<noteq> 0 then bindR (NewCoin denom x) (\<lambda>xCoin. Coins_Sub M cs [xCoin]) else Inr cs)"

definition TrackDelegation_step ::
  "math_ops \<Rightarrow> coins \<Rightarrow> coins \<Rightarrow> coin \<Rightarrow> 'a base_vesting_account_scheme \<Rightarrow> 'a base_vesting_account_scheme res" where
  "TrackDelegation_step M balance vestingCoins c bva =
     bindR (Coins_AmountOf balance (Denom c)) (\<lambda>baseAmt.
     bindR (Coins_AmountOf vestingCoins (Denom c)) (\<lambda>vestingAmt.
     bindR (Coins_AmountOf (DelegatedVesting bva) (Denom c)) (\<lambda>delVestingAmt.
     if Amount c = 0 \<or> baseAmt < Amount c
     then Inl (Panic ''delegation attempt with zero coins or insufficient funds'')
     else bindR (int_Sub M vestingAmt delVestingAmt) (\<lambda>v.
       let x = min (max v 0) (Amount c) in
       bindR (int_Sub M (Amount c) x) (\<lambda>y.
       bindR (addIfNonZero M (DelegatedVesting bva) (Denom c) x) (\<lambda>dv.
       bindR (addIfNonZero M (DelegatedFree bva) (Denom c) y) (\<lambda>df.
       Inr (bva\<lparr>DelegatedVesting := dv, DelegatedFree := df\<rparr>))))))))"

definition Base_TrackDelegation ::
  "math_ops \<Rightarrow> 'a base_vesting_account_scheme \<Rightarrow> coins \<Rightarrow> coins \<Rightarrow> coins \<Rightarrow> 'a base_vesting_account_scheme res" where
  "Base_TrackDelegation M bva balance vestingCoins amount =
     foldR (TrackDelegation_step M balance vestingCoins) amount bva"

definition TrackUndelegation_step ::
  "math_ops \<Rightarrow> coin \<Rightarrow> 'a base_vesting_account_scheme \<Rightarrow> 'a base_vesting_account_scheme res" where
  "TrackUndelegation_step M c bva =
     (if Amount c = 0 then Inl (Panic ''undelegation attempt with zero coins'')
      else bindR (Coins_AmountOf (DelegatedFree bva) (Denom c)) (\<lambda>delegatedFree.
        bindR (Coins_AmountOf (DelegatedVesting bva) (Denom c)) (\<lambda>delegatedVesting.
        let x = min delegatedFree (Amount c) in
        bindR (int_Sub M (Amount c) x) (\<lambda>rest.
        let y = min delegatedVesting rest in
        bindR (subIfNonZero M (DelegatedFree bva) (Denom c) x) (\<lambda>df.
        bindR (subIfNonZero M (DelegatedVesting bva) (Denom c) y) (\<lambda>dv.
        Inr (bva\<lparr>DelegatedFree := df, DelegatedVesting := dv\<rparr>)))))))"

definition TrackUndelegation ::
  "math_ops \<Rightarrow> 'a base_vesting_account_scheme \<Rightarrow> coins \<Rightarrow> 'a base_vesting_account_scheme res" where
  "TrackUndelegation M bva amount = foldR (TrackUndelegation_step M) amount bva"

section \<open>Continuous vesting\<close>

record continuous_vesting_account = base_vesting_account +
  StartTime :: int

definition Continuous_Validate :: "addr_ops \<Rightarrow> continuous_vesting_account \<Rightarrow> unit res" where
  "Continuous_Validate A cva =
     (if StartTime cva \<ge> EndTime cva then Inl (Err ''vesting start-time cannot be before end-time'')
      else BaseVestingAccount_Validate A cva)"

definition NewContinuousVestingAccount ::
  "addr_ops \<Rightarrow> base_account \<Rightarrow> coins \<Rightarrow> int \<Rightarrow> int \<Rightarrow> (continuous_vesting_account \<times> unit res)" where
  "NewContinuousVestingAccount A baseAcc originalVesting startTime endTime =
     (let cva = \<lparr>BaseAccount = baseAcc, OriginalVesting = originalVesting, DelegatedFree = [],
                 DelegatedVesting = [], EndTime = endTime, StartTime = startTime\<rparr>
      in (cva, Continuous_Validate A cva))"

definition Continuous_GetVestedCoins :: "math_ops \<Rightarrow> continuous_vesting_account \<Rightarrow> int \<Rightarrow> coins res" where
  "Continuous_GetVestedCoins M cva blockTime =
     (if blockTime \<le> StartTime cva then Inr []
      else if blockTime \<ge> EndTime cva then Inr (OriginalVesting cva)
      else (let x = wrap64 (blockTime - StartTime cva); y = wrap64 (EndTime cva - StartTime cva) in
        bindR (dec_Quo M (dec_of_int x) (dec_of_int y)) (\<lambda>s.
          mapR (\<lambda>ovc. bindR (dec_Mul M (dec_of_int (Amount ovc)) s) (\<lambda>z.
            bindR (dec_RoundInt M z) (\<lambda>vestedAmt. NewCoin (Denom ovc) vestedAmt))) (OriginalVesting cva))))"

definition Continuous_GetVestingCoins :: "math_ops \<Rightarrow> continuous_vesting_account \<Rightarrow> int \<Rightarrow> coins res" where
  "Continuous_GetVestingCoins M cva blockTime = bindR (Continuous_GetVestedCoins M cva blockTime) (\<lambda>v.
     Coins_Sub M (OriginalVesting cva) v)"

definition Continuous_LockedCoins :: "math_ops \<Rightarrow> continuous_vesting_account \<Rightarrow> int \<Rightarrow> coins res" where
  "Continuous_LockedCoins M cva blockTime =
     bindR (Continuous_GetVestingCoins M cva blockTime) (LockedCoinsFromVesting M cva)"

definition Continuous_TrackDelegation ::
  "math_ops \<Rightarrow> continuous_vesting_account \<Rightarrow> int \<Rightarrow> coins \<Rightarrow> coins \<Rightarrow> continuous_vesting_account res" where
  "Continuous_TrackDelegation M cva blockTime balance amount =
     bindR (Continuous_GetVestingCoins M cva blockTime) (\<lambda>v. Base_TrackDelegation M cva balance v amount)"

section \<open>Periodic vesting\<close>

record period =
  Length :: int
  PAmount :: coins

definition TotalLength :: "period list \<Rightarrow> int" where
  "TotalLength p = foldl (\<lambda>total period. wrap64 (total + Length period)) 0 p"

text \<open>
  \<^verbatim>\<open>ToCoins\<close> ranges over the accumulated map. The model visits the denominations in the order in
  which the periods name them; \<open>MapCoins_equals_repeated_Add\<close> shows that every order gives the
  same coins.
\<close>

definition range_keys :: "period list \<Rightarrow> map_coins \<Rightarrow> string list" where
  "range_keys ps m = filter (\<lambda>d. m d \<noteq> None) (remdups (map Denom (concat (map PAmount ps))))"

definition TotalAmount :: "math_ops \<Rightarrow> period list \<Rightarrow> coins res" where
  "TotalAmount M p = bindR (foldR (\<lambda>period m. MapCoins_Add M m (PAmount period)) p Map.empty) (\<lambda>m.
     MapCoins_ToCoins m (range_keys p m))"

record periodic_vesting_account = base_vesting_account +
  PStartTime :: int
  VestingPeriods :: "period list"

fun Periodic_Validate_loop :: "period list \<Rightarrow> int \<Rightarrow> int res" where
  "Periodic_Validate_loop [] endTime = Inr endTime"
| "Periodic_Validate_loop (p # ps) endTime =
     (if Length p < 0 then Inl (Err ''period has a negative length'')
      else if \<not> Coins_IsValid (PAmount p) \<or> \<not> Coins_IsAllPositive (PAmount p)
      then Inl (Err ''period has invalid coins'')
      else Periodic_Validate_loop ps (wrap64 (endTime + Length p)))"

definition Periodic_Validate :: "math_ops \<Rightarrow> addr_ops \<Rightarrow> periodic_vesting_account \<Rightarrow> unit res" where
  "Periodic_Validate M A pva =
     (if PStartTime pva \<ge> EndTime pva then Inl (Err ''vesting start-time cannot be before end-time'')
      else bindR (Periodic_Validate_loop (VestingPeriods pva) (PStartTime pva)) (\<lambda>endTime.
        if endTime \<noteq> EndTime pva
        then Inl (Err ''vesting end time does not match length of all vesting periods'')
        else if endTime < PStartTime pva
        then Inl (Err ''cumulative endTime overflowed, and/or is less than startTime'')
        else bindR (TotalAmount M (VestingPeriods pva)) (\<lambda>originalVesting.
          if \<not> Coins_Equal originalVesting (OriginalVesting pva)
          then Inl (Err ''original vesting coins does not match the sum of all coins in vesting periods'')
          else BaseVestingAccount_Validate A pva)))"


fun PeriodicVested_loop :: "math_ops \<Rightarrow> int \<Rightarrow> int \<Rightarrow> period list \<Rightarrow> map_coins \<Rightarrow> map_coins res" where
  "PeriodicVested_loop M blockTime currentPeriodStartTime [] m = Inr m"
| "PeriodicVested_loop M blockTime currentPeriodStartTime (period # ps) m =
     (let x = wrap64 (blockTime - currentPeriodStartTime) in
      if x < Length period then Inr m
      else bindR (MapCoins_Add M m (PAmount period)) (\<lambda>m'.
        PeriodicVested_loop M blockTime (wrap64 (currentPeriodStartTime + Length period)) ps m'))"

definition Periodic_GetVestedCoins :: "math_ops \<Rightarrow> periodic_vesting_account \<Rightarrow> int \<Rightarrow> coins res" where
  "Periodic_GetVestedCoins M pva blockTime =
     (if blockTime \<le> PStartTime pva then Inr []
      else if blockTime \<ge> EndTime pva then Inr (OriginalVesting pva)
      else bindR (PeriodicVested_loop M blockTime (PStartTime pva) (VestingPeriods pva) Map.empty) (\<lambda>m.
        MapCoins_ToCoins m (range_keys (VestingPeriods pva) m)))"

definition Periodic_GetVestingCoins :: "math_ops \<Rightarrow> periodic_vesting_account \<Rightarrow> int \<Rightarrow> coins res" where
  "Periodic_GetVestingCoins M pva blockTime = bindR (Periodic_GetVestedCoins M pva blockTime) (\<lambda>v.
     Coins_Sub M (OriginalVesting pva) v)"

definition Periodic_LockedCoins :: "math_ops \<Rightarrow> periodic_vesting_account \<Rightarrow> int \<Rightarrow> coins res" where
  "Periodic_LockedCoins M pva blockTime =
     bindR (Periodic_GetVestingCoins M pva blockTime) (LockedCoinsFromVesting M pva)"

definition Periodic_TrackDelegation ::
  "math_ops \<Rightarrow> periodic_vesting_account \<Rightarrow> int \<Rightarrow> coins \<Rightarrow> coins \<Rightarrow> periodic_vesting_account res" where
  "Periodic_TrackDelegation M pva blockTime balance amount =
     bindR (Periodic_GetVestingCoins M pva blockTime) (\<lambda>v. Base_TrackDelegation M pva balance v amount)"

section \<open>Delayed and permanently locked accounts\<close>

type_synonym delayed_vesting_account = base_vesting_account

definition NewDelayedVestingAccount ::
  "addr_ops \<Rightarrow> base_account \<Rightarrow> coins \<Rightarrow> int \<Rightarrow> (delayed_vesting_account \<times> unit res)" where
  "NewDelayedVestingAccount A baseAcc originalVesting endTime =
     (let dva = \<lparr>BaseAccount = baseAcc, OriginalVesting = originalVesting, DelegatedFree = [],
                 DelegatedVesting = [], EndTime = endTime\<rparr>
      in (dva, BaseVestingAccount_Validate A dva))"

definition Delayed_GetVestedCoins :: "delayed_vesting_account \<Rightarrow> int \<Rightarrow> coins res" where
  "Delayed_GetVestedCoins dva blockTime =
     (if blockTime \<ge> EndTime dva then Inr (OriginalVesting dva) else Inr [])"

definition Delayed_GetVestingCoins :: "math_ops \<Rightarrow> delayed_vesting_account \<Rightarrow> int \<Rightarrow> coins res" where
  "Delayed_GetVestingCoins M dva blockTime = bindR (Delayed_GetVestedCoins dva blockTime) (\<lambda>v.
     Coins_Sub M (OriginalVesting dva) v)"

definition Delayed_LockedCoins :: "math_ops \<Rightarrow> delayed_vesting_account \<Rightarrow> int \<Rightarrow> coins res" where
  "Delayed_LockedCoins M dva blockTime =
     bindR (Delayed_GetVestingCoins M dva blockTime) (LockedCoinsFromVesting M dva)"

definition Delayed_TrackDelegation ::
  "math_ops \<Rightarrow> delayed_vesting_account \<Rightarrow> int \<Rightarrow> coins \<Rightarrow> coins \<Rightarrow> delayed_vesting_account res" where
  "Delayed_TrackDelegation M dva blockTime balance amount =
     bindR (Delayed_GetVestingCoins M dva blockTime) (\<lambda>v. Base_TrackDelegation M dva balance v amount)"

type_synonym permanent_locked_account = base_vesting_account

definition PermanentLocked_Validate :: "addr_ops \<Rightarrow> permanent_locked_account \<Rightarrow> unit res" where
  "PermanentLocked_Validate A plva =
     (if EndTime plva > 0 then Inl (Err ''permanently vested accounts cannot have an end-time'')
      else BaseVestingAccount_Validate A plva)"

definition NewPermanentLockedAccount ::
  "addr_ops \<Rightarrow> base_account \<Rightarrow> coins \<Rightarrow> (permanent_locked_account \<times> unit res)" where
  "NewPermanentLockedAccount A baseAcc cs =
     (let plva = \<lparr>BaseAccount = baseAcc, OriginalVesting = cs, DelegatedFree = [],
                  DelegatedVesting = [], EndTime = 0\<rparr>
      in (plva, PermanentLocked_Validate A plva))"

definition PermanentLocked_GetVestedCoins :: "permanent_locked_account \<Rightarrow> int \<Rightarrow> coins res" where
  "PermanentLocked_GetVestedCoins plva blockTime = Inr []"

definition PermanentLocked_GetVestingCoins :: "permanent_locked_account \<Rightarrow> int \<Rightarrow> coins res" where
  "PermanentLocked_GetVestingCoins plva blockTime = Inr (OriginalVesting plva)"

definition PermanentLocked_LockedCoins :: "math_ops \<Rightarrow> permanent_locked_account \<Rightarrow> int \<Rightarrow> coins res" where
  "PermanentLocked_LockedCoins M plva blockTime = LockedCoinsFromVesting M plva (OriginalVesting plva)"

definition PermanentLocked_TrackDelegation ::
  "math_ops \<Rightarrow> permanent_locked_account \<Rightarrow> int \<Rightarrow> coins \<Rightarrow> coins \<Rightarrow> permanent_locked_account res" where
  "PermanentLocked_TrackDelegation M plva blockTime balance amount =
     Base_TrackDelegation M plva balance (OriginalVesting plva) amount"

section \<open>One coin in, one coin out\<close>

lemma fits_canonical: "canonical cs \<Longrightarrow> (\<And>d. int_ok (amt cs d)) \<Longrightarrow> fits cs"
  unfolding fits_def by (metis amt_in canonicalD(2))

lemma int_ok_between: "0 \<le> x \<Longrightarrow> x \<le> y \<Longrightarrow> int_ok y \<Longrightarrow> int_ok x"
  by (simp add: int_ok_def)

lemma sanitize_strict: "strict_sorted_by Denom cs \<Longrightarrow> canonical (sanitizeCoins cs)"
proof -
  assume s: "strict_sorted_by Denom cs"
  then have f: "strict_sorted_by Denom (removeZeroCoins cs)"
    unfolding removeZeroCoins_def by (rule strict_sorted_by_filter)
  then have "sanitizeCoins cs = removeZeroCoins cs"
    by (simp add: sanitizeCoins_eq sort_key_id strict_sorted_iff)
  with f show ?thesis by (auto simp: canonical_def removeZeroCoins_def Coin_IsZero_def)
qed

lemma one_valid: "reDnm_MatchString d \<Longrightarrow> 0 < x \<Longrightarrow> Coins_IsValid [\<lparr>Denom = d, Amount = x\<rparr>]"
  by (simp add: Coins_IsValid_alt)

context sdk_math
begin

text \<open>Subtracting a sorted slice that may hold zero coins.\<close>

lemma Sub_pointwise:
  assumes "Coins_IsValid as" and "fits as" and "strict_sorted_by Denom bs"
    and "\<And>d. 0 \<le> amt bs d" and "\<And>d. amt bs d \<le> amt as d"
  obtains r where "Coins_Sub M as bs = Inr r" and "Coins_IsValid r" and "fits r"
    and "\<And>d. amt r d = amt as d - amt bs d"
proof -
  have ok: "int_ok (amt as d)" for d using assms(1,2) by (simp add: fits_amt valid_canonical)
  let ?b = "sanitizeCoins bs"
  have cb: "canonical ?b" using sanitize_strict [OF assms(3)] .
  have vb: "Coins_IsValid ?b"
  proof (rule canonical_valid [OF cb])
    fix d assume "amt ?b d \<noteq> 0"
    with assms(4,5) [of d] have "0 < amt ?b d" "amt as d \<noteq> 0" by auto
    then show "reDnm_MatchString d \<and> 0 < amt ?b d" using valid_denom [OF assms(1)] by blast
  qed
  have fb: "fits ?b"
    using ok int_ok_between [OF assms(4,5)] by (intro fits_canonical cb) simp
  obtain r where r: "Coins_Sub M as ?b = Inr r"
    using Sub_total [OF assms(1) vb assms(2) fb] assms(5) by auto
  note rs = Sub_spec [OF assms(1) vb r]
  have "Coins_Sub M as bs = Inr r"
    using r vb by (simp add: Coins_Sub_def Coins_SafeSub_def NewCoins_Inr [of bs ?b, THEN iffD2])
  moreover have "int_ok (amt r d)" for d
    using assms(4,5) [of d] ok [of d] int_ok_between [of "amt as d - amt bs d" "amt as d"] rs(2) [of d] by simp
  then have "fits r" using valid_canonical [OF rs(1)] by (intro fits_canonical)
  ultimately show ?thesis using that [of r] rs by simp
qed

lemma add_opt:
  assumes "Coins_IsValid cs" and "fits cs" and "reDnm_MatchString d" and "0 \<le> x" and "int_ok (amt cs d + x)"
  obtains r where "addIfNonZero M cs d x = Inr r"
    and "Coins_IsValid r" and "fits r" and "\<And>e. amt r e = amt cs e + (if e = d then x else 0)"
proof (cases "x = 0")
  case False
  let ?c = "\<lparr>Denom = d, Amount = x\<rparr>"
  have x: "0 < x" using False assms(4) by simp
  have v: "Coins_IsValid [?c]" using assms(3) x by (rule one_valid)
  have ok: "int_ok (amt cs e)" "0 \<le> amt cs e" for e
    using assms(1,2) by (simp_all add: fits_amt valid_canonical valid_amt_nonneg)
  have "int_ok x" using int_ok_between [of x "amt cs d + x"] ok(2) [of d] x assms(5) by simp
  then have f: "fits [?c]" by (simp add: fits_def)
  have s: "int_ok (amt cs e + amt [?c] e)" for e using ok assms(5) by auto
  obtain r where r: "Coins_safeAdd M cs [?c] = Inr r"
    using safeAdd_total [OF valid_canonical [OF assms(1)] valid_canonical [OF v] assms(2) f s] by blast
  have c: "canonical r" and a: "amt r e = amt cs e + amt [?c] e" for e using safeAdd_Inr [OF r] by simp_all
  have "Coins_IsValid r" using r by (intro Add_valid [OF assms(1) v]) (simp add: Coins_Add_def)
  moreover have "fits r" using s by (intro fits_canonical c) (simp only: a)
  ultimately show ?thesis using that [of r] r a False assms(3) x by (auto simp: Coins_Add_def addIfNonZero_def)
qed (use assms that in \<open>auto simp: addIfNonZero_def\<close>)

lemma sub_opt:
  assumes "Coins_IsValid cs" and "fits cs" and "reDnm_MatchString d" and "0 \<le> x" and "x \<le> amt cs d"
  obtains r where "subIfNonZero M cs d x = Inr r"
    and "Coins_IsValid r" and "fits r" and "\<And>e. amt r e = amt cs e - (if e = d then x else 0)"
proof (cases "x = 0")
  case False
  let ?c = "\<lparr>Denom = d, Amount = x\<rparr>"
  have x: "0 < x" using False assms(4) by simp
  have ok: "int_ok (amt cs e)" "0 \<le> amt cs e" for e
    using assms(1,2) by (simp_all add: fits_amt valid_canonical valid_amt_nonneg)
  have "0 \<le> amt [?c] e" "amt [?c] e \<le> amt cs e" for e using x ok(2) [of e] assms(5) by auto
  then obtain r where "Coins_Sub M cs [?c] = Inr r" "Coins_IsValid r" "fits r" "\<And>e. amt r e = amt cs e - amt [?c] e"
    using Sub_pointwise [OF assms(1,2), of "[?c]"] by (metis list.simps(8,9) sorted_wrt1)
  then show ?thesis using that [of r] False assms(3) x by (auto simp: subIfNonZero_def)
qed (use assms that in \<open>auto simp: subIfNonZero_def\<close>)

lemma Locked_spec:
  assumes "Coins_IsValid v" and "fits v" and "Coins_IsValid (DelegatedVesting a)"
  obtains r where "LockedCoinsFromVesting M a v = Inr r" and "Coins_IsValid r"
    and "\<And>d. amt r d = max (amt v d - amt (DelegatedVesting a) d) 0"
proof -
  obtain m where m: "Coins_Min v (DelegatedVesting a) = Inr m" "Coins_IsValid m"
    "\<And>d. amt m d = min (amt v d) (amt (DelegatedVesting a) d)"
    using Coins_Min_spec [OF assms(1,3)] by blast
  have nn: "0 \<le> amt v d" "0 \<le> amt (DelegatedVesting a) d" "int_ok (amt v d)" for d
    using assms by (simp_all add: valid_amt_nonneg fits_amt valid_canonical)
  have le: "0 \<le> amt m d" "amt m d \<le> amt v d" for d using nn [of d] by (simp_all add: m(3))
  obtain r where "Coins_Sub M v m = Inr r" "Coins_IsValid r" "\<And>d. amt r d = amt v d - amt m d"
    using Sub_pointwise [OF assms(1,2) valid_parts(1) [OF m(2)] le] by blast
  then show ?thesis using that [of r] m(1) by (auto simp: LockedCoinsFromVesting_def m(3) max_def min_def)
qed

end

section \<open>The schedules\<close>

lemma ratio_arith:
  fixes P s x y :: int
  assumes "2 \<le> P" and "0 < x" and "x < y" and "2 * P * \<bar>s * (y * P) - x * P * P\<bar> \<le> y * P * (P + 2)"
  shows "0 \<le> s" and "s \<le> P"
proof -
  have e: "s * (y * P) - x * P * P = (s * y - x * P) * P" by (simp add: algebra_simps)
  have "2 * P * \<bar>s * y - x * P\<bar> * P \<le> y * (P + 2) * P"
    using assms(1,4) unfolding e abs_mult by (simp add: algebra_simps)
  then have b: "2 * P * \<bar>s * y - x * P\<bar> \<le> y * (P + 2)" using assms(1) by (simp add: ac_simps)
  have p: "0 < x * P" "y * 2 \<le> y * P" using assms by simp_all
  show "0 \<le> s"
  proof (rule ccontr)
    assume "\<not> 0 \<le> s"
    then have "s * y \<le> - 1 * y" using assms by (intro mult_right_mono) auto
    then have "y + x * P \<le> \<bar>s * y - x * P\<bar>" using p by linarith
    then have "2 * P * (y + x * P) \<le> y * (P + 2)" using b assms(1) by (smt (verit) mult_left_mono)
    moreover have "0 < 2 * P * (x * P)" using p assms(1) by simp
    ultimately show False using p by (simp add: algebra_simps)
  qed
  show "s \<le> P"
  proof (rule ccontr)
    assume "\<not> s \<le> P"
    then have "(P + 1) * y \<le> s * y" using assms by (intro mult_right_mono) auto
    moreover have "(x + 1) * P \<le> y * P" using assms by (intro mult_right_mono) auto
    ultimately have "y + P \<le> \<bar>s * y - x * P\<bar>" by (simp add: algebra_simps)
    then have "2 * P * (y + P) \<le> y * (P + 2)" using b assms(1) by (smt (verit) mult_left_mono)
    moreover have "0 < 2 * P * P" using assms(1) by simp
    ultimately show False using p by (simp add: algebra_simps)
  qed
qed

lemma round_arith:
  fixes a v P z :: int
  assumes "0 < P" and "2 * \<bar>v * P - z\<bar> \<le> P" and "0 \<le> z" and "z \<le> a * P"
  shows "0 \<le> v" and "v \<le> a"
proof -
  show "0 \<le> v"
  proof (rule ccontr)
    assume "\<not> 0 \<le> v"
    then have "v * P \<le> - P" using assms(1) mult_right_mono [of v "- 1" P] by simp
    with assms show False by (simp add: abs_if split: if_splits)
  qed
  show "v \<le> a"
  proof (rule ccontr)
    assume "\<not> v \<le> a"
    then have "(a + 1) * P \<le> v * P" using assms(1) by (intro mult_right_mono) auto
    with assms show False by (simp add: algebra_simps)
  qed
qed

lemma precision_ge: "2 \<le> precision" "precision < 2 ^ 255"
  by (simp_all add: precision_def)

lemma list_all2_amt:
  assumes "list_all2 (\<lambda>c v. Denom v = Denom c \<and> 0 \<le> Amount v \<and> Amount v \<le> Amount c) cs vs"
  shows "map Denom vs = map Denom cs" and "0 \<le> amt vs d" and "amt vs d \<le> amt cs d"
  using assms by (induction rule: list_all2_induct) auto

context sdk_math
begin

lemma quo_ratio:
  assumes "0 < x" and "x < y"
  shows "\<exists>s. dec_Quo M (dec_of_int x) (dec_of_int y) = Inr s \<and> 0 \<le> s \<and> s \<le> precision"
proof -
  let ?x = "dec_of_int x" and ?y = "dec_of_int y"
  have xp: "0 < ?x" and xy: "?x < ?y" using assms by (simp_all add: dec_of_int_def)
  have "?x * precision < ?y * precision" using xy by simp
  also have "\<dots> < ?y * 2 ^ 256" using xp xy precision_ge(2) by (intro mult_strict_left_mono) (auto simp: precision_def)
  finally have "\<bar>?x\<bar> * precision < 2 ^ 256 * \<bar>?y\<bar>" using xp xy by (simp add: mult.commute)
  then obtain s where s: "dec_Quo M ?x ?y = Inr s"
    using dec_Quo_safe [of ?x ?y] xp xy by auto
  have "2 * precision * \<bar>s * (y * precision) - x * precision * precision\<bar> \<le> y * precision * (precision + 2)"
    using dec_Quo_Inr [OF s] xp xy assms by (simp add: dec_of_int_def)
  from ratio_arith [OF precision_ge(1) assms this] s show ?thesis by blast
qed

lemma mul_round:
  assumes "0 \<le> a" and "dec_ok (dec_of_int a)" and "0 \<le> s" and "s \<le> precision"
  shows "\<exists>z v. dec_Mul M (dec_of_int a) s = Inr z \<and> dec_RoundInt M z = Inr v \<and> 0 \<le> v \<and> v \<le> a"
proof -
  let ?a = "dec_of_int a"
  have a: "0 \<le> ?a" "?a \<le> dec_max" using assms(1,2) by (simp_all add: dec_of_int_def dec_ok_def)
  have "?a * s \<le> ?a * precision" using a assms(4) by (intro mult_left_mono)
  also have "\<dots> \<le> dec_max * precision" using a(2) by simp
  finally have "\<bar>?a * s\<bar> \<le> dec_max * precision" using a assms(3) by simp
  then obtain z where z: "dec_Mul M ?a s = Inr z"
    using op_spec_total [OF dec_Mul_spec [of ?a s]] by auto
  have zb: "0 \<le> z" "z \<le> ?a" using dec_Mul_nonneg [OF z a(1) assms(3)] dec_Mul_le [OF z a(1) assms(3,4)] .
  have "dec_ok z" using zb a(2) unfolding dec_ok_def by linarith
  then obtain v where v: "dec_RoundInt M z = Inr v"
    using op_spec_total [OF dec_RoundInt_spec [of z]] by auto
  have "0 \<le> v" "v \<le> a"
    using round_arith [OF precision_pos dec_RoundInt_Inr [OF v] zb(1), of a] zb(2) by (simp_all add: dec_of_int_def)
  with z v show ?thesis by blast
qed

end

section \<open>The interface of a vesting account\<close>

text \<open>
  What the rest of the chain relies on: the coins vested at a time are part of the original
  coins, the vesting coins are the rest, and the locked coins are computed from the vesting
  coins. The lemmas of the locale hold of every account type.
\<close>

locale vesting_account = sdk_math M for M :: math_ops +
  fixes ok :: "'a base_vesting_account_scheme \<Rightarrow> bool"
    and vested :: "'a base_vesting_account_scheme \<Rightarrow> int \<Rightarrow> coins res"
    and vesting :: "'a base_vesting_account_scheme \<Rightarrow> int \<Rightarrow> coins res"
    and locked :: "'a base_vesting_account_scheme \<Rightarrow> int \<Rightarrow> coins res"
  assumes base_law: "ok a \<Longrightarrow> Coins_IsValid (OriginalVesting a) \<and> fits (OriginalVesting a) \<and>
      Coins_IsValid (DelegatedVesting a)"
    and vested_law: "ok a \<Longrightarrow> \<exists>v. vested a t = Inr v \<and> strict_sorted_by Denom v \<and>
      (\<forall>d. 0 \<le> amt v d \<and> amt v d \<le> amt (OriginalVesting a) d)"
    and vesting_law: "ok a \<Longrightarrow> vesting a t = bindR (vested a t) (Coins_Sub M (OriginalVesting a))"
    and locked_law: "ok a \<Longrightarrow> locked a t = bindR (vesting a t) (LockedCoinsFromVesting M a)"
begin

lemma schedule_split:
  assumes "ok a"
  obtains v w where "vested a t = Inr v" and "vesting a t = Inr w" and "Coins_IsValid w" and "fits w"
    and "\<And>d. 0 \<le> amt v d" and "\<And>d. amt v d + amt w d = amt (OriginalVesting a) d"
proof -
  obtain v where v: "vested a t = Inr v" "strict_sorted_by Denom v"
    "\<And>d. 0 \<le> amt v d" "\<And>d. amt v d \<le> amt (OriginalVesting a) d"
    using vested_law [OF assms] by blast
  obtain w where "Coins_Sub M (OriginalVesting a) v = Inr w" "Coins_IsValid w" "fits w"
    "\<And>d. amt w d = amt (OriginalVesting a) d - amt v d"
    using Sub_pointwise [OF _ _ v(2-4)] base_law [OF assms] by blast
  with v that [of v w] show ?thesis by (simp add: vesting_law [OF assms])
qed

lemma locked_split:
  assumes "ok a"
  obtains w l where "vesting a t = Inr w" and "locked a t = Inr l" and "Coins_IsValid l"
    and "\<And>d. amt l d = max (amt w d - amt (DelegatedVesting a) d) 0" and "\<And>d. amt w d \<le> amt (OriginalVesting a) d"
proof -
  obtain v w where w: "vesting a t = Inr w" "Coins_IsValid w" "fits w" "\<And>d. 0 \<le> amt v d"
    "\<And>d. amt v d + amt w d = amt (OriginalVesting a) d"
    using schedule_split [OF assms] by metis
  obtain l where "LockedCoinsFromVesting M a w = Inr l" "Coins_IsValid l"
    "\<And>d. amt l d = max (amt w d - amt (DelegatedVesting a) d) 0"
    using Locked_spec [OF w(2,3), of a] base_law [OF assms] by blast
  moreover have "amt w d \<le> amt (OriginalVesting a) d" for d using w(4,5) [of d] by linarith
  ultimately show ?thesis using that [of w l] w(1) by (simp add: locked_law [OF assms])
qed

lemma conserves:
  assumes "ok a"
  shows "\<exists>v w l. vested a t = Inr v \<and> vesting a t = Inr w \<and> locked a t = Inr l \<and>
    Coins_IsValid w \<and> Coins_IsValid l \<and>
    (\<forall>d. 0 \<le> amt v d \<and> amt v d + amt w d = amt (OriginalVesting a) d \<and>
      amt l d = max (amt w d - amt (DelegatedVesting a) d) 0)"
proof -
  obtain v w where vw: "vested a t = Inr v" "vesting a t = Inr w" "Coins_IsValid w"
    "\<And>d. 0 \<le> amt v d" "\<And>d. amt v d + amt w d = amt (OriginalVesting a) d"
    using schedule_split [OF assms] by metis
  obtain w' l where "vesting a t = Inr w'" "locked a t = Inr l" "Coins_IsValid l"
    "\<And>d. amt l d = max (amt w' d - amt (DelegatedVesting a) d) 0"
    using locked_split [OF assms] by metis
  with vw show ?thesis by auto
qed

end

definition account_ok :: "addr_ops \<Rightarrow> 'a base_vesting_account_scheme \<Rightarrow> bool" where
  "account_ok A a \<longleftrightarrow> okR (BaseVestingAccount_Validate A a) \<and> Coins_IsValid (DelegatedVesting a) \<and>
     list_all (\<lambda>c. dec_ok (dec_of_int (Amount c))) (OriginalVesting a)"

definition continuous_ok :: "addr_ops \<Rightarrow> continuous_vesting_account \<Rightarrow> bool" where
  "continuous_ok A a \<longleftrightarrow> account_ok A a \<and> okR (Continuous_Validate A a) \<and> 0 \<le> StartTime a \<and> EndTime a < 2 ^ 63"

definition periodic_ok :: "math_ops \<Rightarrow> addr_ops \<Rightarrow> periodic_vesting_account \<Rightarrow> bool" where
  "periodic_ok M A a \<longleftrightarrow> account_ok A a \<and> okR (Periodic_Validate M A a)"

lemma dec_of_int_ok: "dec_ok (dec_of_int a) \<Longrightarrow> int_ok a"
proof -
  assume "dec_ok (dec_of_int a)"
  then have "\<bar>a\<bar> * precision < 2 ^ 256 * precision"
    by (simp add: dec_ok_def dec_of_int_def abs_mult dec_max_def precision_def)
  then show ?thesis by (simp add: int_ok_def)
qed

lemma account_base:
  assumes "account_ok A a"
  shows "Coins_IsValid (OriginalVesting a) \<and> fits (OriginalVesting a) \<and> Coins_IsValid (DelegatedVesting a)"
  using assms by (auto simp: account_ok_def okR_iff BaseVestingAccount_Validate_def fits_def list_all_iff
      intro: dec_of_int_ok split: if_splits)

lemma whole_or_nothing:
  assumes "account_ok A a" and "v = [] \<or> v = OriginalVesting a"
  shows "strict_sorted_by Denom v \<and> (\<forall>d. 0 \<le> amt v d \<and> amt v d \<le> amt (OriginalVesting a) d)"
  using assms account_base [OF assms(1)] valid_parts(1) valid_amt_nonneg by fastforce

text \<open>A loop over the periods stops early: it is the whole loop on a prefix.\<close>

lemma Periodic_loop_prefix:
  "\<exists>k. PeriodicVested_loop M t cur ps m = foldR (\<lambda>p m. MapCoins_Add M m (PAmount p)) (take k ps) m"
proof (induction ps arbitrary: cur m)
  case (Cons p ps)
  show ?case
  proof (cases "wrap64 (t - cur) < Length p")
    case True
    then show ?thesis by (intro exI [of _ 0]) simp
  next
    case False
    show ?thesis
    proof (cases "MapCoins_Add M m (PAmount p)")
      case (Inl e)
      with False show ?thesis by (intro exI [of _ 1]) simp
    next
      case (Inr m')
      obtain k where "PeriodicVested_loop M t (wrap64 (cur + Length p)) ps m' =
          foldR (\<lambda>p m. MapCoins_Add M m (PAmount p)) (take k ps) m'" using Cons.IH by blast
      with False Inr show ?thesis by (intro exI [of _ "Suc k"]) simp
    qed
  qed
qed simp

lemma foldR_take: "foldR f xs s = Inr t \<Longrightarrow> \<exists>u. foldR f (take k xs) s = Inr u"
  by (metis append_take_drop_id bindR_InrE foldR_append)

lemma Validate_loop_valid:
  "Periodic_Validate_loop ps e = Inr e' \<Longrightarrow> p \<in> set ps \<Longrightarrow> Coins_IsValid (PAmount p) \<and> 0 \<le> Length p"
  by (induction ps arbitrary: e) (auto split: if_splits)

lemma Equal_amt:
  assumes "Coins_Equal as bs"
  shows "amt as d = amt bs d"
proof -
  have "list_all2 (\<lambda>a b. Denom a = Denom b \<and> Amount a = Amount b) (sort_key Denom as) (sort_key Denom bs)"
    using assms by (auto simp: Coins_Equal_def Coins_Sort_eq split: if_splits)
  then have "amt (sort_key Denom as) d = amt (sort_key Denom bs) d"
    by (induction rule: list_all2_induct) auto
  then show ?thesis by simp
qed

lemma range_keys_distinct [simp]: "distinct (range_keys ps m)"
  by (simp add: range_keys_def)

lemma period_sum_le:
  assumes "\<And>p. p \<in> set ps \<Longrightarrow> Coins_IsValid (PAmount p)"
  shows "0 \<le> (\<Sum>p\<leftarrow>take k ps. amt (PAmount p) d)"
    and "(\<Sum>p\<leftarrow>take k ps. amt (PAmount p) d) \<le> (\<Sum>p\<leftarrow>ps. amt (PAmount p) d)"
proof -
  have nn: "0 \<le> (\<Sum>p\<leftarrow>qs. amt (PAmount p) d)" if "set qs \<subseteq> set ps" for qs
    using that assms by (intro sum_list_nonneg) (auto intro: valid_amt_nonneg)
  show "0 \<le> (\<Sum>p\<leftarrow>take k ps. amt (PAmount p) d)" by (rule nn) (rule set_take_subset)
  have "(\<Sum>p\<leftarrow>ps. amt (PAmount p) d) = (\<Sum>p\<leftarrow>take k ps. amt (PAmount p) d) + (\<Sum>p\<leftarrow>drop k ps. amt (PAmount p) d)"
    by (metis append_take_drop_id map_append sum_list_append)
  then show "(\<Sum>p\<leftarrow>take k ps. amt (PAmount p) d) \<le> (\<Sum>p\<leftarrow>ps. amt (PAmount p) d)"
    using nn [of "drop k ps"] set_drop_subset [of k ps] by simp
qed

context sdk_math
begin

lemma period_coins:
  assumes "\<And>p. p \<in> set ps \<Longrightarrow> Coins_IsValid (PAmount p)"
    and "foldR (\<lambda>p m. MapCoins_Add M m (PAmount p)) (take k ps) Map.empty = Inr m"
  obtains r where "MapCoins_ToCoins m (range_keys ps m) = Inr r" and "Coins_IsValid r"
    and "\<And>d. amt r d = (\<Sum>p\<leftarrow>take k ps. amt (PAmount p) d)"
proof -
  let ?css = "map PAmount (take k ps)"
  have f: "foldR (\<lambda>cs m. MapCoins_Add M m cs) ?css Map.empty = Inr m"
    using assms(2) by (simp add: foldR_map)
  have v: "\<And>cs. cs \<in> set ?css \<Longrightarrow> Coins_IsValid cs" using assms(1) by (auto dest: in_set_takeD)
  have "dom m = (\<Union>cs \<in> set ?css. Denom ` set cs)" using bulk_Add_Inr(2) [OF f] by simp
  also have "\<dots> \<subseteq> (\<Union>p \<in> set ps. Denom ` set (PAmount p))" using set_take_subset [of k ps] by auto
  also have "\<dots> = set (map Denom (concat (map PAmount ps)))" by auto
  finally have "set (range_keys ps m) = dom m" unfolding range_keys_def by auto
  from bulk_ToCoins [OF f v range_keys_distinct this] obtain r where
    "MapCoins_ToCoins m (range_keys ps m) = Inr r" "Coins_IsValid r" "\<And>d. amt r d = (\<Sum>cs\<leftarrow>?css. amt cs d)"
    by blast
  with that [of r] show ?thesis by (simp add: comp_def)
qed

lemma continuous_vested:
  assumes "continuous_ok A a"
  shows "\<exists>v. Continuous_GetVestedCoins M a t = Inr v \<and> strict_sorted_by Denom v \<and>
    (\<forall>d. 0 \<le> amt v d \<and> amt v d \<le> amt (OriginalVesting a) d)"
proof -
  have acc: "account_ok A a" and t0: "0 \<le> StartTime a" "EndTime a < 2 ^ 63"
    using assms by (simp_all add: continuous_ok_def)
  note b = account_base [OF acc]
  consider "t \<le> StartTime a" | "EndTime a \<le> t" | "StartTime a < t" "t < EndTime a" by linarith
  then show ?thesis
  proof cases
    case 3
    have w: "wrap64 (t - StartTime a) = t - StartTime a" "wrap64 (EndTime a - StartTime a) = EndTime a - StartTime a"
      using 3 t0 by (intro wrap64_id; simp)+
    obtain s where s: "dec_Quo M (dec_of_int (t - StartTime a)) (dec_of_int (EndTime a - StartTime a)) = Inr s"
      "0 \<le> s" "s \<le> precision"
      using quo_ratio [of "t - StartTime a" "EndTime a - StartTime a"] 3 by auto
    let ?f = "\<lambda>ovc. bindR (dec_Mul M (dec_of_int (Amount ovc)) s) (\<lambda>z.
            bindR (dec_RoundInt M z) (\<lambda>vestedAmt. NewCoin (Denom ovc) vestedAmt))"
    have "\<exists>y. ?f c = Inr y \<and> (Denom y = Denom c \<and> 0 \<le> Amount y \<and> Amount y \<le> Amount c)"
      if "c \<in> set (OriginalVesting a)" for c
    proof -
      have c: "0 \<le> Amount c" "reDnm_MatchString (Denom c)" "dec_ok (dec_of_int (Amount c))"
        using that b valid_parts acc by (auto simp: account_ok_def list_all_iff)
      from mul_round [OF c(1,3) s(2,3)] c(2) show ?thesis by auto
    qed
    then have "\<exists>v. mapR ?f (OriginalVesting a) = Inr v \<and> list_all2
        (\<lambda>c y. Denom y = Denom c \<and> 0 \<le> Amount y \<and> Amount y \<le> Amount c) (OriginalVesting a) v"
      by (rule mapR_total)
    then obtain v where v: "mapR ?f (OriginalVesting a) = Inr v"
      "list_all2 (\<lambda>c y. Denom y = Denom c \<and> 0 \<le> Amount y \<and> Amount y \<le> Amount c) (OriginalVesting a) v" by blast
    have "Continuous_GetVestedCoins M a t = Inr v"
      using 3 v(1) s(1) by (simp add: Continuous_GetVestedCoins_def Let_def w)
    then show ?thesis using list_all2_amt [OF v(2)] valid_parts(1) b by simp
  qed (use whole_or_nothing [OF acc] in \<open>simp_all add: Continuous_GetVestedCoins_def\<close>)
qed

lemma periodic_total:
  assumes "periodic_ok M A a"
  shows "\<And>p. p \<in> set (VestingPeriods a) \<Longrightarrow> Coins_IsValid (PAmount p)"
    and "\<exists>m. foldR (\<lambda>p m. MapCoins_Add M m (PAmount p)) (VestingPeriods a) Map.empty = Inr m"
    and "amt (OriginalVesting a) d = (\<Sum>p\<leftarrow>VestingPeriods a. amt (PAmount p) d)"
proof -
  have "Periodic_Validate M A a = Inr ()" using assms by (auto simp: periodic_ok_def okR_iff)
  then obtain e tot where e: "Periodic_Validate_loop (VestingPeriods a) (PStartTime a) = Inr e"
    and tot: "TotalAmount M (VestingPeriods a) = Inr tot" "Coins_Equal tot (OriginalVesting a)"
    by (auto simp: Periodic_Validate_def bindR_eq_Inr split: if_splits)
  show v: "\<And>p. p \<in> set (VestingPeriods a) \<Longrightarrow> Coins_IsValid (PAmount p)" using Validate_loop_valid [OF e] by blast
  obtain m where m: "foldR (\<lambda>p m. MapCoins_Add M m (PAmount p)) (VestingPeriods a) Map.empty = Inr m"
    "MapCoins_ToCoins m (range_keys (VestingPeriods a) m) = Inr tot"
    using tot(1) by (auto simp: TotalAmount_def bindR_eq_Inr)
  then show "\<exists>m. foldR (\<lambda>p m. MapCoins_Add M m (PAmount p)) (VestingPeriods a) Map.empty = Inr m" by blast
  have "amt tot d = (\<Sum>p\<leftarrow>VestingPeriods a. amt (PAmount p) d)"
    using period_coins [of "VestingPeriods a" "length (VestingPeriods a)" m] v m by auto
  then show "amt (OriginalVesting a) d = (\<Sum>p\<leftarrow>VestingPeriods a. amt (PAmount p) d)"
    using Equal_amt [OF tot(2)] by simp
qed

lemma periodic_vested:
  assumes "periodic_ok M A a"
  shows "\<exists>v. Periodic_GetVestedCoins M a t = Inr v \<and> strict_sorted_by Denom v \<and>
    (\<forall>d. 0 \<le> amt v d \<and> amt v d \<le> amt (OriginalVesting a) d)"
proof -
  have acc: "account_ok A a" using assms by (simp add: periodic_ok_def)
  note pt = periodic_total [OF assms]
  consider "t \<le> PStartTime a" | "PStartTime a < t" "EndTime a \<le> t" | "PStartTime a < t" "t < EndTime a" by linarith
  then show ?thesis
  proof cases
    case 3
    obtain k where k: "PeriodicVested_loop M t (PStartTime a) (VestingPeriods a) Map.empty =
        foldR (\<lambda>p m. MapCoins_Add M m (PAmount p)) (take k (VestingPeriods a)) Map.empty"
      using Periodic_loop_prefix by blast
    obtain m where m: "foldR (\<lambda>p m. MapCoins_Add M m (PAmount p)) (take k (VestingPeriods a)) Map.empty = Inr m"
      using pt(2) by (metis foldR_take)
    obtain r where r: "MapCoins_ToCoins m (range_keys (VestingPeriods a) m) = Inr r" "Coins_IsValid r"
      "\<And>d. amt r d = (\<Sum>p\<leftarrow>take k (VestingPeriods a). amt (PAmount p) d)"
      using period_coins [OF pt(1) m] by blast
    have "Periodic_GetVestedCoins M a t = Inr r" using 3 k m r(1) by (simp add: Periodic_GetVestedCoins_def)
    moreover have "amt r d \<le> amt (OriginalVesting a) d" for d
      using period_sum_le(2) [OF pt(1)] by (simp add: r(3) pt(3))
    ultimately show ?thesis using valid_parts(1) [OF r(2)] valid_amt_nonneg [OF r(2)] by blast
  qed (use whole_or_nothing [OF acc] in \<open>simp_all add: Periodic_GetVestedCoins_def\<close>)
qed

lemma Sub_nothing:
  assumes "Coins_IsValid cs" and "fits cs"
  shows "Coins_Sub M cs [] = Inr cs"
proof -
  obtain r where "Coins_Sub M cs [] = Inr r" "Coins_IsValid r" "\<And>d. amt r d = amt cs d"
    using Sub_pointwise [OF assms, of "[]"] valid_amt_nonneg [OF assms(1)]
    by (metis amt_simps(1) diff_zero list.simps(8) order_refl sorted_wrt.simps(1))
  moreover from this have "r = cs" using assms by (intro canonical_unique valid_canonical)
  ultimately show ?thesis by simp
qed

end

sublocale sdk_math \<subseteq> cva: vesting_account M "continuous_ok A" "Continuous_GetVestedCoins M"
    "Continuous_GetVestingCoins M" "Continuous_LockedCoins M" for A
proof unfold_locales
  fix a t assume ok: "continuous_ok A a"
  show "Coins_IsValid (OriginalVesting a) \<and> fits (OriginalVesting a) \<and> Coins_IsValid (DelegatedVesting a)"
    using ok by (auto simp: continuous_ok_def dest: account_base)
  show "\<exists>v. Continuous_GetVestedCoins M a t = Inr v \<and> strict_sorted_by Denom v \<and>
      (\<forall>d. 0 \<le> amt v d \<and> amt v d \<le> amt (OriginalVesting a) d)" by (rule continuous_vested [OF ok])
qed (simp_all add: Continuous_GetVestingCoins_def Continuous_LockedCoins_def)

sublocale sdk_math \<subseteq> pva: vesting_account M "periodic_ok M A" "Periodic_GetVestedCoins M"
    "Periodic_GetVestingCoins M" "Periodic_LockedCoins M" for A
proof unfold_locales
  fix a t assume ok: "periodic_ok M A a"
  show "Coins_IsValid (OriginalVesting a) \<and> fits (OriginalVesting a) \<and> Coins_IsValid (DelegatedVesting a)"
    using ok by (auto simp: periodic_ok_def dest: account_base)
  show "\<exists>v. Periodic_GetVestedCoins M a t = Inr v \<and> strict_sorted_by Denom v \<and>
      (\<forall>d. 0 \<le> amt v d \<and> amt v d \<le> amt (OriginalVesting a) d)" by (rule periodic_vested [OF ok])
qed (simp_all add: Periodic_GetVestingCoins_def Periodic_LockedCoins_def)

sublocale sdk_math \<subseteq> dva: vesting_account M "account_ok A :: delayed_vesting_account \<Rightarrow> bool"
    Delayed_GetVestedCoins "Delayed_GetVestingCoins M" "Delayed_LockedCoins M" for A
proof unfold_locales
  fix a :: delayed_vesting_account and t assume ok: "account_ok A a"
  show "Coins_IsValid (OriginalVesting a) \<and> fits (OriginalVesting a) \<and> Coins_IsValid (DelegatedVesting a)"
    using ok by (rule account_base)
  show "\<exists>v. Delayed_GetVestedCoins a t = Inr v \<and> strict_sorted_by Denom v \<and>
      (\<forall>d. 0 \<le> amt v d \<and> amt v d \<le> amt (OriginalVesting a) d)"
    using whole_or_nothing [OF ok] by (simp add: Delayed_GetVestedCoins_def)
qed (simp_all add: Delayed_GetVestingCoins_def Delayed_LockedCoins_def)

sublocale sdk_math \<subseteq> plva: vesting_account M "account_ok A :: permanent_locked_account \<Rightarrow> bool"
    PermanentLocked_GetVestedCoins PermanentLocked_GetVestingCoins "PermanentLocked_LockedCoins M" for A
proof unfold_locales
  fix a :: permanent_locked_account and t assume ok: "account_ok A a"
  show "Coins_IsValid (OriginalVesting a) \<and> fits (OriginalVesting a) \<and> Coins_IsValid (DelegatedVesting a)"
    using ok by (rule account_base)
  show "\<exists>v. PermanentLocked_GetVestedCoins a t = Inr v \<and> strict_sorted_by Denom v \<and>
      (\<forall>d. 0 \<le> amt v d \<and> amt v d \<le> amt (OriginalVesting a) d)"
    using whole_or_nothing [OF ok] by (simp add: PermanentLocked_GetVestedCoins_def)
  show "PermanentLocked_GetVestingCoins a t =
      bindR (PermanentLocked_GetVestedCoins a t) (Coins_Sub M (OriginalVesting a))"
    using account_base [OF ok]
    by (simp add: PermanentLocked_GetVestingCoins_def PermanentLocked_GetVestedCoins_def Sub_nothing)
qed (simp add: PermanentLocked_GetVestingCoins_def PermanentLocked_LockedCoins_def)

section \<open>Tracking delegations\<close>

lemma valid_Cons:
  assumes "Coins_IsValid (c # cs)"
  shows "Coins_IsValid cs" and "reDnm_MatchString (Denom c)" and "0 < Amount c" and "amt cs (Denom c) = 0"
proof -
  show "Coins_IsValid cs" "reDnm_MatchString (Denom c)" "0 < Amount c"
    using assms by (simp_all add: Coins_IsValid_alt)
  have "distinct (map Denom (c # cs))" using assms by (intro strict_sorted_distinct valid_parts)
  then show "amt cs (Denom c) = 0" by (auto intro: amt_notin)
qed

text \<open>The parts of an account that tracking moves: valid slices of amounts in range.\<close>

definition tracked :: "'a base_vesting_account_scheme \<Rightarrow> bool" where
  "tracked a \<longleftrightarrow> Coins_IsValid (DelegatedVesting a) \<and> Coins_IsValid (DelegatedFree a) \<and>
     fits (DelegatedVesting a) \<and> fits (DelegatedFree a)"

lemma trackedD:
  assumes "tracked a"
  shows "0 \<le> amt (DelegatedVesting a) d" and "0 \<le> amt (DelegatedFree a) d"
    and "int_ok (amt (DelegatedVesting a) d)" and "int_ok (amt (DelegatedFree a) d)"
    and "canonical (DelegatedVesting a)" and "canonical (DelegatedFree a)"
  using assms by (auto simp: tracked_def intro: valid_amt_nonneg fits_amt valid_canonical)

context sdk_math
begin

lemma TrackDelegation_one:
  assumes "tracked a" and "Coins_IsValid bal" and "Coins_IsValid v" and "fits v"
    and "reDnm_MatchString (Denom c)" and "0 < Amount c" and "Amount c \<le> amt bal (Denom c)"
    and "int_ok (amt (DelegatedVesting a) (Denom c) + Amount c)"
    and "int_ok (amt (DelegatedFree a) (Denom c) + Amount c)"
  obtains dv df where "TrackDelegation_step M bal v c a = Inr (a\<lparr>DelegatedVesting := dv, DelegatedFree := df\<rparr>)"
    and "Coins_IsValid dv" and "Coins_IsValid df" and "fits dv" and "fits df"
    and "\<And>e. amt dv e = amt (DelegatedVesting a) e + (if e = Denom c
      then min (max (amt v e - amt (DelegatedVesting a) e) 0) (Amount c) else 0)"
    and "\<And>e. amt df e = amt (DelegatedFree a) e + (if e = Denom c
      then Amount c - min (max (amt v e - amt (DelegatedVesting a) e) 0) (Amount c) else 0)"
proof -
  let ?d = "Denom c"
  define x where "x = min (max (amt v ?d - amt (DelegatedVesting a) ?d) 0) (Amount c)"
  have x: "0 \<le> x" "x \<le> Amount c" using assms(6) by (auto simp: x_def)
  note t = trackedD [OF assms(1)]
  have vn: "0 \<le> amt v ?d" "int_ok (amt v ?d)" using assms(3,4) by (auto intro: valid_amt_nonneg fits_amt valid_canonical)
  have s1: "int_Sub M (amt v ?d) (amt (DelegatedVesting a) ?d) = Inr (amt v ?d - amt (DelegatedVesting a) ?d)"
    using int_ok_diff [OF vn(1) t(1) vn(2) t(3)] by (rule int_ok_Sub)
  have "int_ok (Amount c)"
    using int_ok_between [OF _ _ assms(9)] assms(6) t(2) [of ?d] by simp
  then have s2: "int_Sub M (Amount c) x = Inr (Amount c - x)"
    using x int_ok_between [of "Amount c - x" "Amount c"] by (intro int_ok_Sub) simp
  have ok1: "int_ok (amt (DelegatedVesting a) ?d + x)"
    using int_ok_between [OF _ _ assms(8), of "amt (DelegatedVesting a) ?d + x"] x t(1) [of ?d] by simp
  have ok2: "int_ok (amt (DelegatedFree a) ?d + (Amount c - x))"
    using int_ok_between [OF _ _ assms(9), of "amt (DelegatedFree a) ?d + (Amount c - x)"] x t(2) [of ?d] by simp
  obtain dv where dv: "addIfNonZero M (DelegatedVesting a) ?d x = Inr dv" "Coins_IsValid dv" "fits dv"
      "\<And>e. amt dv e = amt (DelegatedVesting a) e + (if e = ?d then x else 0)"
    using add_opt [OF _ _ assms(5) x(1) ok1] assms(1) unfolding tracked_def by blast
  obtain df where df: "addIfNonZero M (DelegatedFree a) ?d (Amount c - x) = Inr df" "Coins_IsValid df" "fits df"
      "\<And>e. amt df e = amt (DelegatedFree a) e + (if e = ?d then Amount c - x else 0)"
    using add_opt [OF _ _ assms(5) _ ok2] assms(1) x(2) unfolding tracked_def
    by (metis diff_ge_0_iff_ge)
  have "TrackDelegation_step M bal v c a = Inr (a\<lparr>DelegatedVesting := dv, DelegatedFree := df\<rparr>)"
    unfolding TrackDelegation_step_def Let_def
    using assms(5,6,7) s1 s2 dv(1) df(1) t(5) valid_canonical [OF assms(2)] valid_canonical [OF assms(3)]
    by (simp add: Coins_AmountOf_eq flip: x_def)
  then show ?thesis using dv df by (intro that [where dv = dv and df = df]) (auto simp: x_def)
qed

lemma TrackDelegation_loop:
  assumes "Coins_IsValid bal" and "Coins_IsValid v" and "fits v"
  shows "tracked a \<Longrightarrow> Coins_IsValid cs \<Longrightarrow> (\<And>d. amt cs d \<le> amt bal d) \<Longrightarrow>
    (\<And>d. int_ok (amt (DelegatedVesting a) d + amt cs d)) \<Longrightarrow> (\<And>d. int_ok (amt (DelegatedFree a) d + amt cs d)) \<Longrightarrow>
    \<exists>dv df. foldR (TrackDelegation_step M bal v) cs a = Inr (a\<lparr>DelegatedVesting := dv, DelegatedFree := df\<rparr>) \<and>
      Coins_IsValid dv \<and> Coins_IsValid df \<and> fits dv \<and> fits df \<and>
      (\<forall>d. amt dv d = amt (DelegatedVesting a) d + min (max (amt v d - amt (DelegatedVesting a) d) 0) (amt cs d) \<and>
        amt dv d + amt df d = amt (DelegatedVesting a) d + amt (DelegatedFree a) d + amt cs d)"
proof (induction cs arbitrary: a)
  case Nil
  then show ?case by (intro exI [of _ "DelegatedVesting a"] exI [of _ "DelegatedFree a"]) (auto simp: tracked_def)
next
  case (Cons c cs)
  note vc = valid_Cons [OF Cons.prems(2)]
  have h: "Amount c \<le> amt bal (Denom c)" "int_ok (amt (DelegatedVesting a) (Denom c) + Amount c)"
      "int_ok (amt (DelegatedFree a) (Denom c) + Amount c)"
    using Cons.prems(3-5) [of "Denom c"] vc(4) by simp_all
  obtain dv1 df1 where one: "TrackDelegation_step M bal v c a = Inr (a\<lparr>DelegatedVesting := dv1, DelegatedFree := df1\<rparr>)"
    "Coins_IsValid dv1" "Coins_IsValid df1" "fits dv1" "fits df1"
    "\<And>e. amt dv1 e = amt (DelegatedVesting a) e + (if e = Denom c
      then min (max (amt v e - amt (DelegatedVesting a) e) 0) (Amount c) else 0)"
    "\<And>e. amt df1 e = amt (DelegatedFree a) e + (if e = Denom c
      then Amount c - min (max (amt v e - amt (DelegatedVesting a) e) 0) (Amount c) else 0)"
    using TrackDelegation_one [OF Cons.prems(1) assms vc(2,3) h] by metis
  let ?a = "a\<lparr>DelegatedVesting := dv1, DelegatedFree := df1\<rparr>"
  have tr: "tracked ?a" using one(2-5) by (simp add: tracked_def)
  have le: "amt cs d \<le> amt bal d" for d using Cons.prems(3) [of d] vc(3,4) valid_amt_nonneg [OF assms(1), of d]
    by (cases "Denom c = d") auto
  have ok: "int_ok (amt (DelegatedVesting ?a) d + amt cs d)" "int_ok (amt (DelegatedFree ?a) d + amt cs d)" for d
    using Cons.prems(4,5) [of d] vc(4) fits_amt [OF valid_canonical [OF one(2)] one(4), of d]
      fits_amt [OF valid_canonical [OF one(3)] one(5), of d]
    by (cases "Denom c = d"; simp add: one(6,7))+
  from Cons.IH [OF tr vc(1) le ok] obtain dv df where
    r: "foldR (TrackDelegation_step M bal v) cs ?a = Inr (?a\<lparr>DelegatedVesting := dv, DelegatedFree := df\<rparr>)"
    "Coins_IsValid dv" "Coins_IsValid df" "fits dv" "fits df"
    and rd: "\<forall>d. amt dv d = amt (DelegatedVesting ?a) d + min (max (amt v d - amt (DelegatedVesting ?a) d) 0) (amt cs d) \<and>
        amt dv d + amt df d = amt (DelegatedVesting ?a) d + amt (DelegatedFree ?a) d + amt cs d" by blast
  have r6: "amt dv d = amt dv1 d + min (max (amt v d - amt dv1 d) 0) (amt cs d)"
    and r7: "amt dv d + amt df d = amt dv1 d + amt df1 d + amt cs d" for d using rd [rule_format, of d] by simp_all
  have "amt dv d = amt (DelegatedVesting a) d + min (max (amt v d - amt (DelegatedVesting a) d) 0) (amt (c # cs) d)" for d
    using vc(4) by (cases "d = Denom c") (auto simp: r6 one(6))
  moreover have "amt dv d + amt df d = amt (DelegatedVesting a) d + amt (DelegatedFree a) d + amt (c # cs) d" for d
    using vc(4) by (cases "d = Denom c") (auto simp: r7 one(6,7))
  ultimately show ?case using one(1) r(1-5) by (intro exI [of _ dv] exI [of _ df]) simp
qed

lemma TrackUndelegation_one:
  assumes "tracked a" and "reDnm_MatchString (Denom c)" and "0 < Amount c" and "int_ok (Amount c)"
  obtains dv df where "TrackUndelegation_step M c a = Inr (a\<lparr>DelegatedFree := df, DelegatedVesting := dv\<rparr>)"
    and "Coins_IsValid dv" and "Coins_IsValid df" and "fits dv" and "fits df"
    and "\<And>e. amt df e = amt (DelegatedFree a) e - (if e = Denom c then min (amt (DelegatedFree a) e) (Amount c) else 0)"
    and "\<And>e. amt dv e = amt (DelegatedVesting a) e - (if e = Denom c
      then min (amt (DelegatedVesting a) e) (Amount c - min (amt (DelegatedFree a) e) (Amount c)) else 0)"
proof -
  let ?d = "Denom c"
  define x where "x = min (amt (DelegatedFree a) ?d) (Amount c)"
  define y where "y = min (amt (DelegatedVesting a) ?d) (Amount c - x)"
  note t = trackedD [OF assms(1)]
  have x: "0 \<le> x" "x \<le> amt (DelegatedFree a) ?d" "x \<le> Amount c" using assms(3) t(2) [of ?d] by (auto simp: x_def)
  have y: "0 \<le> y" "y \<le> amt (DelegatedVesting a) ?d" using x(3) t(1) [of ?d] by (auto simp: y_def)
  have s: "int_Sub M (Amount c) x = Inr (Amount c - x)"
    using x int_ok_between [of "Amount c - x" "Amount c"] assms(4) by (intro int_ok_Sub) simp
  obtain df where df: "subIfNonZero M (DelegatedFree a) ?d x = Inr df" "Coins_IsValid df" "fits df"
      "\<And>e. amt df e = amt (DelegatedFree a) e - (if e = ?d then x else 0)"
    using sub_opt [OF _ _ assms(2) x(1,2)] assms(1) unfolding tracked_def by blast
  obtain dv where dv: "subIfNonZero M (DelegatedVesting a) ?d y = Inr dv" "Coins_IsValid dv" "fits dv"
      "\<And>e. amt dv e = amt (DelegatedVesting a) e - (if e = ?d then y else 0)"
    using sub_opt [OF _ _ assms(2) y] assms(1) unfolding tracked_def by blast
  have "TrackUndelegation_step M c a = Inr (a\<lparr>DelegatedFree := df, DelegatedVesting := dv\<rparr>)"
    unfolding TrackUndelegation_step_def Let_def
    using assms(2,3) s df(1) dv(1) t(5,6) by (simp add: Coins_AmountOf_eq flip: x_def y_def)
  then show ?thesis using dv df by (intro that [where dv = dv and df = df]) (auto simp: x_def y_def)
qed

lemma TrackUndelegation_loop:
  "tracked a \<Longrightarrow> Coins_IsValid cs \<Longrightarrow> fits cs \<Longrightarrow>
    \<exists>dv df. foldR (TrackUndelegation_step M) cs a = Inr (a\<lparr>DelegatedFree := df, DelegatedVesting := dv\<rparr>) \<and>
      Coins_IsValid dv \<and> Coins_IsValid df \<and> fits dv \<and> fits df \<and>
      (\<forall>d. amt df d = max (amt (DelegatedFree a) d - amt cs d) 0 \<and>
        amt dv d + amt df d = max (amt (DelegatedVesting a) d + amt (DelegatedFree a) d - amt cs d) 0)"
proof (induction cs arbitrary: a)
  case Nil
  then show ?case
    using trackedD [OF Nil(1)]
    by (intro exI [of _ "DelegatedVesting a"] exI [of _ "DelegatedFree a"]) (auto simp: tracked_def)
next
  case (Cons c cs)
  note vc = valid_Cons [OF Cons.prems(2)]
  have ic: "int_ok (Amount c)" using Cons.prems(3) by (simp add: fits_def)
  obtain dv1 df1 where one: "TrackUndelegation_step M c a = Inr (a\<lparr>DelegatedFree := df1, DelegatedVesting := dv1\<rparr>)"
    "Coins_IsValid dv1" "Coins_IsValid df1" "fits dv1" "fits df1"
    "\<And>e. amt df1 e = amt (DelegatedFree a) e - (if e = Denom c then min (amt (DelegatedFree a) e) (Amount c) else 0)"
    "\<And>e. amt dv1 e = amt (DelegatedVesting a) e - (if e = Denom c
      then min (amt (DelegatedVesting a) e) (Amount c - min (amt (DelegatedFree a) e) (Amount c)) else 0)"
    using TrackUndelegation_one [OF Cons.prems(1) vc(2,3) ic] by metis
  let ?a = "a\<lparr>DelegatedFree := df1, DelegatedVesting := dv1\<rparr>"
  have tr: "tracked ?a" using one(2-5) by (simp add: tracked_def)
  have fc: "fits cs" using Cons.prems(3) by (simp add: fits_def)
  from Cons.IH [OF tr vc(1) fc] obtain dv df where
    r: "foldR (TrackUndelegation_step M) cs ?a = Inr (?a\<lparr>DelegatedFree := df, DelegatedVesting := dv\<rparr>)"
    "Coins_IsValid dv" "Coins_IsValid df" "fits dv" "fits df"
    and rd: "\<forall>d. amt df d = max (amt (DelegatedFree ?a) d - amt cs d) 0 \<and>
        amt dv d + amt df d = max (amt (DelegatedVesting ?a) d + amt (DelegatedFree ?a) d - amt cs d) 0" by blast
  have rd': "amt df d = max (amt df1 d - amt cs d) 0"
    "amt dv d + amt df d = max (amt dv1 d + amt df1 d - amt cs d) 0" for d using rd [rule_format, of d] by simp_all
  note nn = trackedD(1,2) [OF Cons.prems(1)] trackedD(1,2) [OF tr, simplified] valid_amt_nonneg [OF vc(1)]
  have "amt df d = max (amt (DelegatedFree a) d - amt (c # cs) d) 0" for d
    using vc(3,4) nn(2) [of d] by (cases "d = Denom c") (auto simp: rd'(1) one(6))
  moreover have "amt dv d + amt df d = max (amt (DelegatedVesting a) d + amt (DelegatedFree a) d - amt (c # cs) d) 0" for d
    using vc(3,4) nn(1,2) [of d] by (cases "d = Denom c") (auto simp: rd'(2) one(6,7))
  ultimately show ?case using one(1) r(1-5) by (intro exI [of _ dv] exI [of _ df]) simp
qed

end

lemma Validate_iff:
  assumes "Coins_IsValid (DelegatedVesting a)"
  shows "okR (BaseVestingAccount_Validate A a) \<longleftrightarrow> 0 \<le> EndTime a \<and> Coins_IsValid (OriginalVesting a) \<and>
    Coins_IsAllPositive (OriginalVesting a) \<and>
    (\<forall>d. amt (DelegatedVesting a) d \<le> amt (OriginalVesting a) d) \<and> okR (BaseAccount_Validate A (BaseAccount a))"
  using assms by (auto simp: BaseVestingAccount_Validate_def Coins_IsAllLTE_def IsAllGTE_valid)

lemma account_ok_upd:
  assumes "account_ok A a" and "Coins_IsValid dv" and "\<And>d. amt dv d \<le> amt (OriginalVesting a) d"
  shows "account_ok A (a\<lparr>DelegatedVesting := dv, DelegatedFree := df\<rparr>)"
    and "account_ok A (a\<lparr>DelegatedFree := df, DelegatedVesting := dv\<rparr>)"
  using assms Validate_iff [of a A] Validate_iff [of "a\<lparr>DelegatedVesting := dv, DelegatedFree := df\<rparr>" A]
    Validate_iff [of "a\<lparr>DelegatedFree := df, DelegatedVesting := dv\<rparr>" A]
  by (auto simp: account_ok_def)

context sdk_math
begin

lemmas account_conserves = cva.conserves pva.conserves dva.conserves plva.conserves

end

section \<open>Properties\<close>


definition ex_base :: base_vesting_account where
  "ex_base = \<lparr>BaseAccount = \<lparr>Address = ''atone1a'', PubKey = None, AccountNumber = 0, Sequence = 0\<rparr>, OriginalVesting = ex_wallet,
     DelegatedFree = [], DelegatedVesting = ex_fee, EndTime = 100\<rparr>"

definition ex_continuous :: continuous_vesting_account where
  "ex_continuous = base_vesting_account.extend ex_base \<lparr>StartTime = 10\<rparr>"

definition ex_periodic :: periodic_vesting_account where
  "ex_periodic = base_vesting_account.extend ex_base \<lparr>PStartTime = 10,
     VestingPeriods = [\<lparr>Length = 40, PAmount = ex_fee\<rparr>,
       \<lparr>Length = 50, PAmount = [\<lparr>Denom = ''atone'', Amount = 5\<rparr>, \<lparr>Denom = ''photon'', Amount = 1\<rparr>]\<rparr>]\<rparr>"

lemma ex_accounts_ok:
  "continuous_ok ex_addr ex_continuous" "periodic_ok ref_math ex_addr ex_periodic" "account_ok ex_addr ex_base"
  "tracked ex_base"
  by code_simp+



text \<open>C13: \<^verbatim>\<open>TrackDelegation\<close> on a valid account, for coins the balance covers, splits the delegation
  into the part taken from the coins still vesting and not yet delegated, and the free rest;
  nothing is lost, and the account still passes validation (delegated vesting coins never
  exceed the original ones).\<close>

theorem TrackDelegation_correct:
  assumes "sdk_math M" and "account_ok A a" and "tracked a"
    and "Coins_IsValid balance" and "Coins_IsValid v" and "fits v" and "\<And>d. amt v d \<le> amt (OriginalVesting a) d"
    and "Coins_IsValid amount" and "\<And>d. amt amount d \<le> amt balance d"
    and "\<And>d. int_ok (amt (DelegatedVesting a) d + amt amount d)"
    and "\<And>d. int_ok (amt (DelegatedFree a) d + amt amount d)"
  shows "\<exists>a'. Base_TrackDelegation M a balance v amount = Inr a' \<and> account_ok A a' \<and> tracked a' \<and>
    (\<forall>d. amt (DelegatedVesting a') d = amt (DelegatedVesting a) d +
        min (max (amt v d - amt (DelegatedVesting a) d) 0) (amt amount d) \<and>
      amt (DelegatedVesting a') d + amt (DelegatedFree a') d =
        amt (DelegatedVesting a) d + amt (DelegatedFree a) d + amt amount d)"
proof -
  obtain dv df where r: "Base_TrackDelegation M a balance v amount = Inr (a\<lparr>DelegatedVesting := dv, DelegatedFree := df\<rparr>)"
    "Coins_IsValid dv" "Coins_IsValid df" "fits dv" "fits df"
    "\<And>d. amt dv d = amt (DelegatedVesting a) d + min (max (amt v d - amt (DelegatedVesting a) d) 0) (amt amount d)"
    "\<And>d. amt dv d + amt df d = amt (DelegatedVesting a) d + amt (DelegatedFree a) d + amt amount d"
    using sdk_math.TrackDelegation_loop [OF assms(1,4,5,6,3,8-11)] unfolding Base_TrackDelegation_def by blast
  have "amt (DelegatedVesting a) d \<le> amt (OriginalVesting a) d" for d
    using assms(2) account_base [OF assms(2)] by (simp add: account_ok_def Validate_iff)
  then have "amt dv d \<le> amt (OriginalVesting a) d" for d using assms(7) [of d] valid_amt_nonneg [OF assms(8), of d]
    by (auto simp: r(6) min_def max_def)
  with account_ok_upd(1) [OF assms(2) r(2)] r show ?thesis by (auto simp: tracked_def)
qed

theorem TrackDelegation_correct_witness:
  "\<exists>a'. Base_TrackDelegation ref_math ex_base ex_wallet ex_wallet ex_wallet = Inr a' \<and> account_ok ex_addr a' \<and> tracked a' \<and>
    (\<forall>d. amt (DelegatedVesting a') d = amt (DelegatedVesting ex_base) d +
        min (max (amt ex_wallet d - amt (DelegatedVesting ex_base) d) 0) (amt ex_wallet d) \<and>
      amt (DelegatedVesting a') d + amt (DelegatedFree a') d =
        amt (DelegatedVesting ex_base) d + amt (DelegatedFree ex_base) d + amt ex_wallet d)"
  by (rule TrackDelegation_correct [OF ref_math_laws ex_accounts_ok(3,4) ex_coins_valid(1,1,3) _ ex_coins_valid(1)])
    (simp_all add: ex_base_def ex_wallet_def ex_fee_def int_ok_def)

text \<open>C14: \<^verbatim>\<open>TrackUndelegation\<close> returns the free coins first, then the vesting ones, down to zero and
  never below, without panicking, and the account still passes validation.\<close>

theorem TrackUndelegation_correct:
  assumes "sdk_math M" and "account_ok A a" and "tracked a" and "Coins_IsValid amount" and "fits amount"
  shows "\<exists>a'. TrackUndelegation M a amount = Inr a' \<and> account_ok A a' \<and> tracked a' \<and>
    (\<forall>d. amt (DelegatedFree a') d = max (amt (DelegatedFree a) d - amt amount d) 0 \<and>
      amt (DelegatedVesting a') d + amt (DelegatedFree a') d =
        max (amt (DelegatedVesting a) d + amt (DelegatedFree a) d - amt amount d) 0)"
proof -
  obtain dv df where r: "TrackUndelegation M a amount = Inr (a\<lparr>DelegatedFree := df, DelegatedVesting := dv\<rparr>)"
    "Coins_IsValid dv" "Coins_IsValid df" "fits dv" "fits df"
    "\<And>d. amt df d = max (amt (DelegatedFree a) d - amt amount d) 0"
    "\<And>d. amt dv d + amt df d = max (amt (DelegatedVesting a) d + amt (DelegatedFree a) d - amt amount d) 0"
    using sdk_math.TrackUndelegation_loop [OF assms(1,3-5)] unfolding TrackUndelegation_def by blast
  have "amt (DelegatedVesting a) d \<le> amt (OriginalVesting a) d" "0 \<le> amt amount d" for d
    using assms(2) account_base [OF assms(2)] valid_amt_nonneg [OF assms(4)] by (simp_all add: account_ok_def Validate_iff)
  then have "amt dv d \<le> amt (OriginalVesting a) d" for d
    using r(6,7) [of d] trackedD(1,2) [OF assms(3), of d] by (smt (verit))
  with account_ok_upd(2) [OF assms(2) r(2), of df] r show ?thesis by (auto simp: tracked_def)
qed

theorem TrackUndelegation_correct_witness:
  "\<exists>a'. TrackUndelegation ref_math ex_base ex_fee = Inr a' \<and> account_ok ex_addr a' \<and> tracked a' \<and>
    (\<forall>d. amt (DelegatedFree a') d = max (amt (DelegatedFree ex_base) d - amt ex_fee d) 0 \<and>
      amt (DelegatedVesting a') d + amt (DelegatedFree a') d =
        max (amt (DelegatedVesting ex_base) d + amt (DelegatedFree ex_base) d - amt ex_fee d) 0)"
  by (rule TrackUndelegation_correct [OF ref_math_laws ex_accounts_ok(3,4) ex_coins_valid(2,4)])


end
