(* ===== verification/DynamicFee.thy ===== *)
theory DynamicFee
  imports DecCoins Accounts
begin

text \<open>
  The dynamic fee module, \<^verbatim>\<open>x/dynamicfee\<close>: parameters and state of the AIMD EIP-1559 pricing, the
  end-block update of learning rate and base gas price, genesis, the parameter message and
  the prices offered to other modules. \<^verbatim>\<open>uint64\<close> values are integers in \<open>[0, 2^64)\<close>. The keeper's
  store is the record \<open>df_store\<close> as it is after genesis: parameters and state are present.
\<close>

section \<open>Parameters\<close>

record df_params =
  Alpha :: dec
  Beta :: dec
  Gamma :: dec
  MinBaseGasPrice :: dec
  TargetBlockUtilization :: dec
  DefaultMaxBlockGas :: int
  MinLearningRate :: dec
  MaxLearningRate :: dec
  ParamsWindow :: int
  FeeDenom :: string
  Enabled :: bool

definition DynamicFee_NewParams ::
  "int \<Rightarrow> dec \<Rightarrow> dec \<Rightarrow> dec \<Rightarrow> dec \<Rightarrow> dec \<Rightarrow> int \<Rightarrow> dec \<Rightarrow> dec \<Rightarrow> string \<Rightarrow> bool \<Rightarrow> df_params" where
  "DynamicFee_NewParams window alpha beta gamma minBaseGasPrice targetBlockUtilization defaultMaxBlockGas
     minLearningRate maxLearningRate feeDenom enabled =
     \<lparr>Alpha = alpha, Beta = beta, Gamma = gamma, MinBaseGasPrice = minBaseGasPrice,
      TargetBlockUtilization = targetBlockUtilization, DefaultMaxBlockGas = defaultMaxBlockGas,
      MinLearningRate = minLearningRate, MaxLearningRate = maxLearningRate, ParamsWindow = window,
      FeeDenom = feeDenom, Enabled = enabled\<rparr>"

definition MaxWindow :: int where
  "MaxWindow = 1000000"

definition maxDefaultMaxBlockGas :: int where
  "maxDefaultMaxBlockGas = 2 ^ 63 - 1"

definition DynamicFee_Params_ValidateBasic :: "df_params \<Rightarrow> unit res" where
  "DynamicFee_Params_ValidateBasic p =
     (if ParamsWindow p = 0 then Inl (Err ''window cannot be zero'')
      else if ParamsWindow p > MaxWindow then Inl (Err ''window cannot exceed'')
      else if Alpha p < 0 then Inl (Err ''alpha cannot be nil must be between [0, inf)'')
      else if Beta p < 0 \<or> Beta p > precision then Inl (Err ''beta cannot be nil and must be between [0, 1]'')
      else if Gamma p < 0 \<or> Gamma p > 5 * 10 ^ 17 then Inl (Err ''theta cannot be nil and must be between [0, 0.5]'')
      else if \<not> MinBaseGasPrice p \<ge> 0
      then Inl (Err ''min base gas price cannot be nil and must be greater than or equal to zero'')
      else if \<not> TargetBlockUtilization p > 0 \<or> TargetBlockUtilization p > precision
      then Inl (Err ''target block utilization must be between (0, 1]'')
      else if DefaultMaxBlockGas p = 0 then Inl (Err ''default max block gas must be greater than 0'')
      else if DefaultMaxBlockGas p > maxDefaultMaxBlockGas
      then Inl (Err ''default max block gas must be less than or equal to'')
      else if MinLearningRate p < 0 then Inl (Err ''min learning rate cannot be negative or nil'')
      else if MaxLearningRate p < 0 then Inl (Err ''max learning rate cannot be negative or nil'')
      else if MinLearningRate p > MaxLearningRate p
      then Inl (Err ''min learning rate cannot be greater than max learning rate'')
      else if FeeDenom p = [] then Inl (Err ''fee denom must be set'')
      else Inr ())"

text \<open>The defaults of \<^verbatim>\<open>eip1559.go\<close> and \<^verbatim>\<open>eip1559_aimd.go\<close>; \<^verbatim>\<open>stake\<close> is the default bond denomination.\<close>

definition DefaultBondDenom :: string where
  "DefaultBondDenom = ''stake''"

definition DynamicFee_DefaultParams :: df_params where
  "DynamicFee_DefaultParams = DynamicFee_NewParams 1 0 precision 0 (10 ^ 16) (5 * 10 ^ 17) 100000000
     (125 * 10 ^ 15) (125 * 10 ^ 15) DefaultBondDenom True"

definition DefaultAIMDParams :: df_params where
  "DefaultAIMDParams = DynamicFee_NewParams 8 (25 * 10 ^ 15) (95 * 10 ^ 16) (25 * 10 ^ 16) (10 ^ 16) (5 * 10 ^ 17)
     100000000 (10 ^ 16) (5 * 10 ^ 17) DefaultBondDenom True"

section \<open>State\<close>

record df_state =
  BaseGasPrice :: dec
  LearningRate :: dec
  Window :: "int list"
  Index :: int

definition NewState :: "int \<Rightarrow> dec \<Rightarrow> dec \<Rightarrow> df_state" where
  "NewState windowSize baseGasPrice learningRate =
     \<lparr>BaseGasPrice = baseGasPrice, LearningRate = learningRate, Window = replicate (nat windowSize) 0, Index = 0\<rparr>"

definition DefaultState :: df_state where
  "DefaultState = NewState 1 (10 ^ 16) (125 * 10 ^ 15)"

definition DefaultAIMDState :: df_state where
  "DefaultAIMDState = NewState 8 (10 ^ 16) (10 ^ 16)"

definition State_IncrementHeight :: "df_state \<Rightarrow> df_state res" where
  "State_IncrementHeight s =
     (if Window s = [] then Inl (Panic ''integer divide by zero'')
      else (let i = wrapu64 (Index s + 1) mod int (length (Window s)) in
        bindR (updateR (Window s) i 0) (\<lambda>w. Inr (s\<lparr>Index := i, Window := w\<rparr>))))"

definition GetTargetBlockGas :: "math_ops \<Rightarrow> int \<Rightarrow> df_params \<Rightarrow> int res" where
  "GetTargetBlockGas M maxBlockGas params =
     bindR (dec_Mul M (dec_of_int maxBlockGas) (TargetBlockUtilization params)) (\<lambda>z.
     bindR (dec_TruncateInt M z) (\<lambda>target. Inr (if is_uint64 target then target else 0)))"

definition State_UpdateBaseGasPrice :: "math_ops \<Rightarrow> df_state \<Rightarrow> df_params \<Rightarrow> int \<Rightarrow> (df_state \<times> dec) res" where
  "State_UpdateBaseGasPrice M s params maxBlockGas = recoverR
     (bindR (indexR (Window s) (Index s)) (\<lambda>gas.
      bindR (GetTargetBlockGas M maxBlockGas params) (\<lambda>target.
      bindR (dec_Sub M (dec_of_int gas) (dec_of_int target)) (\<lambda>diff.
      bindR (dec_Quo M diff (dec_of_int target)) (\<lambda>avgGas.
      bindR (dec_Mul M (LearningRate s) avgGas) (\<lambda>a.
      bindR (dec_Add M precision a) (\<lambda>learningRateAdjustment.
      bindR (dec_Mul M (BaseGasPrice s) learningRateAdjustment) (\<lambda>g.
      let gasPrice = (if g < MinBaseGasPrice params then MinBaseGasPrice params else g) in
      Inr (s\<lparr>BaseGasPrice := gasPrice\<rparr>, gasPrice)))))))))
     (s\<lparr>BaseGasPrice := MinBaseGasPrice params, LearningRate := MinLearningRate params\<rparr>, MinBaseGasPrice params)"

definition State_GetAverageGas :: "math_ops \<Rightarrow> df_state \<Rightarrow> int \<Rightarrow> dec res" where
  "State_GetAverageGas M s maxBlockGas =
     (let total = foldl (\<lambda>t gas. wrapu64 (t + gas)) 0 (Window s) in
      bindR (dec_Mul M (dec_of_int maxBlockGas) (dec_of_int (int (length (Window s))))) (\<lambda>divisor.
      dec_Quo M (dec_of_int total) divisor))"

definition State_UpdateLearningRate :: "math_ops \<Rightarrow> df_state \<Rightarrow> df_params \<Rightarrow> int \<Rightarrow> (df_state \<times> dec) res" where
  "State_UpdateLearningRate M s params maxBlockGas = recoverR
     (bindR (State_GetAverageGas M s maxBlockGas) (\<lambda>avg.
      bindR (if avg \<le> Gamma params then Inr True
             else bindR (dec_Sub M precision (Gamma params)) (\<lambda>u. Inr (avg \<ge> u))) (\<lambda>outside.
      bindR (if outside
             then bindR (dec_Add M (Alpha params) (LearningRate s)) (\<lambda>lr.
                    Inr (if lr > MaxLearningRate params then MaxLearningRate params else lr))
             else bindR (dec_Mul M (LearningRate s) (Beta params)) (\<lambda>lr.
                    Inr (if lr < MinLearningRate params then MinLearningRate params else lr))) (\<lambda>lr.
      Inr (s\<lparr>LearningRate := lr\<rparr>, lr)))))
     (s\<lparr>LearningRate := MinLearningRate params\<rparr>, MinLearningRate params)"

definition State_GetNetGas :: "math_ops \<Rightarrow> df_state \<Rightarrow> int \<Rightarrow> df_params \<Rightarrow> int res" where
  "State_GetNetGas M s maxBlockGas params = bindR (GetTargetBlockGas M maxBlockGas params) (\<lambda>targetGas.
     foldR (\<lambda>gas net. bindR (int_Sub M gas targetGas) (\<lambda>diff. int_Add M net diff)) (Window s) 0)"

definition State_ValidateBasic :: "df_state \<Rightarrow> unit res" where
  "State_ValidateBasic s =
     (if Window s = [] then Inl (Err ''block gas window cannot be nil or empty'')
      else if Index s \<ge> int (length (Window s)) then Inl (Err ''index out of range for window'')
      else if BaseGasPrice s \<le> 0 then Inl (Err ''base gas price must be positive'')
      else if LearningRate s \<le> 0 then Inl (Err ''learning rate must be positive'')
      else Inr ())"

section \<open>Genesis\<close>

record df_genesis =
  gs_Params :: df_params
  gs_State :: df_state

definition DynamicFee_NewGenesisState :: "df_params \<Rightarrow> df_state \<Rightarrow> df_genesis" where
  "DynamicFee_NewGenesisState params state = \<lparr>gs_Params = params, gs_State = state\<rparr>"

definition DynamicFee_DefaultGenesisState :: df_genesis where
  "DynamicFee_DefaultGenesisState = DynamicFee_NewGenesisState DynamicFee_DefaultParams DefaultState"

definition DefaultAIMDGenesisState :: df_genesis where
  "DefaultAIMDGenesisState = DynamicFee_NewGenesisState DefaultAIMDParams DefaultAIMDState"

definition GenesisState_ValidateBasic :: "df_genesis \<Rightarrow> unit res" where
  "GenesisState_ValidateBasic gs =
     bindR (DynamicFee_Params_ValidateBasic (gs_Params gs)) (\<lambda>_.
     bindR (State_ValidateBasic (gs_State gs)) (\<lambda>_.
     if ParamsWindow (gs_Params gs) \<noteq> int (length (Window (gs_State gs)))
     then Inl (Err ''params.window does not match state.window length'') else Inr ()))"

section \<open>The keeper\<close>

record df_store =
  df_Params :: df_params
  df_State :: df_state
  df_EnabledHeight :: "int option"

text \<open>What the module reads of the block: height, the consensus gas limit and the block gas meter.\<close>

record df_ctx =
  BlockHeight :: int
  Block_MaxGas :: int
  BlockGasConsumed :: "int option"

definition GetEnabledHeight :: "df_store \<Rightarrow> int" where
  "GetEnabledHeight k = (case df_EnabledHeight k of None \<Rightarrow> -1 | Some h \<Rightarrow> h)"

definition SetEnabledHeight :: "df_store \<Rightarrow> int \<Rightarrow> df_store" where
  "SetEnabledHeight k height = k\<lparr>df_EnabledHeight := Some height\<rparr>"

definition DynamicFee_SetParams :: "df_store \<Rightarrow> df_params \<Rightarrow> df_store res" where
  "DynamicFee_SetParams k params = Inr (k\<lparr>df_Params := params\<rparr>)"

definition DynamicFee_SetState :: "df_store \<Rightarrow> df_state \<Rightarrow> df_store res" where
  "DynamicFee_SetState k state = Inr (k\<lparr>df_State := state\<rparr>)"

definition GetMaxBlockGas :: "df_ctx \<Rightarrow> df_params \<Rightarrow> int" where
  "GetMaxBlockGas ctx params =
     (if Block_MaxGas ctx = 0 \<or> Block_MaxGas ctx = -1 then DefaultMaxBlockGas params
      else wrapu64 (Block_MaxGas ctx))"

definition UpdateDynamicfee :: "math_ops \<Rightarrow> df_ctx \<Rightarrow> df_store \<Rightarrow> df_store res" where
  "UpdateDynamicfee M ctx k =
     (let params = df_Params k in
      if \<not> Enabled params then Inr k
      else (let maxBlockGas = GetMaxBlockGas ctx params; state0 = df_State k in
        bindR (case BlockGasConsumed ctx of None \<Rightarrow> Inr state0
               | Some gas \<Rightarrow> bindR (updateR (Window state0) (Index state0) (if gas > maxBlockGas then maxBlockGas else gas))
                   (\<lambda>w. Inr (state0\<lparr>Window := w\<rparr>))) (\<lambda>state1.
        bindR (State_UpdateLearningRate M state1 params maxBlockGas) (\<lambda>(state2, newLR).
        bindR (State_UpdateBaseGasPrice M state2 params maxBlockGas) (\<lambda>(state3, newBaseGasPrice).
        bindR (State_GetAverageGas M state3 maxBlockGas) (\<lambda>_.
        bindR (State_GetNetGas M state3 maxBlockGas params) (\<lambda>_.
        bindR (State_IncrementHeight state3) (\<lambda>state4.
        DynamicFee_SetState k state4))))))))"

definition DynamicFee_EndBlock :: "math_ops \<Rightarrow> df_ctx \<Rightarrow> df_store \<Rightarrow> df_store res" where
  "DynamicFee_EndBlock M ctx k = UpdateDynamicfee M ctx k"

definition DynamicFee_InitGenesis :: "df_store \<Rightarrow> df_genesis \<Rightarrow> df_store res" where
  "DynamicFee_InitGenesis k gs =
     bindR (must (GenesisState_ValidateBasic gs)) (\<lambda>_.
     bindR (must (DynamicFee_SetParams k (gs_Params gs))) (\<lambda>k1.
     bindR (must (DynamicFee_SetState k1 (gs_State gs))) (\<lambda>k2.
     Inr (SetEnabledHeight k2 (-1)))))"

definition DynamicFee_ExportGenesis :: "df_store \<Rightarrow> df_genesis" where
  "DynamicFee_ExportGenesis k = DynamicFee_NewGenesisState (df_Params k) (df_State k)"

text \<open>The message that replaces the parameters; \<open>authority\<close> is the keeper's authority address.\<close>

record df_msg =
  Msg_Authority :: string
  Msg_Params :: df_params

definition DynamicFee_MsgUpdateParams_ValidateBasic :: "addr_ops \<Rightarrow> df_msg \<Rightarrow> unit res" where
  "DynamicFee_MsgUpdateParams_ValidateBasic A m = bindR (AccAddressFromBech32 A (Msg_Authority m)) (\<lambda>_.
     DynamicFee_Params_ValidateBasic (Msg_Params m))"

definition DynamicFee_UpdateParams :: "string \<Rightarrow> df_ctx \<Rightarrow> df_store \<Rightarrow> df_msg \<Rightarrow> df_store res" where
  "DynamicFee_UpdateParams authority ctx k msg =
     (if Msg_Authority msg \<noteq> authority then Inl (Err ''invalid authority to execute message'')
      else if ParamsWindow (Msg_Params msg) > MaxWindow then Inl (Err ''window cannot exceed'')
      else (let params = Msg_Params msg;
                k1 = (if \<not> Enabled (df_Params k) \<and> Enabled params
                      then SetEnabledHeight k (BlockHeight ctx) else k) in
        bindR (DynamicFee_SetParams k1 params) (\<lambda>k2.
        DynamicFee_SetState k2 (NewState (ParamsWindow params) (MinBaseGasPrice params) (MinLearningRate params)))))"

section \<open>Prices for other modules\<close>

text \<open>The interface \<^verbatim>\<open>DenomResolver\<close> and its two implementations for tests.\<close>

record denom_resolver =
  ConvertToDenom :: "dec_coin \<Rightarrow> string \<Rightarrow> dec_coin res"
  ExtraDenoms :: "string list res"

definition TestDenomResolver :: denom_resolver where
  "TestDenomResolver = \<lparr>ConvertToDenom = (\<lambda>coin denom. if DenomD coin = denom then Inr coin
     else NewDecCoinFromDec denom (AmountD coin)), ExtraDenoms = Inr []\<rparr>"

definition ErrorDenomResolver :: denom_resolver where
  "ErrorDenomResolver = \<lparr>ConvertToDenom = (\<lambda>coin denom. if DenomD coin = denom then Inr coin
     else Inl (Err ''error resolving denom'')), ExtraDenoms = Inr []\<rparr>"

definition ResolveToDenom :: "denom_resolver option \<Rightarrow> dec_coin \<Rightarrow> string \<Rightarrow> dec_coin res" where
  "ResolveToDenom resolver coin denom = (case resolver of
     None \<Rightarrow> Inl (Err ''denom resolver interface not set'')
   | Some r \<Rightarrow> ConvertToDenom r coin denom)"

definition GetBaseGasPrice :: "df_store \<Rightarrow> dec" where
  "GetBaseGasPrice k = BaseGasPrice (df_State k)"

definition GetLearningRate :: "df_store \<Rightarrow> dec" where
  "GetLearningRate k = LearningRate (df_State k)"

definition GetMinGasPrice :: "denom_resolver option \<Rightarrow> df_store \<Rightarrow> string \<Rightarrow> dec_coin res" where
  "GetMinGasPrice resolver k denom =
     bindR (NewDecCoinFromDec (FeeDenom (df_Params k)) (GetBaseGasPrice k)) (\<lambda>gasPrice.
       if FeeDenom (df_Params k) = denom then Inr gasPrice else ResolveToDenom resolver gasPrice denom)"

definition GetMinGasPrices :: "math_ops \<Rightarrow> denom_resolver option \<Rightarrow> df_store \<Rightarrow> dec_coins res" where
  "GetMinGasPrices M resolver k =
     bindR (NewDecCoinFromDec (FeeDenom (df_Params k)) (GetBaseGasPrice k)) (\<lambda>minGasPrice.
     bindR (NewDecCoins [minGasPrice]) (\<lambda>minGasPrices.
     case resolver of None \<Rightarrow> Inl (Panic ''nil pointer dereference'')
     | Some r \<Rightarrow> bindR (ExtraDenoms r) (\<lambda>extraDenoms.
         foldR (\<lambda>denom prices. case ResolveToDenom resolver minGasPrice denom of
             Inl (Err _) \<Rightarrow> Inr prices
           | Inl (Panic s) \<Rightarrow> Inl (Panic s)
           | Inr gasPrice \<Rightarrow> DecCoins_Add M prices [gasPrice]) extraDenoms minGasPrices)))"

section \<open>Each computation under validated parameters\<close>

lemma DynamicFee_Params_ValidateBasicD:
  assumes "DynamicFee_Params_ValidateBasic p = Inr u"
  shows "ParamsWindow p \<noteq> 0" and "ParamsWindow p \<le> MaxWindow" and "0 \<le> Alpha p" and "0 \<le> Beta p"
    and "Beta p \<le> precision" and "0 \<le> Gamma p" and "Gamma p \<le> 5 * 10 ^ 17" and "0 \<le> MinBaseGasPrice p"
    and "0 < TargetBlockUtilization p" and "TargetBlockUtilization p \<le> precision"
    and "DefaultMaxBlockGas p \<noteq> 0" and "DefaultMaxBlockGas p \<le> maxDefaultMaxBlockGas"
    and "0 \<le> MinLearningRate p" and "MinLearningRate p \<le> MaxLearningRate p" and "FeeDenom p \<noteq> []"
  using assms unfolding DynamicFee_Params_ValidateBasic_def by (simp_all split: if_splits)

context sdk_math
begin

lemma GetTargetBlockGas_total:
  assumes "is_uint64 g" and "0 < TargetBlockUtilization p" and "TargetBlockUtilization p \<le> precision"
  obtains t where "GetTargetBlockGas M g p = Inr t" and "0 \<le> t" and "t \<le> g"
proof -
  have "g * precision * TargetBlockUtilization p \<le> (2 ^ 64 * precision) * precision"
    using assms by (intro mult_mono) (auto simp: precision_def)
  then have "\<bar>dec_of_int g * TargetBlockUtilization p\<bar> < 2 ^ 256 * precision"
    using assms by (simp add: dec_of_int_def abs_mult precision_def)
  then obtain z where z: "dec_Mul M (dec_of_int g) (TargetBlockUtilization p) = Inr z"
    using dec_Mul_safe by blast
  have "0 \<le> z" using dec_Mul_nonneg [OF z] assms by (simp add: dec_of_int_def)
  moreover have "z \<le> g * precision"
    using dec_Mul_le_any [OF z] assms by (simp add: dec_of_int_def)
  ultimately have q: "0 \<le> z sdiv precision" "z sdiv precision \<le> g"
    using zdiv_mono1 [of z "g * precision" precision] by (simp_all add: sdiv_nonneg pos_imp_zdiv_nonneg_iff)
  then have t: "dec_TruncateInt M z = Inr (z sdiv precision)"
    using assms by (auto simp: dec_TruncateInt_Inr int_ok_def)
  show ?thesis
    using that [of "z sdiv precision"] z t q assms by (simp add: GetTargetBlockGas_def)
qed

lemma GetTargetBlockGas_no_err: "no_err (GetTargetBlockGas M g p)"
  by (simp add: GetTargetBlockGas_def no_err_bindR)

lemma GetAverageGas_no_err: "no_err (State_GetAverageGas M s g)"
  by (simp add: State_GetAverageGas_def Let_def no_err_bindR)

lemma GetAverageGas_total:
  assumes "is_uint64 g" and "g \<noteq> 0" and "Window s \<noteq> []" and "int (length (Window s)) \<le> MaxWindow"
  shows "\<exists>avg. State_GetAverageGas M s g = Inr avg"
proof -
  define n where "n = int (length (Window s))"
  have n: "0 < n" "n \<le> 1000000" using assms by (auto simp: n_def MaxWindow_def)
  have gn: "g * n \<le> 2 ^ 64 * 1000000" "0 < g * n" using assms n mult_mono [of g "2 ^ 64" n 1000000] by auto
  have "\<bar>g * n * precision\<bar> \<le> 2 ^ 64 * 1000000 * precision"
    using gn by (simp add: abs_mult)
  also have "\<dots> \<le> dec_max" by (simp add: precision_def dec_max_def)
  finally have d: "dec_Mul M (dec_of_int g) (dec_of_int n) = Inr (g * n * precision)"
    by (intro dec_Mul_exact) (auto simp: dec_of_int_def dec_ok_def algebra_simps)
  define total where "total = foldl (\<lambda>t gas. wrapu64 (t + gas)) 0 (Window s)"
  have "is_uint64 total"
    unfolding total_def using assms(3) by (cases "Window s" rule: rev_cases) (auto simp: wrapu64_def)
  then have "\<bar>dec_of_int total\<bar> * precision < 2 ^ 64 * precision * precision"
    by (simp add: dec_of_int_def abs_mult precision_def)
  also have "\<dots> \<le> 2 ^ 256 * precision" by (simp add: precision_def)
  also have "\<dots> \<le> 2 ^ 256 * \<bar>g * n * precision\<bar>"
  proof (rule mult_left_mono)
    have "1 * precision \<le> g * n * precision" using gn(2) by (intro mult_right_mono) auto
    then show "precision \<le> \<bar>g * n * precision\<bar>" by linarith
  qed simp
  finally have "\<bar>dec_of_int total\<bar> * precision < 2 ^ 256 * \<bar>g * n * precision\<bar>" .
  moreover have "g * n * precision \<noteq> 0" using n(1) assms(2) by simp
  ultimately obtain q where "dec_Quo M (dec_of_int total) (g * n * precision) = Inr q"
    using dec_Quo_safe by blast
  with d show ?thesis by (simp add: State_GetAverageGas_def total_def n_def)
qed

lemma GetNetGas_total:
  assumes "is_uint64 g" and "0 < TargetBlockUtilization p" and "TargetBlockUtilization p \<le> precision"
    and "\<forall>w \<in> set (Window s). is_uint64 w" and "int (length (Window s)) \<le> MaxWindow"
  shows "\<exists>net. State_GetNetGas M s g p = Inr net"
proof -
  obtain t where t: "GetTargetBlockGas M g p = Inr t" "0 \<le> t" "t \<le> g"
    using GetTargetBlockGas_total [OF assms(1-3)] .
  have step: "\<exists>net. foldR (\<lambda>gas net. bindR (int_Sub M gas t) (\<lambda>diff. int_Add M net diff)) ws n0 = Inr net"
    if "\<forall>w \<in> set ws. is_uint64 w" "\<bar>n0\<bar> + 2 ^ 65 * int (length ws) < 2 ^ 256" for ws n0
    using that
  proof (induction ws arbitrary: n0)
    case (Cons w ws)
    have b: "\<bar>w - t\<bar> < 2 ^ 65" using Cons.prems(1) t assms(1) by auto
    have l: "\<bar>n0\<bar> + (2 ^ 65 * int (length ws) + 2 ^ 65) < 2 ^ 256"
      using Cons.prems(2) by (simp add: algebra_simps)
    have "int_ok (w - t)" using b by (simp add: int_ok_def)
    moreover have "int_ok (n0 + (w - t))" using b l by (simp add: int_ok_def)
    moreover have "\<exists>net. foldR (\<lambda>gas net. bindR (int_Sub M gas t) (\<lambda>diff. int_Add M net diff)) ws (n0 + (w - t)) = Inr net"
      using Cons b l by simp
    ultimately show ?case by (simp add: int_ok_Sub int_ok_Add)
  qed simp
  have "2 ^ 65 * int (length (Window s)) \<le> 2 ^ 65 * 1000000"
    using assms(5) by (simp add: MaxWindow_def)
  then show ?thesis
    using step [OF assms(4), of 0] t by (simp add: State_GetNetGas_def)
qed

text \<open>The learning rate stays between its bounds, the base gas price above its minimum.\<close>

lemma UpdateLearningRate_total:
  assumes "DynamicFee_Params_ValidateBasic p = Inr ()"
  obtains lr where "State_UpdateLearningRate M s p g = Inr (s\<lparr>LearningRate := lr\<rparr>, lr)"
    and "MinLearningRate p \<le> LearningRate s \<Longrightarrow> LearningRate s \<le> MaxLearningRate p \<Longrightarrow>
      MinLearningRate p \<le> lr \<and> lr \<le> MaxLearningRate p"
proof -
  note v = DynamicFee_Params_ValidateBasicD [OF assms(1)]
  let ?body = "bindR (State_GetAverageGas M s g) (\<lambda>avg.
      bindR (if avg \<le> Gamma p then Inr True
             else bindR (dec_Sub M precision (Gamma p)) (\<lambda>u. Inr (avg \<ge> u))) (\<lambda>outside.
      bindR (if outside
             then bindR (dec_Add M (Alpha p) (LearningRate s)) (\<lambda>lr.
                    Inr (if lr > MaxLearningRate p then MaxLearningRate p else lr))
             else bindR (dec_Mul M (LearningRate s) (Beta p)) (\<lambda>lr.
                    Inr (if lr < MinLearningRate p then MinLearningRate p else lr))) (\<lambda>lr.
      Inr (s\<lparr>LearningRate := lr\<rparr>, lr))))"
  have "no_err ?body"
    by (intro no_err_bindR) (auto simp: GetAverageGas_no_err intro!: no_err_bindR)
  then show ?thesis
  proof (rule recoverR_cases [where d = "(s\<lparr>LearningRate := MinLearningRate p\<rparr>, MinLearningRate p)"])
    fix x assume b: "?body = Inr x"
      and r: "recoverR ?body (s\<lparr>LearningRate := MinLearningRate p\<rparr>, MinLearningRate p) = Inr x"
    obtain lr where x: "x = (s\<lparr>LearningRate := lr\<rparr>, lr)"
      and lr: "(\<exists>l. l = Alpha p + LearningRate s \<and> lr = (if l > MaxLearningRate p then MaxLearningRate p else l)) \<or>
        (\<exists>l. dec_Mul M (LearningRate s) (Beta p) = Inr l \<and> lr = (if l < MinLearningRate p then MinLearningRate p else l))"
      using b by (auto simp: bindR_eq_Inr dest!: dec_Add_Inr split: if_splits)
    have "MinLearningRate p \<le> lr \<and> lr \<le> MaxLearningRate p"
      if bounds: "MinLearningRate p \<le> LearningRate s" "LearningRate s \<le> MaxLearningRate p"
      using lr
    proof (elim disjE exE conjE)
      fix l assume "dec_Mul M (LearningRate s) (Beta p) = Inr l"
        and "lr = (if l < MinLearningRate p then MinLearningRate p else l)"
      then show ?thesis using dec_Mul_le_any v(5,13,14) bounds by fastforce
    qed (use v(3,14) bounds in auto)
    then show ?thesis using that [of lr] r x by (simp add: State_UpdateLearningRate_def)
  next
    assume "recoverR ?body (s\<lparr>LearningRate := MinLearningRate p\<rparr>, MinLearningRate p)
      = Inr (s\<lparr>LearningRate := MinLearningRate p\<rparr>, MinLearningRate p)"
    then show ?thesis using that [of "MinLearningRate p"] v(14) by (simp add: State_UpdateLearningRate_def)
  qed
qed

lemma UpdateBaseGasPrice_total:
  obtains bp lr where "State_UpdateBaseGasPrice M s p g = Inr (s\<lparr>BaseGasPrice := bp, LearningRate := lr\<rparr>, bp)"
    and "MinBaseGasPrice p \<le> bp" and "lr = LearningRate s \<or> lr = MinLearningRate p \<and> bp = MinBaseGasPrice p"
proof -
  let ?body = "bindR (indexR (Window s) (Index s)) (\<lambda>gas.
      bindR (GetTargetBlockGas M g p) (\<lambda>target.
      bindR (dec_Sub M (dec_of_int gas) (dec_of_int target)) (\<lambda>diff.
      bindR (dec_Quo M diff (dec_of_int target)) (\<lambda>avgGas.
      bindR (dec_Mul M (LearningRate s) avgGas) (\<lambda>a.
      bindR (dec_Add M precision a) (\<lambda>adj.
      bindR (dec_Mul M (BaseGasPrice s) adj) (\<lambda>gp.
      let gasPrice = (if gp < MinBaseGasPrice p then MinBaseGasPrice p else gp) in
      Inr (s\<lparr>BaseGasPrice := gasPrice\<rparr>, gasPrice))))))))"
  let ?d = "(s\<lparr>BaseGasPrice := MinBaseGasPrice p, LearningRate := MinLearningRate p\<rparr>, MinBaseGasPrice p)"
  have "no_err ?body"
    by (intro no_err_bindR) (auto simp: GetTargetBlockGas_no_err Let_def)
  then show ?thesis
  proof (rule recoverR_cases [where d = ?d])
    fix x assume b: "?body = Inr x" and r: "recoverR ?body ?d = Inr x"
    then obtain bp where "x = (s\<lparr>BaseGasPrice := bp\<rparr>, bp)" "MinBaseGasPrice p \<le> bp"
      by (auto simp: bindR_eq_Inr Let_def split: if_splits)
    then show ?thesis
      using that [where bp = bp and lr = "LearningRate s"] r
      by (cases s) (simp add: State_UpdateBaseGasPrice_def)
  next
    assume "recoverR ?body ?d = Inr ?d"
    then show ?thesis
      using that [where bp = "MinBaseGasPrice p" and lr = "MinLearningRate p"] by (simp add: State_UpdateBaseGasPrice_def)
  qed
qed

end

section \<open>The module as a transition system\<close>

text \<open>
  The values a \<^verbatim>\<open>uint64\<close> or \<^verbatim>\<open>int64\<close> field can hold, and the steps of the module between blocks: the
  end blocker, and a parameter message that passed its stateless validation.
\<close>

definition params_typed :: "df_params \<Rightarrow> bool" where
  "params_typed p \<longleftrightarrow> is_uint64 (ParamsWindow p) \<and> is_uint64 (DefaultMaxBlockGas p)"

definition state_typed :: "df_state \<Rightarrow> bool" where
  "state_typed s \<longleftrightarrow> (\<forall>w \<in> set (Window s). is_uint64 w) \<and> is_uint64 (Index s)"

definition ctx_typed :: "df_ctx \<Rightarrow> bool" where
  "ctx_typed ctx \<longleftrightarrow> is_int64 (Block_MaxGas ctx) \<and> (case BlockGasConsumed ctx of None \<Rightarrow> True | Some g \<Rightarrow> is_uint64 g)"

inductive df_step :: "math_ops \<Rightarrow> addr_ops \<Rightarrow> string \<Rightarrow> df_store \<Rightarrow> df_store \<Rightarrow> bool" for M A authority where
  end_block: "ctx_typed ctx \<Longrightarrow> DynamicFee_EndBlock M ctx k = Inr k' \<Longrightarrow> df_step M A authority k k'"
| update_params: "params_typed (Msg_Params msg) \<Longrightarrow> DynamicFee_MsgUpdateParams_ValidateBasic A msg = Inr () \<Longrightarrow>
    DynamicFee_UpdateParams authority ctx k msg = Inr k' \<Longrightarrow> df_step M A authority k k'"

definition df_initial :: "df_store \<Rightarrow> bool" where
  "df_initial k \<longleftrightarrow> (\<exists>k0 gs. params_typed (gs_Params gs) \<and> state_typed (gs_State gs) \<and>
     DynamicFee_InitGenesis k0 gs = Inr k)"

definition df_inv :: "df_store \<Rightarrow> bool" where
  "df_inv k \<longleftrightarrow> DynamicFee_Params_ValidateBasic (df_Params k) = Inr () \<and> params_typed (df_Params k) \<and>
     state_typed (df_State k) \<and> int (length (Window (df_State k))) = ParamsWindow (df_Params k) \<and>
     Index (df_State k) < ParamsWindow (df_Params k)"

definition df_bounds :: "df_store \<Rightarrow> bool" where
  "df_bounds k \<longleftrightarrow> MinBaseGasPrice (df_Params k) \<le> BaseGasPrice (df_State k) \<and>
     MinLearningRate (df_Params k) \<le> LearningRate (df_State k) \<and>
     LearningRate (df_State k) \<le> MaxLearningRate (df_Params k)"

lemma GetMaxBlockGas_range:
  assumes "df_inv k" and "ctx_typed ctx"
  shows "is_uint64 (GetMaxBlockGas ctx (df_Params k))" and "GetMaxBlockGas ctx (df_Params k) \<noteq> 0"
proof -
  have d: "DefaultMaxBlockGas (df_Params k) \<noteq> 0" "is_uint64 (DefaultMaxBlockGas (df_Params k))"
    using assms(1) DynamicFee_Params_ValidateBasicD(11) by (auto simp: df_inv_def params_typed_def)
  then show "is_uint64 (GetMaxBlockGas ctx (df_Params k))"
    unfolding GetMaxBlockGas_def by (auto simp: wrapu64_def)
  show "GetMaxBlockGas ctx (df_Params k) \<noteq> 0"
    using d assms(2) unfolding GetMaxBlockGas_def ctx_typed_def wrapu64_def by (auto simp: mod_eq_0_iff_dvd dvd_imp_le_int)
qed

lemma IncrementHeight_total:
  assumes "state_typed s" and "int (length (Window s)) = n" and "Index s < n" and "n \<le> MaxWindow"
  obtains s' where "State_IncrementHeight s = Inr s'" and "state_typed s'" and "length (Window s') = length (Window s)"
    and "Index s' < n" and "BaseGasPrice s' = BaseGasPrice s" and "LearningRate s' = LearningRate s"
proof -
  define i where "i = wrapu64 (Index s + 1) mod int (length (Window s))"
  define w where "w = (Window s)[nat i := 0]"
  have ne: "Window s \<noteq> []" using assms by (auto simp: state_typed_def)
  have i: "0 \<le> i" "i < n" using assms by (auto simp: i_def state_typed_def)
  have "\<forall>x \<in> set w. is_uint64 x"
    using assms(1) set_update_subset_insert [of "Window s" "nat i" 0] by (auto simp: state_typed_def w_def)
  then have t: "state_typed (s\<lparr>Index := i, Window := w\<rparr>)"
    using i assms(4) by (simp add: state_typed_def MaxWindow_def)
  have "updateR (Window s) i 0 = Inr w"
    using i assms(2) by (simp add: updateR_def w_def nat_less_iff)
  then have "State_IncrementHeight s = Inr (s\<lparr>Index := i, Window := w\<rparr>)"
    using ne by (simp add: State_IncrementHeight_def i_def)
  from that [OF this t] show ?thesis using i by (simp add: w_def)
qed

lemma record_block_gas:
  assumes "ctx_typed ctx" and "is_uint64 g"
    and "state_typed s" and "int (length (Window s)) = n" and "Index s < n"
  obtains w where "(case BlockGasConsumed ctx of None \<Rightarrow> Inr s
      | Some gas \<Rightarrow> bindR (updateR (Window s) (Index s) (if gas > g then g else gas))
          (\<lambda>w. Inr (s\<lparr>Window := w\<rparr>))) = Inr (s\<lparr>Window := w\<rparr>)"
    and "\<forall>x \<in> set w. is_uint64 x" and "length w = length (Window s)"
proof (cases "BlockGasConsumed ctx")
  case None
  then show ?thesis using that [of "Window s"] assms by (simp add: state_typed_def)
next
  case (Some gas)
  define gas' where "gas' = (if gas > g then g else gas)"
  have "is_uint64 gas'" using Some assms by (auto simp: ctx_typed_def gas'_def)
  then have "\<forall>x \<in> set ((Window s)[nat (Index s) := gas']). is_uint64 x"
    using assms(3) set_update_subset_insert [of "Window s" "nat (Index s)" gas'] by (auto simp: state_typed_def)
  then show ?thesis
    using that [of "(Window s)[nat (Index s) := gas']"] Some assms(3-5)
    by (simp add: updateR_def gas'_def nat_less_iff state_typed_def)
qed

context sdk_math
begin

lemma UpdateDynamicfee_total:
  assumes inv: "df_inv k" and ctx: "ctx_typed ctx"
  obtains k' where "UpdateDynamicfee M ctx k = Inr k'" and "df_inv k'" and "df_Params k' = df_Params k"
    and "df_bounds k \<Longrightarrow> df_bounds k'"
proof (cases "Enabled (df_Params k)")
  case False
  then show ?thesis using that [of k] inv by (simp add: UpdateDynamicfee_def)
next
  case True
  define p g s0 where "p = df_Params k" and "g = GetMaxBlockGas ctx p" and "s0 = df_State k"
  have pv: "DynamicFee_Params_ValidateBasic p = Inr ()" using inv by (simp add: df_inv_def p_def)
  note v = DynamicFee_Params_ValidateBasicD [OF pv]
  have g: "is_uint64 g" "g \<noteq> 0" using GetMaxBlockGas_range [OF inv ctx] by (simp_all add: g_def p_def)
  have s0: "state_typed s0" "int (length (Window s0)) = ParamsWindow p" "Index s0 < ParamsWindow p"
    using inv by (simp_all add: df_inv_def s0_def p_def)
  obtain w where w: "(case BlockGasConsumed ctx of None \<Rightarrow> Inr s0
      | Some gas \<Rightarrow> bindR (updateR (Window s0) (Index s0) (if gas > g then g else gas))
          (\<lambda>w. Inr (s0\<lparr>Window := w\<rparr>))) = Inr (s0\<lparr>Window := w\<rparr>)"
    and wt: "\<forall>x \<in> set w. is_uint64 x" "length w = length (Window s0)"
    using record_block_gas [OF ctx g(1) s0] by blast
  obtain lr where lr: "State_UpdateLearningRate M (s0\<lparr>Window := w\<rparr>) p g = Inr (s0\<lparr>Window := w, LearningRate := lr\<rparr>, lr)"
    and lrb: "MinLearningRate p \<le> LearningRate (s0\<lparr>Window := w\<rparr>) \<Longrightarrow>
      LearningRate (s0\<lparr>Window := w\<rparr>) \<le> MaxLearningRate p \<Longrightarrow> MinLearningRate p \<le> lr \<and> lr \<le> MaxLearningRate p"
    using UpdateLearningRate_total [OF pv, of "s0\<lparr>Window := w\<rparr>" g] by blast
  define s2 where "s2 = s0\<lparr>Window := w, LearningRate := lr\<rparr>"
  obtain bp lr' where bp: "State_UpdateBaseGasPrice M s2 p g = Inr (s2\<lparr>BaseGasPrice := bp, LearningRate := lr'\<rparr>, bp)"
    and bpb: "MinBaseGasPrice p \<le> bp" "lr' = LearningRate s2 \<or> lr' = MinLearningRate p \<and> bp = MinBaseGasPrice p"
    using UpdateBaseGasPrice_total [of s2 p g] by blast
  define s3 where "s3 = s2\<lparr>BaseGasPrice := bp, LearningRate := lr'\<rparr>"
  have s3: "state_typed s3" "int (length (Window s3)) = ParamsWindow p" "Index s3 < ParamsWindow p"
    using s0 wt by (simp_all add: s3_def s2_def state_typed_def)
  obtain avg where avg: "State_GetAverageGas M s3 g = Inr avg"
    using GetAverageGas_total [OF g, of s3] s3 v(1,2) by (metis list.size(3) of_nat_0)
  obtain net where net: "State_GetNetGas M s3 g p = Inr net"
    using GetNetGas_total [OF g(1) v(9,10), of s3] s3 v(2) by (auto simp: state_typed_def)
  obtain s4 where s4: "State_IncrementHeight s3 = Inr s4" "state_typed s4" "length (Window s4) = length (Window s3)"
    "Index s4 < ParamsWindow p" "BaseGasPrice s4 = BaseGasPrice s3" "LearningRate s4 = LearningRate s3"
    using IncrementHeight_total [OF s3 v(2)] by blast
  have r: "UpdateDynamicfee M ctx k = Inr (k\<lparr>df_State := s4\<rparr>)"
    using True w lr bp avg net s4(1)
    by (simp add: UpdateDynamicfee_def DynamicFee_SetState_def Let_def p_def [symmetric] g_def [symmetric]
        s0_def [symmetric] s2_def [symmetric] s3_def [symmetric])
  show ?thesis
  proof (rule that [OF r])
    show "df_inv (k\<lparr>df_State := s4\<rparr>)"
      using inv s3 s4 by (simp add: df_inv_def p_def)
    assume "df_bounds k"
    then show "df_bounds (k\<lparr>df_State := s4\<rparr>)"
      using s4(5,6) bpb lrb v(14) by (auto simp: df_bounds_def p_def s0_def s2_def s3_def)
  qed simp
qed

lemma df_step_inv:
  assumes "df_step M A authority k k'" and "df_inv k"
  shows "df_inv k' \<and> (df_bounds k \<longrightarrow> df_bounds k')"
  using assms(1)
proof cases
  case (end_block ctx)
  then show ?thesis
    using UpdateDynamicfee_total [OF assms(2) end_block(1)] by (metis DynamicFee_EndBlock_def sum.inject(2))
next
  case (update_params msg ctx)
  then have pv: "DynamicFee_Params_ValidateBasic (Msg_Params msg) = Inr ()"
    by (auto simp: DynamicFee_MsgUpdateParams_ValidateBasic_def bindR_eq_Inr)
  note v = DynamicFee_Params_ValidateBasicD [OF pv]
  have k': "df_Params k' = Msg_Params msg" "df_State k' = NewState (ParamsWindow (Msg_Params msg))
      (MinBaseGasPrice (Msg_Params msg)) (MinLearningRate (Msg_Params msg))"
    using update_params(3) by (auto simp: DynamicFee_UpdateParams_def Let_def DynamicFee_SetParams_def
        DynamicFee_SetState_def SetEnabledHeight_def split: if_splits)
  have "0 < ParamsWindow (Msg_Params msg)" using update_params(1) v(1) by (simp add: params_typed_def)
  then show ?thesis
    using k' pv v(14) update_params(1)
    by (auto simp: df_inv_def df_bounds_def NewState_def state_typed_def)
qed

lemma df_steps_inv:
  assumes "(df_step M A authority)\<^sup>*\<^sup>* k k'" and "df_inv k"
  shows "df_inv k' \<and> (df_bounds k \<longrightarrow> df_bounds k')"
  using assms by (induction rule: rtranclp_induct) (auto dest: df_step_inv)

lemma df_initial_inv: "df_initial k \<Longrightarrow> df_inv k"
  by (auto simp: df_initial_def DynamicFee_InitGenesis_def GenesisState_ValidateBasic_def bindR_eq_Inr
      DynamicFee_SetParams_def DynamicFee_SetState_def SetEnabledHeight_def df_inv_def State_ValidateBasic_def
      params_typed_def state_typed_def split: if_splits)

text \<open>
  The price follows the use of the block: at least the old price when the block used at least
  the target, at most the old price (or the minimum) when it used at most the target.
\<close>

lemma UpdateBaseGasPrice_direction:
  assumes "indexR (Window s) (Index s) = Inr cur" and "is_uint64 cur"
    and "GetTargetBlockGas M g p = Inr t" and "0 < t" and "t < 2 ^ 64"
    and "0 \<le> LearningRate s" and "LearningRate s \<le> precision"
    and "0 \<le> BaseGasPrice s" and "BaseGasPrice s < 2 ^ 100"
  obtains bp where "State_UpdateBaseGasPrice M s p g = Inr (s\<lparr>BaseGasPrice := bp\<rparr>, bp)"
    and "t \<le> cur \<Longrightarrow> BaseGasPrice s \<le> bp"
    and "cur \<le> t \<Longrightarrow> bp \<le> max (BaseGasPrice s) (MinBaseGasPrice p)"
proof -
  define diff where "diff = dec_of_int cur - dec_of_int t"
  have diff: "\<bar>diff\<bar> \<le> 2 ^ 64 * precision"
    using assms(2,4,5) by (auto simp: diff_def dec_of_int_def precision_def)
  then have sub: "dec_Sub M (dec_of_int cur) (dec_of_int t) = Inr diff"
    unfolding diff_def by (intro dec_ok_Sub) (simp add: dec_ok_def dec_max_def precision_def)
  have tp: "precision \<le> dec_of_int t" using assms(4) by (simp add: dec_of_int_def precision_def)
  then have tp0: "0 < dec_of_int t" using precision_pos by linarith
  have "\<bar>diff\<bar> * precision \<le> 2 ^ 64 * precision * precision"
    using diff by (intro mult_right_mono) simp_all
  also have "\<dots> < 2 ^ 256 * precision" by (simp add: precision_def)
  also have "\<dots> \<le> 2 ^ 256 * \<bar>dec_of_int t\<bar>" using tp by simp
  finally obtain avg where avg: "dec_Quo M diff (dec_of_int t) = Inr avg"
    using dec_Quo_safe tp0 by (metis order_less_irrefl)
  have avgb: "\<bar>avg\<bar> \<le> 2 ^ 64 * precision + 1"
    by (rule dec_Quo_bound [OF avg diff tp])
  have "\<bar>LearningRate s * avg\<bar> \<le> precision * (2 ^ 64 * precision + 1)"
    unfolding abs_mult using assms(6,7) avgb by (intro mult_mono) auto
  then have la: "\<bar>LearningRate s * avg\<bar> < 2 ^ 126 * precision" by (simp add: precision_def)
  also have "\<dots> < 2 ^ 256 * precision" by (simp add: precision_def)
  finally obtain a where a: "dec_Mul M (LearningRate s) avg = Inr a"
    using dec_Mul_safe by blast
  have ab: "\<bar>a\<bar> < 2 ^ 126 + 1" by (rule dec_Mul_bound [OF a la])
  have add: "dec_Add M precision a = Inr (precision + a)"
    using ab by (intro dec_ok_Add) (simp add: dec_ok_def dec_max_def precision_def)
  have "\<bar>BaseGasPrice s * (precision + a)\<bar> \<le> 2 ^ 100 * 2 ^ 127"
    unfolding abs_mult using assms(8,9) ab by (intro mult_mono) (auto simp: precision_def)
  also have "\<dots> < 2 ^ 256 * precision" by (simp add: precision_def)
  finally obtain z where z: "dec_Mul M (BaseGasPrice s) (precision + a) = Inr z"
    using dec_Mul_safe by blast
  define bp where "bp = (if z < MinBaseGasPrice p then MinBaseGasPrice p else z)"
  have r: "State_UpdateBaseGasPrice M s p g = Inr (s\<lparr>BaseGasPrice := bp\<rparr>, bp)"
    using assms(1,3) sub avg a add z by (simp add: State_UpdateBaseGasPrice_def bp_def Let_def)
  show ?thesis
  proof (rule that [OF r])
    assume "t \<le> cur"
    then have "0 \<le> diff" by (simp add: diff_def dec_of_int_def precision_def)
    then have "0 \<le> a" using dec_Quo_nonneg [OF avg _ tp0] dec_Mul_nonneg [OF a assms(6)] by simp
    then show "BaseGasPrice s \<le> bp" using dec_Mul_ge [OF z assms(8)] by (simp add: bp_def)
  next
    assume "cur \<le> t"
    then have "diff \<le> 0" by (simp add: diff_def dec_of_int_def precision_def)
    then have "avg \<le> 0" using dec_Quo_uminus_range [OF avg _ tp0] by simp
    then have "a \<le> 0" using dec_Mul_nonpos [OF a] assms(6) by (simp add: mult_nonneg_nonpos)
    then show "bp \<le> max (BaseGasPrice s) (MinBaseGasPrice p)"
      using dec_Mul_le_any [OF z assms(8)] by (simp add: bp_def)
  qed
qed

end

section \<open>Properties\<close>

definition ex_df_ctx :: df_ctx where
  "ex_df_ctx = \<lparr>BlockHeight = 7, Block_MaxGas = -1, BlockGasConsumed = Some 60000000\<rparr>"

definition ex_df_store :: df_store where
  "ex_df_store = \<lparr>df_Params = DefaultAIMDParams, df_State = DefaultAIMDState, df_EnabledHeight = Some (-1)\<rparr>"

lemma ex_df_initial: "df_initial ex_df_store"
  unfolding df_initial_def
  by (intro exI [of _ ex_df_store] exI [of _ DefaultAIMDGenesisState]) code_simp

lemma ex_df_bounds: "df_bounds ex_df_store"
  by code_simp

lemma ex_df_ctx_typed: "ctx_typed ex_df_ctx"
  by code_simp

text \<open>C7: from every accepted genesis state, after any sequence of blocks and validated parameter
  messages, the end blocker of the module returns: it neither fails nor panics, whatever the block
  gas and the consensus gas limit are, and it leaves the parameters as they were.\<close>

theorem dynamicfee_never_halts:
  assumes "sdk_math M" and "df_initial k0" and "(df_step M A authority)\<^sup>*\<^sup>* k0 k" and "ctx_typed ctx"
  shows "\<exists>k'. DynamicFee_EndBlock M ctx k = Inr k' \<and> df_Params k' = df_Params k"
proof -
  have "df_inv k"
    using sdk_math.df_steps_inv [OF assms(1,3)] sdk_math.df_initial_inv [OF assms(1,2)] by simp
  then show ?thesis
    using sdk_math.UpdateDynamicfee_total [OF assms(1) _ assms(4)] by (metis DynamicFee_EndBlock_def)
qed

theorem dynamicfee_never_halts_witness:
  "sdk_math ref_math \<and> df_initial ex_df_store \<and> ctx_typed ex_df_ctx \<and>
    (\<exists>k'. DynamicFee_EndBlock ref_math ex_df_ctx ex_df_store = Inr k' \<and> df_Params k' = df_Params ex_df_store)"
proof (intro conjI)
  show "\<exists>k'. DynamicFee_EndBlock ref_math ex_df_ctx ex_df_store = Inr k' \<and> df_Params k' = df_Params ex_df_store"
    by (rule dynamicfee_never_halts [where A = ex_addr and authority = "''atone1gov''",
      OF ref_math_laws ex_df_initial rtranclp.rtrancl_refl ex_df_ctx_typed])
qed (rule ref_math_laws ex_df_initial ex_df_ctx_typed)+

text \<open>C8: once the base gas price is at least its minimum and the learning rate is between its bounds,
  this stays so after any sequence of blocks and validated parameter messages, against the
  parameters then in force; the window keeps the length of the parameters and its index is in range.\<close>

theorem dynamicfee_bounds:
  assumes "sdk_math M" and "df_initial k" and "df_bounds k" and "(df_step M A authority)\<^sup>*\<^sup>* k k'"
  shows "MinBaseGasPrice (df_Params k') \<le> BaseGasPrice (df_State k') \<and>
    MinLearningRate (df_Params k') \<le> LearningRate (df_State k') \<and>
    LearningRate (df_State k') \<le> MaxLearningRate (df_Params k') \<and>
    int (length (Window (df_State k'))) = ParamsWindow (df_Params k') \<and>
    0 \<le> Index (df_State k') \<and> Index (df_State k') < ParamsWindow (df_Params k')"
proof -
  have "df_inv k' \<and> df_bounds k'"
    using sdk_math.df_steps_inv [OF assms(1,4)] sdk_math.df_initial_inv [OF assms(1,2)] assms(3) by simp
  then show ?thesis by (simp add: df_bounds_def df_inv_def state_typed_def)
qed

theorem dynamicfee_bounds_witness:
  "sdk_math ref_math \<and> df_initial ex_df_store \<and> df_bounds ex_df_store \<and>
    MinBaseGasPrice (df_Params ex_df_store) \<le> BaseGasPrice (df_State ex_df_store)"
  using dynamicfee_bounds [where A = ex_addr and authority = "''atone1gov''",
    OF ref_math_laws ex_df_initial ex_df_bounds rtranclp.rtrancl_refl] ref_math_laws ex_df_initial ex_df_bounds by simp



text \<open>C18: exporting the state of a reachable store and importing it again gives back parameters and
  state, with the enabled height reset, exactly when base gas price and learning rate are positive;
  otherwise the import panics.\<close>

theorem dynamicfee_genesis_roundtrip:
  assumes "sdk_math M" and "df_initial k0" and "(df_step M A authority)\<^sup>*\<^sup>* k0 k"
  shows "if 0 < BaseGasPrice (df_State k) \<and> 0 < LearningRate (df_State k)
    then DynamicFee_InitGenesis k1 (DynamicFee_ExportGenesis k) = Inr (k\<lparr>df_EnabledHeight := Some (-1)\<rparr>)
    else \<exists>msg. DynamicFee_InitGenesis k1 (DynamicFee_ExportGenesis k) = Inl (Panic msg)"
proof -
  have "df_inv k"
    using sdk_math.df_steps_inv [OF assms(1,3)] sdk_math.df_initial_inv [OF assms(1,2)] by simp
  then have v: "DynamicFee_Params_ValidateBasic (df_Params k) = Inr ()" "state_typed (df_State k)"
    "int (length (Window (df_State k))) = ParamsWindow (df_Params k)" "Index (df_State k) < ParamsWindow (df_Params k)"
    by (simp_all add: df_inv_def)
  then have "Window (df_State k) \<noteq> []" by (auto simp: state_typed_def)
  then show ?thesis
    using v by (auto simp: DynamicFee_InitGenesis_def DynamicFee_ExportGenesis_def DynamicFee_NewGenesisState_def
        GenesisState_ValidateBasic_def State_ValidateBasic_def DynamicFee_SetParams_def DynamicFee_SetState_def
        SetEnabledHeight_def)
qed

theorem dynamicfee_genesis_roundtrip_witness:
  "sdk_math ref_math \<and> df_initial ex_df_store \<and>
    DynamicFee_InitGenesis ex_df_store (DynamicFee_ExportGenesis ex_df_store) = Inr (ex_df_store\<lparr>df_EnabledHeight := Some (-1)\<rparr>)"
proof -
  have "0 < BaseGasPrice (df_State ex_df_store)" "0 < LearningRate (df_State ex_df_store)" by code_simp+
  then show ?thesis
    using dynamicfee_genesis_roundtrip [where A = ex_addr and authority = "''atone1gov''"
      and ?k1.0 = ex_df_store, OF ref_math_laws ex_df_initial rtranclp.rtrancl_refl] ref_math_laws ex_df_initial by simp
qed

text \<open>C38: two parameter messages that pass validation and are executed but break the module afterwards:
  with a minimum gas price of zero the exported genesis cannot be imported, and with a fee denomination
  that is no coin denomination every request of a gas price panics, for every denomination and resolver.\<close>

theorem validated_params_break:
  "\<exists>msg k. DynamicFee_MsgUpdateParams_ValidateBasic ex_addr msg = Inr () \<and>
     DynamicFee_UpdateParams ''atone1gov'' ex_df_ctx ex_df_store msg = Inr k \<and>
     (\<exists>s. DynamicFee_InitGenesis ex_df_store (DynamicFee_ExportGenesis k) = Inl (Panic s)) \<and>
     (\<forall>resolver denom. \<exists>s. GetMinGasPrice resolver k denom = Inl (Panic s))"
proof -
  let ?msg = "\<lparr>Msg_Authority = ''atone1gov'', Msg_Params = DefaultAIMDParams\<lparr>MinBaseGasPrice := 0, FeeDenom := ''a''\<rparr>\<rparr>"
  let ?k = "ex_df_store\<lparr>df_Params := Msg_Params ?msg, df_State := NewState 8 0 (10 ^ 16)\<rparr>"
  have "DynamicFee_MsgUpdateParams_ValidateBasic ex_addr ?msg = Inr ()" by code_simp
  moreover have "DynamicFee_UpdateParams ''atone1gov'' ex_df_ctx ex_df_store ?msg = Inr ?k" by code_simp
  moreover have "DynamicFee_InitGenesis ex_df_store (DynamicFee_ExportGenesis ?k) = Inl (Panic ''base gas price must be positive'')"
    by code_simp
  moreover have "\<exists>s. GetMinGasPrice resolver ?k denom = Inl (Panic s)" for resolver denom
    by (simp add: GetMinGasPrice_def NewDecCoinFromDec_def mustValidateDenom_def ValidateDenom_def reDnm_MatchString_def)
  ultimately show ?thesis by blast
qed

text \<open>A genesis state may start with a learning rate above its maximum, and the update keeps it there.\<close>

lemma genesis_rate_unbounded:
  "\<exists>k k'. df_initial k \<and> DynamicFee_EndBlock ref_math ex_df_ctx k = Inr k' \<and>
     MaxLearningRate (df_Params k') < LearningRate (df_State k')"
proof -
  let ?k = "\<lparr>df_Params = DefaultAIMDParams, df_State = DefaultAIMDState\<lparr>LearningRate := 2 * precision,
      Window := [0, 60000000, 60000000, 60000000, 60000000, 60000000, 60000000, 60000000]\<rparr>, df_EnabledHeight = Some (-1)\<rparr>"
  have "df_initial ?k"
    unfolding df_initial_def
    by (intro exI [of _ ex_df_store] exI [of _ "\<lparr>gs_Params = df_Params ?k, gs_State = df_State ?k\<rparr>"]) code_simp
  moreover have "case DynamicFee_EndBlock ref_math ex_df_ctx ?k of Inl _ \<Rightarrow> False
      | Inr k' \<Rightarrow> MaxLearningRate (df_Params k') < LearningRate (df_State k')"
    by code_simp
  ultimately show ?thesis by (auto split: sum.splits)
qed

end
