(* ===== verification/Store.thy ===== *)
theory Store
  imports Prelude "HOL-Library.Product_Lexorder"
begin

text \<open>
  The key-value collections that the keepers hold (\<^verbatim>\<open>collections.Map\<close> and \<^verbatim>\<open>collections.Item\<close> of a
  dependency of the repository). What a keeper relies on is the locale \<open>kv_store\<close>: a lookup
  returns what was stored last under the key, and a walk visits every entry once in the order of
  the encoded keys. A collection is represented by the list of its entries in that order; the
  operations on such lists satisfy the laws. A read error other than a missing key (a corrupt
  encoding) is outside the model.
\<close>

section \<open>The interface\<close>

locale kv_store =
  fixes wf :: "'s \<Rightarrow> bool"
    and get :: "'s \<Rightarrow> 'k::linorder \<Rightarrow> 'v option"
    and put :: "'s \<Rightarrow> 'k \<Rightarrow> 'v \<Rightarrow> 's"
    and rem :: "'s \<Rightarrow> 'k \<Rightarrow> 's"
    and walk :: "'s \<Rightarrow> ('k \<times> 'v) list"
  assumes get_walk: "wf s \<Longrightarrow> get s k = map_of (walk s) k"
    and walk_sorted: "wf s \<Longrightarrow> strict_sorted_by fst (walk s)"
    and wf_put: "wf s \<Longrightarrow> wf (put s k v)"
    and wf_rem: "wf s \<Longrightarrow> wf (rem s k)"
    and get_put: "wf s \<Longrightarrow> get (put s k v) k' = (if k' = k then Some v else get s k')"
    and get_rem: "wf s \<Longrightarrow> get (rem s k) k' = (if k' = k then None else get s k')"
begin

lemma walk_distinct: "wf s \<Longrightarrow> distinct (map fst (walk s))"
  using strict_sorted_distinct walk_sorted by blast

lemma walk_iff_get: "wf s \<Longrightarrow> (k, v) \<in> set (walk s) \<longleftrightarrow> get s k = Some v"
  by (simp add: get_walk walk_distinct)

text \<open>The sum of a weight over the entries, and how a write changes it.\<close>

lemma weight_as_sum:
  fixes f :: "'k \<times> 'v \<Rightarrow> int"
  assumes "wf s"
  shows "sum_list (map f (walk s)) = (\<Sum>k \<in> {k. get s k \<noteq> None}. f (k, the (get s k)))"
proof -
  have "sum_list (map f (walk s)) = (\<Sum>e \<in> set (walk s). f e)"
    using walk_distinct [OF assms] by (simp add: sum_list_distinct_conv_sum_set distinct_map)
  also have "set (walk s) = (\<lambda>k. (k, the (get s k))) ` {k. get s k \<noteq> None}"
    using walk_iff_get [OF assms] by (auto simp: image_iff)
  also have "(\<Sum>e \<in> \<dots>. f e) = (\<Sum>k \<in> {k. get s k \<noteq> None}. f (k, the (get s k)))"
    by (subst sum.reindex) (auto simp: inj_on_def)
  finally show ?thesis .
qed

lemma finite_keys: "wf s \<Longrightarrow> finite {k. get s k \<noteq> None}"
proof -
  assume "wf s"
  then have "{k. get s k \<noteq> None} = fst ` set (walk s)"
    using walk_iff_get by (force simp: image_iff)
  then show ?thesis by simp
qed

definition weight_at :: "('k \<times> 'v \<Rightarrow> int) \<Rightarrow> 's \<Rightarrow> 'k \<Rightarrow> int" where
  "weight_at f s k = (case get s k of None \<Rightarrow> 0 | Some v \<Rightarrow> f (k, v))"

lemma weight_as_sum_at:
  assumes "wf s" and "finite K" and "{k. get s k \<noteq> None} \<subseteq> K"
  shows "sum_list (map f (walk s)) = (\<Sum>k \<in> K. weight_at f s k)"
  unfolding weight_as_sum [OF assms(1)] using assms
  by (intro sum.mono_neutral_cong_left) (auto simp: weight_at_def)

lemma weight_write:
  assumes "wf s" and "wf s'" and "\<And>j. j \<noteq> k \<Longrightarrow> get s' j = get s j"
  shows "sum_list (map f (walk s')) = sum_list (map f (walk s)) - weight_at f s k + weight_at f s' k"
proof -
  define K where "K = insert k ({k. get s k \<noteq> None} \<union> {k. get s' k \<noteq> None})"
  have fin: "finite K" "k \<in> K" using finite_keys assms by (simp_all add: K_def)
  have sub: "{k. get s k \<noteq> None} \<subseteq> K" "{k. get s' k \<noteq> None} \<subseteq> K" by (auto simp: K_def)
  have "sum_list (map f (walk s')) = weight_at f s' k + (\<Sum>j \<in> K - {k}. weight_at f s' j)"
    unfolding weight_as_sum_at [OF assms(2) fin(1) sub(2)] by (rule sum.remove [OF fin])
  moreover have "sum_list (map f (walk s)) = weight_at f s k + (\<Sum>j \<in> K - {k}. weight_at f s j)"
    unfolding weight_as_sum_at [OF assms(1) fin(1) sub(1)] by (rule sum.remove [OF fin])
  moreover have "(\<Sum>j \<in> K - {k}. weight_at f s' j) = (\<Sum>j \<in> K - {k}. weight_at f s j)"
    using assms(3) by (intro sum.cong) (auto simp: weight_at_def)
  ultimately show ?thesis by simp
qed

lemma weight_put:
  assumes "wf s"
  shows "sum_list (map f (walk (put s k v))) = sum_list (map f (walk s)) - weight_at f s k + f (k, v)"
  using weight_write [OF assms wf_put [OF assms, of k v], of k f] by (simp add: get_put assms weight_at_def)

lemma weight_rem:
  assumes "wf s"
  shows "sum_list (map f (walk (rem s k))) = sum_list (map f (walk s)) - weight_at f s k"
  using weight_write [OF assms wf_rem [OF assms, of k], of k f] by (simp add: get_rem assms weight_at_def)

end

section \<open>Entries in key order\<close>

type_synonym ('k, 'v) store = "('k \<times> 'v) list"

definition store_wf :: "('k::linorder, 'v) store \<Rightarrow> bool" where
  "store_wf s \<longleftrightarrow> strict_sorted_by fst s"

definition store_get :: "('k, 'v) store \<Rightarrow> 'k \<Rightarrow> 'v option" where
  "store_get s k = map_of s k"

definition store_has :: "('k, 'v) store \<Rightarrow> 'k \<Rightarrow> bool" where
  "store_has s k \<longleftrightarrow> store_get s k \<noteq> None"

fun store_put :: "('k::linorder, 'v) store \<Rightarrow> 'k \<Rightarrow> 'v \<Rightarrow> ('k, 'v) store" where
  "store_put [] k v = [(k, v)]"
| "store_put ((k', v') # s) k v =
     (if k < k' then (k, v) # (k', v') # s else if k = k' then (k, v) # s else (k', v') # store_put s k v)"

definition store_rem :: "('k, 'v) store \<Rightarrow> 'k \<Rightarrow> ('k, 'v) store" where
  "store_rem s k = filter (\<lambda>e. fst e \<noteq> k) s"

definition store_walk :: "('k, 'v) store \<Rightarrow> ('k \<times> 'v) list" where
  "store_walk s = s"

lemma store_put_keys: "fst ` set (store_put s k v) = insert k (fst ` set s)"
  by (induction s k v rule: store_put.induct) auto

lemma store_wf_put: "store_wf s \<Longrightarrow> store_wf (store_put s k v)"
proof (induction s k v rule: store_put.induct)
  case (2 k' v' s k v)
  then have "\<forall>x \<in> set s. k' < fst x" by (auto simp: store_wf_def)
  moreover have "\<forall>x \<in> fst ` set (store_put s k v). x = k \<or> x \<in> fst ` set s"
    by (simp add: store_put_keys)
  ultimately show ?case using 2 by (fastforce simp: store_wf_def)
qed (simp add: store_wf_def)

lemma store_get_put: "store_get (store_put s k v) k' = (if k' = k then Some v else store_get s k')"
  by (induction s k v rule: store_put.induct) (auto simp: store_get_def)

lemma store_get_rem: "store_get (store_rem s k) k' = (if k' = k then None else store_get s k')"
  by (induction s) (auto simp: store_get_def store_rem_def)

interpretation kv: kv_store store_wf store_get store_put store_rem store_walk
proof
  fix s :: "('k::linorder, 'v) store" and k :: 'k
  show "store_wf s \<Longrightarrow> store_wf (store_rem s k)"
    unfolding store_wf_def store_rem_def by (rule strict_sorted_by_filter)
qed (simp_all add: store_get_put store_get_rem store_wf_put, simp_all add: store_get_def store_walk_def store_wf_def)

lemmas store_simps [simp] = store_get_put store_get_rem

lemma store_wf_simps [simp]:
  "store_wf []" "store_wf s \<Longrightarrow> store_wf (store_put s k v)" "store_wf s \<Longrightarrow> store_wf (store_rem s k)"
  using kv.wf_rem by (auto simp: store_wf_put) (simp add: store_wf_def)

lemma store_in_set: "store_wf s \<Longrightarrow> (k, v) \<in> set s \<longleftrightarrow> store_get s k = Some v"
  using kv.walk_iff_get by (simp add: store_walk_def)

section \<open>Addresses as keys\<close>

text \<open>
  In the key of a pair an address is encoded with its length in front
  (\<^verbatim>\<open>genericAddressKey.EncodeNonTerminal\<close>), so that entries are ordered by the length of the address
  first and by its bytes second.
\<close>

datatype acc_key = AccKey (acc_bytes: string)

instantiation acc_key :: linorder
begin

definition less_eq_acc_key :: "acc_key \<Rightarrow> acc_key \<Rightarrow> bool" where
  "less_eq_acc_key a b \<longleftrightarrow> length (acc_bytes a) < length (acc_bytes b) \<or>
     length (acc_bytes a) = length (acc_bytes b) \<and> acc_bytes a \<le> acc_bytes b"

definition less_acc_key :: "acc_key \<Rightarrow> acc_key \<Rightarrow> bool" where
  "less_acc_key a b \<longleftrightarrow> length (acc_bytes a) < length (acc_bytes b) \<or>
     length (acc_bytes a) = length (acc_bytes b) \<and> acc_bytes a < acc_bytes b"

instance
  by standard (auto simp: less_eq_acc_key_def less_acc_key_def acc_key.expand)

end

end
