(* ===== verification/AuthKeeper.thy ===== *)
theory AuthKeeper
  imports Vesting Store
begin

text \<open>
  The account keeper, \<^verbatim>\<open>x/auth/keeper/account.go\<close> and \<^verbatim>\<open>keeper.go\<close>: accounts by address with a unique
  index on the account number, the global account number, module accounts with their registered
  permissions. An account is one of the account types of the repository; the vesting interface of
  \<^verbatim>\<open>x/bank/types/vesting.go\<close> is defined by cases on it.
\<close>

section \<open>Accounts\<close>

datatype account =
    Acc_Base base_account
  | Acc_Module module_account
  | Acc_Continuous continuous_vesting_account
  | Acc_Periodic periodic_vesting_account
  | Acc_Delayed delayed_vesting_account
  | Acc_PermanentLocked permanent_locked_account

fun AccountI_GetAddress :: "addr_ops \<Rightarrow> account \<Rightarrow> string" where
  "AccountI_GetAddress A (Acc_Base acc) = BaseAccount_GetAddress A acc"
| "AccountI_GetAddress A (Acc_Module acc) = BaseAccount_GetAddress A acc"
| "AccountI_GetAddress A (Acc_Continuous acc) = BaseAccount_GetAddress A (BaseAccount acc)"
| "AccountI_GetAddress A (Acc_Periodic acc) = BaseAccount_GetAddress A (BaseAccount acc)"
| "AccountI_GetAddress A (Acc_Delayed acc) = BaseAccount_GetAddress A (BaseAccount acc)"
| "AccountI_GetAddress A (Acc_PermanentLocked acc) = BaseAccount_GetAddress A (BaseAccount acc)"

fun AccountI_GetAccountNumber :: "account \<Rightarrow> int" where
  "AccountI_GetAccountNumber (Acc_Base acc) = AccountNumber acc"
| "AccountI_GetAccountNumber (Acc_Module acc) = AccountNumber acc"
| "AccountI_GetAccountNumber (Acc_Continuous acc) = AccountNumber (BaseAccount acc)"
| "AccountI_GetAccountNumber (Acc_Periodic acc) = AccountNumber (BaseAccount acc)"
| "AccountI_GetAccountNumber (Acc_Delayed acc) = AccountNumber (BaseAccount acc)"
| "AccountI_GetAccountNumber (Acc_PermanentLocked acc) = AccountNumber (BaseAccount acc)"

text \<open>
  The interface \<^verbatim>\<open>VestingAccount\<close> of the bank module: the locked coins, delegation tracking and the
  original coins of the four vesting types; \<open>None\<close> for the types that do not implement it.
\<close>

fun VestingAccount_LockedCoins :: "math_ops \<Rightarrow> account \<Rightarrow> int \<Rightarrow> coins res option" where
  "VestingAccount_LockedCoins M (Acc_Base _) t = None"
| "VestingAccount_LockedCoins M (Acc_Module _) t = None"
| "VestingAccount_LockedCoins M (Acc_Continuous acc) t = Some (Continuous_LockedCoins M acc t)"
| "VestingAccount_LockedCoins M (Acc_Periodic acc) t = Some (Periodic_LockedCoins M acc t)"
| "VestingAccount_LockedCoins M (Acc_Delayed acc) t = Some (Delayed_LockedCoins M acc t)"
| "VestingAccount_LockedCoins M (Acc_PermanentLocked acc) t = Some (PermanentLocked_LockedCoins M acc t)"

fun VestingAccount_TrackDelegation :: "math_ops \<Rightarrow> account \<Rightarrow> int \<Rightarrow> coins \<Rightarrow> coins \<Rightarrow> account res option" where
  "VestingAccount_TrackDelegation M (Acc_Base _) t balance amount = None"
| "VestingAccount_TrackDelegation M (Acc_Module _) t balance amount = None"
| "VestingAccount_TrackDelegation M (Acc_Continuous acc) t balance amount =
     Some (bindR (Continuous_TrackDelegation M acc t balance amount) (\<lambda>a. Inr (Acc_Continuous a)))"
| "VestingAccount_TrackDelegation M (Acc_Periodic acc) t balance amount =
     Some (bindR (Periodic_TrackDelegation M acc t balance amount) (\<lambda>a. Inr (Acc_Periodic a)))"
| "VestingAccount_TrackDelegation M (Acc_Delayed acc) t balance amount =
     Some (bindR (Delayed_TrackDelegation M acc t balance amount) (\<lambda>a. Inr (Acc_Delayed a)))"
| "VestingAccount_TrackDelegation M (Acc_PermanentLocked acc) t balance amount =
     Some (bindR (PermanentLocked_TrackDelegation M acc t balance amount) (\<lambda>a. Inr (Acc_PermanentLocked a)))"

fun VestingAccount_TrackUndelegation :: "math_ops \<Rightarrow> account \<Rightarrow> coins \<Rightarrow> account res option" where
  "VestingAccount_TrackUndelegation M (Acc_Base _) amount = None"
| "VestingAccount_TrackUndelegation M (Acc_Module _) amount = None"
| "VestingAccount_TrackUndelegation M (Acc_Continuous acc) amount =
     Some (bindR (TrackUndelegation M acc amount) (\<lambda>a. Inr (Acc_Continuous a)))"
| "VestingAccount_TrackUndelegation M (Acc_Periodic acc) amount =
     Some (bindR (TrackUndelegation M acc amount) (\<lambda>a. Inr (Acc_Periodic a)))"
| "VestingAccount_TrackUndelegation M (Acc_Delayed acc) amount =
     Some (bindR (TrackUndelegation M acc amount) (\<lambda>a. Inr (Acc_Delayed a)))"
| "VestingAccount_TrackUndelegation M (Acc_PermanentLocked acc) amount =
     Some (bindR (TrackUndelegation M acc amount) (\<lambda>a. Inr (Acc_PermanentLocked a)))"

fun VestingAccount_GetOriginalVesting :: "account \<Rightarrow> coins option" where
  "VestingAccount_GetOriginalVesting (Acc_Base _) = None"
| "VestingAccount_GetOriginalVesting (Acc_Module _) = None"
| "VestingAccount_GetOriginalVesting (Acc_Continuous acc) = Some (OriginalVesting acc)"
| "VestingAccount_GetOriginalVesting (Acc_Periodic acc) = Some (OriginalVesting acc)"
| "VestingAccount_GetOriginalVesting (Acc_Delayed acc) = Some (OriginalVesting acc)"
| "VestingAccount_GetOriginalVesting (Acc_PermanentLocked acc) = Some (OriginalVesting acc)"

section \<open>The keeper\<close>

text \<open>
  The configuration of the keeper (address codec and registered module permissions, a Go map
  built once) and its store. A missing global account number falls back to the legacy key, whose
  absence decodes to zero.
\<close>

record auth_keeper =
  addressCodec :: addr_ops
  permAddrs :: "string \<rightharpoonup> permissions_for_address"

record auth_store =
  AccountsMap :: "(string, account) store"
  GlobalAccountNumber :: "int option"
  LegacyGlobalAccountNumber :: "int option"

fun NewAccountKeeper_permAddrs ::
  "addr_ops \<Rightarrow> (string \<times> string list) list \<Rightarrow> (string \<rightharpoonup> permissions_for_address)" where
  "NewAccountKeeper_permAddrs A [] = Map.empty"
| "NewAccountKeeper_permAddrs A ((name, perms) # rest) =
     (NewAccountKeeper_permAddrs A rest)(name \<mapsto> NewPermissionsForAddress A name perms)"

definition NextAccountNumberLegacy :: "auth_store \<Rightarrow> auth_store \<times> int" where
  "NextAccountNumberLegacy s = (let v = (case LegacyGlobalAccountNumber s of None \<Rightarrow> 0 | Some n \<Rightarrow> n) in
     (s\<lparr>GlobalAccountNumber := Some (wrapu64 (v + 1))\<rparr>, v))"

definition NextAccountNumber :: "auth_store \<Rightarrow> auth_store \<times> int" where
  "NextAccountNumber s = (case GlobalAccountNumber s of
     Some n \<Rightarrow> (s\<lparr>GlobalAccountNumber := Some (wrapu64 (n + 1))\<rparr>, n)
   | None \<Rightarrow> NextAccountNumberLegacy s)"

definition GetAccount :: "auth_store \<Rightarrow> string \<Rightarrow> account option" where
  "GetAccount s addr = store_get (AccountsMap s) addr"

definition HasAccount :: "auth_store \<Rightarrow> string \<Rightarrow> bool" where
  "HasAccount s addr = store_has (AccountsMap s) addr"

text \<open>\<^verbatim>\<open>SetAccount\<close> panics when the unique index has the account number under another address.\<close>

definition SetAccount :: "auth_keeper \<Rightarrow> auth_store \<Rightarrow> account \<Rightarrow> auth_store res" where
  "SetAccount k s acc = (let addr = AccountI_GetAddress (addressCodec k) acc in
     if list_ex (\<lambda>(a, acc'). a \<noteq> addr \<and> AccountI_GetAccountNumber acc' = AccountI_GetAccountNumber acc)
          (store_walk (AccountsMap s))
     then Inl (Panic ''uniqueness constraint violation'')
     else Inr (s\<lparr>AccountsMap := store_put (AccountsMap s) addr acc\<rparr>))"

definition RemoveAccount :: "auth_keeper \<Rightarrow> auth_store \<Rightarrow> account \<Rightarrow> auth_store" where
  "RemoveAccount k s acc = s\<lparr>AccountsMap := store_rem (AccountsMap s) (AccountI_GetAddress (addressCodec k) acc)\<rparr>"

definition GetAllAccounts :: "auth_store \<Rightarrow> account list" where
  "GetAllAccounts s = map snd (store_walk (AccountsMap s))"

text \<open>\<^verbatim>\<open>NewAccount\<close> for the two account types the keeper creates; the prototype account is the base account.\<close>

definition NewAccount :: "auth_store \<Rightarrow> 'a base_account_scheme \<Rightarrow> (auth_store \<times> 'a base_account_scheme) res" where
  "NewAccount s acc = (let (s', n) = NextAccountNumber s in
     bindR (must (BaseAccount_SetAccountNumber acc n)) (\<lambda>acc'. Inr (s', acc')))"

definition NewAccountWithAddress :: "auth_keeper \<Rightarrow> auth_store \<Rightarrow> string \<Rightarrow> (auth_store \<times> account) res" where
  "NewAccountWithAddress k s addr =
     bindR (must (BaseAccount_SetAddress (addressCodec k) ProtoBaseAccount addr)) (\<lambda>acc.
     bindR (NewAccount s acc) (\<lambda>(s', acc'). Inr (s', Acc_Base acc')))"

definition GetPubKey :: "auth_store \<Rightarrow> string \<Rightarrow> string option res" where
  "GetPubKey s addr = (case GetAccount s addr of None \<Rightarrow> Inl (Err ''account does not exist'')
     | Some acc \<Rightarrow> Inr (case acc of Acc_Base a \<Rightarrow> PubKey a | Acc_Module a \<Rightarrow> PubKey a
         | Acc_Continuous a \<Rightarrow> PubKey (BaseAccount a) | Acc_Periodic a \<Rightarrow> PubKey (BaseAccount a)
         | Acc_Delayed a \<Rightarrow> PubKey (BaseAccount a) | Acc_PermanentLocked a \<Rightarrow> PubKey (BaseAccount a)))"

definition GetSequence :: "auth_store \<Rightarrow> string \<Rightarrow> int res" where
  "GetSequence s addr = (case GetAccount s addr of None \<Rightarrow> Inl (Err ''account does not exist'')
     | Some acc \<Rightarrow> Inr (case acc of Acc_Base a \<Rightarrow> Sequence a | Acc_Module a \<Rightarrow> Sequence a
         | Acc_Continuous a \<Rightarrow> Sequence (BaseAccount a) | Acc_Periodic a \<Rightarrow> Sequence (BaseAccount a)
         | Acc_Delayed a \<Rightarrow> Sequence (BaseAccount a) | Acc_PermanentLocked a \<Rightarrow> Sequence (BaseAccount a)))"

definition ValidatePermissions :: "auth_keeper \<Rightarrow> module_account \<Rightarrow> unit res" where
  "ValidatePermissions k macc =
     (let permAddr = (case permAddrs k (Name macc) of None \<Rightarrow> \<lparr>permissions = [], pa_address = []\<rparr> | Some p \<Rightarrow> p) in
      foldR (\<lambda>perm _. if \<not> PermissionsForAddress_HasPermission permAddr perm
        then Inl (Err ''invalid module permission'') else Inr ()) (Permissions macc) ())"

definition GetModuleAddress :: "auth_keeper \<Rightarrow> string \<Rightarrow> string option" where
  "GetModuleAddress k moduleName = map_option pa_address (permAddrs k moduleName)"

definition GetModuleAddressAndPermissions :: "auth_keeper \<Rightarrow> string \<Rightarrow> (string \<times> string list) option" where
  "GetModuleAddressAndPermissions k moduleName =
     map_option (\<lambda>p. (pa_address p, permissions p)) (permAddrs k moduleName)"

definition GetModuleAccountAndPermissions ::
  "auth_keeper \<Rightarrow> auth_store \<Rightarrow> string \<Rightarrow> (auth_store \<times> (module_account \<times> string list) option) res" where
  "GetModuleAccountAndPermissions k s moduleName = (case GetModuleAddressAndPermissions k moduleName of
     None \<Rightarrow> Inr (s, None)
   | Some (addr, perms) \<Rightarrow>
       (case GetAccount s addr of
          Some (Acc_Module macc) \<Rightarrow> Inr (s, Some (macc, perms))
        | Some _ \<Rightarrow> Inl (Panic ''account is not a module account'')
        | None \<Rightarrow> bindR (NewEmptyModuleAccount (addressCodec k) moduleName perms) (\<lambda>macc.
            bindR (NewAccount s macc) (\<lambda>(s', maccI).
            bindR (SetAccount k s' (Acc_Module maccI)) (\<lambda>s''. Inr (s'', Some (maccI, perms)))))))"

definition GetModuleAccount :: "auth_keeper \<Rightarrow> auth_store \<Rightarrow> string \<Rightarrow> (auth_store \<times> module_account option) res" where
  "GetModuleAccount k s moduleName = bindR (GetModuleAccountAndPermissions k s moduleName) (\<lambda>(s', r).
     Inr (s', map_option fst r))"

section \<open>What the keeper maintains\<close>

text \<open>
  Every account is stored under its own address, account numbers are unique and below the global
  account number, and module addresses are those of the registered permissions.
\<close>

definition keeper_ok :: "auth_keeper \<Rightarrow> bool" where
  "keeper_ok k \<longleftrightarrow> (\<forall>name p. permAddrs k name = Some p \<longrightarrow>
     pa_address p = NewModuleAddress (addressCodec k) name \<and> validatePermissions (permissions p) = Inr ())"

definition next_number :: "auth_store \<Rightarrow> int" where
  "next_number s = snd (NextAccountNumber s)"

definition auth_inv :: "auth_keeper \<Rightarrow> auth_store \<Rightarrow> bool" where
  "auth_inv k s \<longleftrightarrow> store_wf (AccountsMap s) \<and> 0 \<le> next_number s \<and>
     (\<forall>addr acc. GetAccount s addr = Some acc \<longrightarrow>
        AccountI_GetAddress (addressCodec k) acc = addr \<and> AccountI_GetAccountNumber acc < next_number s) \<and>
     (\<forall>a b acc acc'. GetAccount s a = Some acc \<longrightarrow> GetAccount s b = Some acc' \<longrightarrow>
        AccountI_GetAccountNumber acc = AccountI_GetAccountNumber acc' \<longrightarrow> a = b)"

lemma NewAccountKeeper_ok:
  assumes "list_all (\<lambda>(name, perms). validatePermissions perms = Inr ()) maccPerms"
  shows "keeper_ok \<lparr>addressCodec = A, permAddrs = NewAccountKeeper_permAddrs A maccPerms\<rparr>"
  using assms
proof (induction maccPerms)
  case (Cons x xs)
  then show ?case by (cases x) (auto simp: keeper_ok_def NewPermissionsForAddress_def)
qed (simp add: keeper_ok_def)

lemma SetAccount_effect:
  assumes "SetAccount k s acc = Inr s'"
  shows "s' = s\<lparr>AccountsMap := store_put (AccountsMap s) (AccountI_GetAddress (addressCodec k) acc) acc\<rparr>"
  using assms by (auto simp: SetAccount_def Let_def split: if_splits)

lemma SetAccount_total:
  assumes "store_wf (AccountsMap s)"
    and "\<And>a acc'. GetAccount s a = Some acc' \<Longrightarrow> AccountI_GetAccountNumber acc' = AccountI_GetAccountNumber acc \<Longrightarrow>
      a = AccountI_GetAddress (addressCodec k) acc"
  shows "SetAccount k s acc =
    Inr (s\<lparr>AccountsMap := store_put (AccountsMap s) (AccountI_GetAddress (addressCodec k) acc) acc\<rparr>)"
proof -
  have "\<not> list_ex (\<lambda>(a, acc'). a \<noteq> AccountI_GetAddress (addressCodec k) acc \<and>
      AccountI_GetAccountNumber acc' = AccountI_GetAccountNumber acc) (store_walk (AccountsMap s))"
    using assms by (auto simp: list_ex_iff store_walk_def GetAccount_def store_in_set)
  then show ?thesis by (simp add: SetAccount_def Let_def)
qed

lemma NextAccountNumber_effect:
  "NextAccountNumber s = (s\<lparr>GlobalAccountNumber := Some (wrapu64 (next_number s + 1))\<rparr>, next_number s)"
  by (simp add: next_number_def NextAccountNumber_def NextAccountNumberLegacy_def Let_def split: option.splits)

lemma NewAccount_effect:
  "NewAccount s acc = Inr (s\<lparr>GlobalAccountNumber := Some (wrapu64 (next_number s + 1))\<rparr>, acc\<lparr>AccountNumber := next_number s\<rparr>)"
  by (simp add: NewAccount_def NextAccountNumber_effect BaseAccount_SetAccountNumber_def)

text \<open>Storing a fresh account under the next number keeps the invariant.\<close>

lemma auth_inv_add:
  assumes "auth_inv k s" and "next_number s + 1 < 2 ^ 64"
    and "AccountI_GetAddress (addressCodec k) acc = addr" and "GetAccount s addr = None"
    and "AccountI_GetAccountNumber acc = next_number s"
  obtains s' where "SetAccount k (s\<lparr>GlobalAccountNumber := Some (wrapu64 (next_number s + 1))\<rparr>) acc = Inr s'"
    and "auth_inv k s'" and "GetAccount s' = (GetAccount s)(addr \<mapsto> acc)"
proof -
  let ?s1 = "s\<lparr>GlobalAccountNumber := Some (wrapu64 (next_number s + 1))\<rparr>"
  let ?s2 = "?s1\<lparr>AccountsMap := store_put (AccountsMap s) addr acc\<rparr>"
  have w: "wrapu64 (next_number s + 1) = next_number s + 1"
    using assms(1,2) by (intro wrapu64_id) (simp add: auth_inv_def)
  have nn: "next_number ?s2 = next_number s + 1"
    unfolding next_number_def [of ?s2] by (simp add: NextAccountNumber_def w)
  have "SetAccount k ?s1 acc = Inr ?s2"
    using assms by (subst SetAccount_total) (fastforce simp: auth_inv_def GetAccount_def)+
  moreover have g: "GetAccount ?s2 = (GetAccount s)(addr \<mapsto> acc)"
    by (auto simp: GetAccount_def)
  moreover have "auth_inv k ?s2"
    using assms unfolding auth_inv_def g nn by (fastforce split: if_splits)
  ultimately show ?thesis using that by blast
qed

context addr_codec
begin

text \<open>
  Creating the account of an address: it returns, stores the account under that address and keeps
  the invariant.
\<close>

lemma NewAccountWithAddress_correct:
  assumes "auth_inv k s" and "next_number s + 1 < 2 ^ 64" and "addressCodec k = A"
    and "addr \<noteq> []" and "length addr \<le> MaxAddrLen" and "GetAccount s addr = None"
  obtains s1 acc s2 where "NewAccountWithAddress k s addr = Inr (s1, acc)" and "SetAccount k s1 acc = Inr s2"
    and "auth_inv k s2" and "GetAccount s2 = (GetAccount s)(addr \<mapsto> acc)"
proof -
  obtain str where str: "AccAddress_String A addr = Inr str" "AccAddressFromBech32 A str = Inr addr"
    using has_bech32 [OF assms(4,5)] by metis
  define acc where "acc = \<lparr>Address = str, PubKey = None, AccountNumber = next_number s, Sequence = 0\<rparr>"
  have new: "NewAccountWithAddress k s addr =
      Inr (s\<lparr>GlobalAccountNumber := Some (wrapu64 (next_number s + 1))\<rparr>, Acc_Base acc)"
    using str assms(3) by (simp add: NewAccountWithAddress_def NewAccount_effect BaseAccount_SetAddress_def
        ProtoBaseAccount_def acc_def)
  have "AccountI_GetAddress (addressCodec k) (Acc_Base acc) = addr"
    using str assms(3) by (simp add: BaseAccount_GetAddress_def acc_def)
  then obtain s2 where "SetAccount k (s\<lparr>GlobalAccountNumber := Some (wrapu64 (next_number s + 1))\<rparr>) (Acc_Base acc) = Inr s2"
    "auth_inv k s2" "GetAccount s2 = (GetAccount s)(addr \<mapsto> Acc_Base acc)"
    using auth_inv_add [OF assms(1,2) _ assms(6)] by (metis AccountI_GetAccountNumber.simps(1) acc_def base_account.select_convs(3))
  with new show ?thesis using that by blast
qed

lemma GetModuleAccount_correct:
  assumes "keeper_ok k" and "auth_inv k s" and "next_number s + 1 < 2 ^ 64" and "addressCodec k = A"
    and "permAddrs k name = Some p"
    and "case GetAccount s (pa_address p) of None \<Rightarrow> True | Some (Acc_Module _) \<Rightarrow> True | Some _ \<Rightarrow> False"
  obtains s' macc where "GetModuleAccount k s name = Inr (s', Some macc)" and "auth_inv k s'"
    and "GetAccount s' = (GetAccount s)(pa_address p \<mapsto> Acc_Module macc)"
    and "BaseAccount_GetAddress A macc = pa_address p"
proof (cases "GetAccount s (pa_address p)")
  case (Some acc)
  with assms(6) obtain macc where acc: "acc = Acc_Module macc" by (cases acc) auto
  then have "BaseAccount_GetAddress A macc = pa_address p"
    using Some assms(2,4) by (metis AccountI_GetAddress.simps(2) auth_inv_def)
  moreover have "GetModuleAccount k s name = Inr (s, Some macc)"
    using Some acc assms(5)
    by (simp add: GetModuleAccount_def GetModuleAccountAndPermissions_def GetModuleAddressAndPermissions_def)
  moreover have "GetAccount s = (GetAccount s)(pa_address p \<mapsto> Acc_Module macc)"
    using Some acc by (auto simp: fun_upd_idem)
  ultimately show ?thesis using that assms(2) by metis
next
  case None
  have p: "pa_address p = NewModuleAddress A name" "validatePermissions (permissions p) = Inr ()"
    using assms(1,4,5) by (auto simp: keeper_ok_def)
  obtain str where str: "AccAddress_String A (pa_address p) = Inr str" "AccAddressFromBech32 A str = Inr (pa_address p)"
    using has_bech32 [OF module_address_ok(1) module_address_ok(2), of name] p by metis
  define macc :: module_account where "macc = \<lparr>Address = str, PubKey = None, AccountNumber = next_number s, Sequence = 0,
    Name = name, Permissions = permissions p\<rparr>"
  have a: "AccountI_GetAddress (addressCodec k) (Acc_Module macc) = pa_address p"
    using str assms(4) by (simp add: BaseAccount_GetAddress_def macc_def)
  obtain s' where s': "SetAccount k (s\<lparr>GlobalAccountNumber := Some (wrapu64 (next_number s + 1))\<rparr>) (Acc_Module macc) = Inr s'"
    "auth_inv k s'" "GetAccount s' = (GetAccount s)(pa_address p \<mapsto> Acc_Module macc)"
    using auth_inv_add [OF assms(2,3) a None] by (auto simp: macc_def)
  have "GetModuleAccount k s name = Inr (s', Some macc)"
    using None str p s'(1) assms(4,5)
    by (simp add: GetModuleAccount_def GetModuleAccountAndPermissions_def GetModuleAddressAndPermissions_def
        NewEmptyModuleAccount_def NewBaseAccountWithAddress_def NewAccount_effect base_account.defs macc_def)
  with s' a show ?thesis using that assms(4) by simp
qed

end

end
