(* ===== verification/Bank.thy ===== *)
theory Bank
  imports AuthKeeper
begin

text \<open>
  The bank module, \<^verbatim>\<open>x/bank\<close>: balances and supply, the view, send and base keepers, send and mint
  restrictions, the message server, denomination metadata and genesis. The state is the record
  \<open>bank_store\<close>, which includes the store of the account keeper it calls. A call that fails returns no
  state: its writes are discarded with the cached store of the transaction. Events, telemetry
  and logging are not modelled.
\<close>

section \<open>Data\<close>

record send_enabled =
  se_Denom :: string
  se_Enabled :: bool

record bank_params =
  bp_SendEnabled :: "send_enabled list"
  DefaultSendEnabled :: bool

record denom_unit =
  du_Denom :: string
  Exponent :: int
  Aliases :: "string list"

record metadata =
  Description :: string
  DenomUnits :: "denom_unit list"
  Base :: string
  Display :: string
  md_Name :: string
  Symbol :: string
  URI :: string
  URIHash :: string

record bank_store =
  Balances :: "(acc_key \<times> string, int) store"
  Supply :: "(string, int) store"
  DenomMetadata :: "(string, metadata) store"
  SendEnabledMap :: "(string, bool) store"
  BankParams :: "bank_params option"
  ak_store :: auth_store

text \<open>
  The configuration of the keeper: the account keeper, the addresses that may not receive funds
  (by their bech32 form), the authority, and the restriction functions installed by the application.
\<close>

type_synonym send_restriction_fn = "string \<Rightarrow> string \<Rightarrow> coins \<Rightarrow> string res"

type_synonym minting_restriction_fn = "coins \<Rightarrow> unit res"

record bank_keeper =
  ak :: auth_keeper
  blockedAddrs :: "string list"
  bank_authority :: string
  sendRestriction :: "send_restriction_fn option"
  mintCoinsRestrictionFn :: minting_restriction_fn

section \<open>Restrictions\<close>

definition NoOpMintingRestrictionFn :: minting_restriction_fn where
  "NoOpMintingRestrictionFn coins = Inr ()"

definition ComposeMintingRestrictions :: "minting_restriction_fn option list \<Rightarrow> minting_restriction_fn option" where
  "ComposeMintingRestrictions restrictions =
     (case List.map_filter (\<lambda>r. r) restrictions of
        [] \<Rightarrow> None
      | [r] \<Rightarrow> Some r
      | toRun \<Rightarrow> Some (\<lambda>coins. foldR (\<lambda>r _. r coins) toRun ()))"

definition MintingRestrictionFn_Then ::
  "minting_restriction_fn option \<Rightarrow> minting_restriction_fn option \<Rightarrow> minting_restriction_fn option" where
  "MintingRestrictionFn_Then r second = ComposeMintingRestrictions [r, second]"

definition NoOpSendRestrictionFn :: send_restriction_fn where
  "NoOpSendRestrictionFn fromAddr toAddr amount = Inr toAddr"

definition ComposeSendRestrictions :: "send_restriction_fn option list \<Rightarrow> send_restriction_fn option" where
  "ComposeSendRestrictions restrictions =
     (case List.map_filter (\<lambda>r. r) restrictions of
        [] \<Rightarrow> None
      | [r] \<Rightarrow> Some r
      | toRun \<Rightarrow> Some (\<lambda>fromAddr toAddr amount. foldR (\<lambda>r to. r fromAddr to amount) toRun toAddr))"

definition SendRestrictionFn_Then ::
  "send_restriction_fn option \<Rightarrow> send_restriction_fn option \<Rightarrow> send_restriction_fn option" where
  "SendRestrictionFn_Then r second = ComposeSendRestrictions [r, second]"

definition AppendSendRestriction :: "bank_keeper \<Rightarrow> send_restriction_fn option \<Rightarrow> bank_keeper" where
  "AppendSendRestriction k restriction = k\<lparr>sendRestriction := SendRestrictionFn_Then (sendRestriction k) restriction\<rparr>"

definition PrependSendRestriction :: "bank_keeper \<Rightarrow> send_restriction_fn option \<Rightarrow> bank_keeper" where
  "PrependSendRestriction k restriction = k\<lparr>sendRestriction := SendRestrictionFn_Then restriction (sendRestriction k)\<rparr>"

definition ClearSendRestriction :: "bank_keeper \<Rightarrow> bank_keeper" where
  "ClearSendRestriction k = k\<lparr>sendRestriction := None\<rparr>"

definition sendRestriction_apply :: "bank_keeper \<Rightarrow> string \<Rightarrow> string \<Rightarrow> coins \<Rightarrow> string res" where
  "sendRestriction_apply k fromAddr toAddr amount = (case sendRestriction k of
     None \<Rightarrow> Inr toAddr | Some fn \<Rightarrow> fn fromAddr toAddr amount)"

section \<open>The view keeper\<close>

definition GetBalance :: "bank_store \<Rightarrow> string \<Rightarrow> string \<Rightarrow> coin res" where
  "GetBalance s addr denom = (case store_get (Balances s) (AccKey addr, denom) of
     None \<Rightarrow> NewCoin denom 0 | Some amount \<Rightarrow> NewCoin denom amount)"

definition HasBalance :: "bank_store \<Rightarrow> string \<Rightarrow> coin \<Rightarrow> bool res" where
  "HasBalance s addr amount = bindR (GetBalance s addr (Denom amount)) (\<lambda>b. Coin_IsGTE b amount)"

definition IterateAccountBalances :: "bank_store \<Rightarrow> string \<Rightarrow> coins res" where
  "IterateAccountBalances s addr = mapR (\<lambda>((_, denom), amount). NewCoin denom amount)
     (filter (\<lambda>((a, _), _). a = AccKey addr) (store_walk (Balances s)))"

definition IterateAllBalances :: "bank_store \<Rightarrow> (string \<times> coin) list res" where
  "IterateAllBalances s = mapR (\<lambda>((a, denom), amount). bindR (NewCoin denom amount) (\<lambda>c. Inr (acc_bytes a, c)))
     (store_walk (Balances s))"

definition GetAllBalances :: "math_ops \<Rightarrow> bank_store \<Rightarrow> string \<Rightarrow> coins res" where
  "GetAllBalances M s addr = bindR (IterateAccountBalances s addr) (\<lambda>cs.
     bindR (foldR (\<lambda>balance balances. Coins_Add M balances [balance]) cs []) (\<lambda>balances.
     Inr (Coins_Sort balances)))"

text \<open>
  \<^verbatim>\<open>GetAccountsBalances\<close> collects the coins of each address; its index from address to position
  is a search in the list here.
\<close>

record balance =
  b_Address :: string
  b_Coins :: coins

definition addToBalances :: "math_ops \<Rightarrow> string \<Rightarrow> coin \<Rightarrow> balance list \<Rightarrow> balance list res" where
  "addToBalances M addr c balances =
     (if addr \<in> set (map b_Address balances)
      then mapR (\<lambda>b. if b_Address b = addr
        then bindR (Coins_Add M (b_Coins b) [c]) (\<lambda>cs. Inr (b\<lparr>b_Coins := Coins_Sort cs\<rparr>)) else Inr b) balances
      else bindR (NewCoins [c]) (\<lambda>cs. Inr (balances @ [\<lparr>b_Address = addr, b_Coins = cs\<rparr>])))"

definition GetAccountsBalances :: "math_ops \<Rightarrow> addr_ops \<Rightarrow> bank_store \<Rightarrow> balance list res" where
  "GetAccountsBalances M A s = bindR (IterateAllBalances s) (\<lambda>entries.
     foldR (\<lambda>(addr, c) balances. bindR (AccAddress_String A addr) (\<lambda>str. addToBalances M str c balances)) entries [])"

definition LockedCoins :: "math_ops \<Rightarrow> bank_store \<Rightarrow> int \<Rightarrow> string \<Rightarrow> coins res" where
  "LockedCoins M s blockTime addr = (case GetAccount (ak_store s) addr of
     None \<Rightarrow> Inr []
   | Some acc \<Rightarrow> (case VestingAccount_LockedCoins M acc blockTime of None \<Rightarrow> Inr [] | Some r \<Rightarrow> r))"

definition spendableCoins :: "math_ops \<Rightarrow> bank_store \<Rightarrow> int \<Rightarrow> string \<Rightarrow> (coins \<times> coins) res" where
  "spendableCoins M s blockTime addr =
     bindR (GetAllBalances M s addr) (\<lambda>total.
     bindR (LockedCoins M s blockTime addr) (\<lambda>locked.
     bindR (Coins_SafeSub M total locked) (\<lambda>(spendable, hasNeg).
     Inr (if hasNeg then [] else spendable, total))))"

definition SpendableCoins :: "math_ops \<Rightarrow> bank_store \<Rightarrow> int \<Rightarrow> string \<Rightarrow> coins res" where
  "SpendableCoins M s blockTime addr = bindR (spendableCoins M s blockTime addr) (\<lambda>(spendable, _). Inr spendable)"

definition SpendableCoin :: "math_ops \<Rightarrow> bank_store \<Rightarrow> int \<Rightarrow> string \<Rightarrow> string \<Rightarrow> coin res" where
  "SpendableCoin M s blockTime addr denom =
     bindR (GetBalance s addr denom) (\<lambda>balance.
     bindR (LockedCoins M s blockTime addr) (\<lambda>locked.
     bindR (Coins_AmountOf locked denom) (\<lambda>a. Coin_SubAmount M balance a)))"

definition ValidateBalance :: "math_ops \<Rightarrow> bank_store \<Rightarrow> string \<Rightarrow> unit res" where
  "ValidateBalance M s addr = (case GetAccount (ak_store s) addr of
     None \<Rightarrow> Inl (Err ''account does not exist'')
   | Some acc \<Rightarrow> bindR (GetAllBalances M s addr) (\<lambda>balances.
       if \<not> Coins_IsValid balances then Inl (Err ''account balance is invalid'')
       else (case VestingAccount_GetOriginalVesting acc of None \<Rightarrow> Inr ()
         | Some ogv \<Rightarrow> bindR (Coins_IsAnyGT ogv balances) (\<lambda>gt.
             if gt then Inl (Err ''vesting amount cannot be greater than total amount'') else Inr ()))))"

section \<open>The send keeper\<close>

definition setBalance :: "bank_store \<Rightarrow> string \<Rightarrow> coin \<Rightarrow> bank_store res" where
  "setBalance s addr balance =
     (if \<not> Coin_IsValid balance then Inl (Err ''invalid coins'')
      else if Coin_IsZero balance
      then Inr (s\<lparr>Balances := store_rem (Balances s) (AccKey addr, Denom balance)\<rparr>)
      else Inr (s\<lparr>Balances := store_put (Balances s) (AccKey addr, Denom balance) (Amount balance)\<rparr>))"

definition addCoins :: "math_ops \<Rightarrow> bank_store \<Rightarrow> string \<Rightarrow> coins \<Rightarrow> bank_store res" where
  "addCoins M s addr amount =
     (if \<not> Coins_IsValid amount then Inl (Err ''invalid coins'')
      else foldR (\<lambda>c s. bindR (GetBalance s addr (Denom c)) (\<lambda>balance.
        bindR (Coin_Add M balance c) (\<lambda>newBalance. setBalance s addr newBalance))) amount s)"

definition subUnlockedCoin :: "math_ops \<Rightarrow> coins \<Rightarrow> string \<Rightarrow> coin \<Rightarrow> bank_store \<Rightarrow> bank_store res" where
  "subUnlockedCoin M lockedCoins addr c s =
     bindR (GetBalance s addr (Denom c)) (\<lambda>balance.
     bindR (Coins_AmountOf lockedCoins (Denom c)) (\<lambda>lockedAmt.
     bindR (NewCoin (Denom c) lockedAmt) (\<lambda>locked.
     bindR (Coins_SafeSub M [balance] [locked]) (\<lambda>(spendable, hasNeg).
     if hasNeg then Inl (Err ''locked amount exceeds account balance funds'')
     else bindR (Coins_SafeSub M spendable [c]) (\<lambda>(_, hasNeg).
       if hasNeg then Inl (Err ''spendable balance is smaller'')
       else bindR (Coin_Sub M balance c) (\<lambda>newBalance. setBalance s addr newBalance))))))"

definition subUnlockedCoins :: "math_ops \<Rightarrow> bank_store \<Rightarrow> int \<Rightarrow> string \<Rightarrow> coins \<Rightarrow> bank_store res" where
  "subUnlockedCoins M s blockTime addr amount =
     (if \<not> Coins_IsValid amount then Inl (Err ''invalid coins'')
      else bindR (LockedCoins M s blockTime addr) (\<lambda>lockedCoins.
        foldR (subUnlockedCoin M lockedCoins addr) amount s))"

text \<open>The recipient's account is created when it does not exist.\<close>

definition createRecipient :: "bank_keeper \<Rightarrow> bank_store \<Rightarrow> string \<Rightarrow> bank_store res" where
  "createRecipient k s addr =
     (if HasAccount (ak_store s) addr then Inr s
      else bindR (NewAccountWithAddress (ak k) (ak_store s) addr) (\<lambda>(as, acc).
        bindR (SetAccount (ak k) as acc) (\<lambda>as'. Inr (s\<lparr>ak_store := as'\<rparr>))))"

definition SendCoins ::
  "math_ops \<Rightarrow> bank_keeper \<Rightarrow> bank_store \<Rightarrow> int \<Rightarrow> string \<Rightarrow> string \<Rightarrow> coins \<Rightarrow> bank_store res" where
  "SendCoins M k s blockTime fromAddr toAddr amount =
     bindR (subUnlockedCoins M s blockTime fromAddr amount) (\<lambda>s1.
     bindR (sendRestriction_apply k fromAddr toAddr amount) (\<lambda>toAddr'.
     bindR (addCoins M s1 toAddr' amount) (\<lambda>s2.
     createRecipient k s2 toAddr')))"

record bank_input =
  in_Address :: string
  in_Coins :: coins

record bank_output =
  out_Address :: string
  out_Coins :: coins

definition Input_ValidateBasic :: "addr_ops \<Rightarrow> bank_input \<Rightarrow> unit res" where
  "Input_ValidateBasic A i = bindR (AccAddressFromBech32 A (in_Address i)) (\<lambda>_.
     if \<not> Coins_IsValid (in_Coins i) then Inl (Err ''invalid coins'')
     else if \<not> Coins_IsAllPositive (in_Coins i) then Inl (Err ''invalid coins'') else Inr ())"

definition Output_ValidateBasic :: "addr_ops \<Rightarrow> bank_output \<Rightarrow> unit res" where
  "Output_ValidateBasic A out = bindR (AccAddressFromBech32 A (out_Address out)) (\<lambda>_.
     if \<not> Coins_IsValid (out_Coins out) then Inl (Err ''invalid coins'')
     else if \<not> Coins_IsAllPositive (out_Coins out) then Inl (Err ''invalid coins'') else Inr ())"

text \<open>The keys of the map of totals, in the order the range over it visits them.\<close>

definition output_keys :: "bank_output list \<Rightarrow> map_coins \<Rightarrow> string list" where
  "output_keys outs m = filter (\<lambda>d. m d \<noteq> None) (remdups (map Denom (concat (map out_Coins outs))))"

definition ValidateInputOutputs :: "math_ops \<Rightarrow> addr_ops \<Rightarrow> bank_input \<Rightarrow> bank_output list \<Rightarrow> unit res" where
  "ValidateInputOutputs M A inp outputs =
     bindR (Input_ValidateBasic A inp) (\<lambda>_.
     bindR (foldR (\<lambda>out m. bindR (Output_ValidateBasic A out) (\<lambda>_. MapCoins_Add M m (out_Coins out))) outputs Map.empty) (\<lambda>m.
     bindR (MapCoins_ToCoins m (output_keys outputs m)) (\<lambda>totalOut.
     if \<not> Coins_Equal (in_Coins inp) totalOut then Inl (Err ''sum inputs != sum outputs'') else Inr ())))"

definition sendOutput :: "math_ops \<Rightarrow> bank_keeper \<Rightarrow> string \<Rightarrow> bank_output \<Rightarrow> bank_store \<Rightarrow> bank_store res" where
  "sendOutput M k inAddress out s =
     bindR (StringToBytes (addressCodec (ak k)) (out_Address out)) (\<lambda>outAddress0.
     bindR (sendRestriction_apply k inAddress outAddress0 (out_Coins out)) (\<lambda>outAddress.
     bindR (addCoins M s outAddress (out_Coins out)) (\<lambda>s1.
     createRecipient k s1 outAddress)))"

definition InputOutputCoins ::
  "math_ops \<Rightarrow> bank_keeper \<Rightarrow> bank_store \<Rightarrow> int \<Rightarrow> bank_input \<Rightarrow> bank_output list \<Rightarrow> bank_store res" where
  "InputOutputCoins M k s blockTime inp outputs =
     bindR (ValidateInputOutputs M (addressCodec (ak k)) inp outputs) (\<lambda>_.
     bindR (StringToBytes (addressCodec (ak k)) (in_Address inp)) (\<lambda>inAddress.
     bindR (subUnlockedCoins M s blockTime inAddress (in_Coins inp)) (\<lambda>s1.
     foldR (sendOutput M k inAddress) outputs s1)))"

subsection \<open>Parameters and the send-enabled flags\<close>

definition Bank_NewParams :: "bool \<Rightarrow> bank_params" where
  "Bank_NewParams defaultSendEnabled = \<lparr>bp_SendEnabled = [], DefaultSendEnabled = defaultSendEnabled\<rparr>"

definition Bank_DefaultParams :: bank_params where
  "Bank_DefaultParams = \<lparr>bp_SendEnabled = [], DefaultSendEnabled = True\<rparr>"

definition Bank_Params_Validate :: "bank_params \<Rightarrow> unit res" where
  "Bank_Params_Validate p = (if length (bp_SendEnabled p) > 0
     then Inl (Err ''use of send_enabled in params is no longer supported'') else Inr ())"

definition SendEnabled_Validate :: "send_enabled \<Rightarrow> unit res" where
  "SendEnabled_Validate se = ValidateDenom (se_Denom se)"

definition Bank_GetParams :: "bank_store \<Rightarrow> bank_params" where
  "Bank_GetParams s = (case BankParams s of None \<Rightarrow> \<lparr>bp_SendEnabled = [], DefaultSendEnabled = False\<rparr> | Some p \<Rightarrow> p)"

definition SetSendEnabled :: "bank_store \<Rightarrow> string \<Rightarrow> bool \<Rightarrow> bank_store" where
  "SetSendEnabled s denom v = s\<lparr>SendEnabledMap := store_put (SendEnabledMap s) denom v\<rparr>"

fun SetAllSendEnabled :: "bank_store \<Rightarrow> send_enabled list \<Rightarrow> bank_store" where
  "SetAllSendEnabled s [] = s"
| "SetAllSendEnabled s (entry # entries) = SetAllSendEnabled (SetSendEnabled s (se_Denom entry) (se_Enabled entry)) entries"

fun DeleteSendEnabled :: "bank_store \<Rightarrow> string list \<Rightarrow> bank_store" where
  "DeleteSendEnabled s [] = s"
| "DeleteSendEnabled s (denom # denoms) =
     DeleteSendEnabled (s\<lparr>SendEnabledMap := store_rem (SendEnabledMap s) denom\<rparr>) denoms"

definition Bank_SetParams :: "bank_store \<Rightarrow> bank_params \<Rightarrow> bank_store res" where
  "Bank_SetParams s params =
     (if length (bp_SendEnabled params) > 0
      then Inr ((SetAllSendEnabled s (bp_SendEnabled params))\<lparr>BankParams := Some (Bank_NewParams (DefaultSendEnabled params))\<rparr>)
      else Inr (s\<lparr>BankParams := Some params\<rparr>))"

definition getSendEnabled :: "bank_store \<Rightarrow> string \<Rightarrow> bool \<times> bool" where
  "getSendEnabled s denom = (if \<not> store_has (SendEnabledMap s) denom then (False, False)
     else (case store_get (SendEnabledMap s) denom of None \<Rightarrow> (False, False) | Some v \<Rightarrow> (v, True)))"

definition getSendEnabledOrDefault :: "bank_store \<Rightarrow> string \<Rightarrow> bool \<Rightarrow> bool" where
  "getSendEnabledOrDefault s denom defaultVal =
     (let (sendEnabled, found) = getSendEnabled s denom in if found then sendEnabled else defaultVal)"

definition IsSendEnabledDenom :: "bank_store \<Rightarrow> string \<Rightarrow> bool" where
  "IsSendEnabledDenom s denom = getSendEnabledOrDefault s denom (DefaultSendEnabled (Bank_GetParams s))"

definition IsSendEnabledCoin :: "bank_store \<Rightarrow> coin \<Rightarrow> bool" where
  "IsSendEnabledCoin s c = IsSendEnabledDenom s (Denom c)"

definition IsSendEnabledCoins :: "bank_store \<Rightarrow> coins \<Rightarrow> unit res" where
  "IsSendEnabledCoins s cs = (if length cs = 0 then Inr ()
     else (let defaultVal = DefaultSendEnabled (Bank_GetParams s) in
       foldR (\<lambda>c _. if \<not> getSendEnabledOrDefault s (Denom c) defaultVal
         then Inl (Err ''send transactions are disabled'') else Inr ()) cs ()))"

definition GetSendEnabledEntry :: "bank_store \<Rightarrow> string \<Rightarrow> send_enabled option" where
  "GetSendEnabledEntry s denom = (let (sendEnabled, found) = getSendEnabled s denom in
     if \<not> found then None else Some \<lparr>se_Denom = denom, se_Enabled = sendEnabled\<rparr>)"

definition GetAllSendEnabledEntries :: "bank_store \<Rightarrow> send_enabled list" where
  "GetAllSendEnabledEntries s = map (\<lambda>(d, v). \<lparr>se_Denom = d, se_Enabled = v\<rparr>) (store_walk (SendEnabledMap s))"

definition BlockedAddr :: "bank_keeper \<Rightarrow> string \<Rightarrow> bool res" where
  "BlockedAddr k addr = bindR (AccAddress_String (addressCodec (ak k)) addr) (\<lambda>str. Inr (str \<in> set (blockedAddrs k)))"

section \<open>The base keeper\<close>

definition GetSupply :: "bank_store \<Rightarrow> string \<Rightarrow> coin res" where
  "GetSupply s denom = (case store_get (Supply s) denom of None \<Rightarrow> NewCoin denom 0 | Some amount \<Rightarrow> NewCoin denom amount)"

definition HasSupply :: "bank_store \<Rightarrow> string \<Rightarrow> bool" where
  "HasSupply s denom = store_has (Supply s) denom"

definition setSupply :: "bank_store \<Rightarrow> coin \<Rightarrow> bank_store" where
  "setSupply s c = (if Coin_IsZero c then s\<lparr>Supply := store_rem (Supply s) (Denom c)\<rparr>
     else s\<lparr>Supply := store_put (Supply s) (Denom c) (Amount c)\<rparr>)"

definition IterateTotalSupply :: "bank_store \<Rightarrow> coins res" where
  "IterateTotalSupply s = mapR (\<lambda>(d, v). NewCoin d v) (store_walk (Supply s))"

text \<open>With the maximal page limit the paginated supply is the whole supply.\<close>

definition GetPaginatedTotalSupply :: "bank_store \<Rightarrow> coins res" where
  "GetPaginatedTotalSupply s = mapR (\<lambda>(d, v). NewCoin d v) (store_walk (Supply s))"

definition WithMintCoinsRestriction :: "bank_keeper \<Rightarrow> minting_restriction_fn \<Rightarrow> bank_keeper" where
  "WithMintCoinsRestriction k check =
     (case MintingRestrictionFn_Then (Some check) (Some (mintCoinsRestrictionFn k)) of
        None \<Rightarrow> k | Some r \<Rightarrow> k\<lparr>mintCoinsRestrictionFn := r\<rparr>)"

definition needModuleAccount :: "bank_keeper \<Rightarrow> bank_store \<Rightarrow> string \<Rightarrow> (bank_store \<times> module_account) res" where
  "needModuleAccount k s moduleName = bindR (GetModuleAccount (ak k) (ak_store s) moduleName) (\<lambda>(as, acc).
     case acc of None \<Rightarrow> Inl (Panic ''module account does not exist'')
     | Some macc \<Rightarrow> Inr (s\<lparr>ak_store := as\<rparr>, macc))"

definition MintCoins :: "math_ops \<Rightarrow> bank_keeper \<Rightarrow> bank_store \<Rightarrow> string \<Rightarrow> coins \<Rightarrow> bank_store res" where
  "MintCoins M k s moduleName amounts =
     bindR (mintCoinsRestrictionFn k amounts) (\<lambda>_.
     bindR (needModuleAccount k s moduleName) (\<lambda>(s1, acc).
     if \<not> ModuleAccount_HasPermission acc Minter
     then Inl (Panic ''module account does not have permissions to mint tokens'')
     else bindR (addCoins M s1 (BaseAccount_GetAddress (addressCodec (ak k)) acc) amounts) (\<lambda>s2.
       foldR (\<lambda>amount s. bindR (GetSupply s (Denom amount)) (\<lambda>supply.
         bindR (Coin_Add M supply amount) (\<lambda>supply'. Inr (setSupply s supply')))) amounts s2)))"

definition BurnCoins :: "math_ops \<Rightarrow> bank_keeper \<Rightarrow> bank_store \<Rightarrow> int \<Rightarrow> string \<Rightarrow> coins \<Rightarrow> bank_store res" where
  "BurnCoins M k s blockTime moduleName amounts =
     bindR (needModuleAccount k s moduleName) (\<lambda>(s1, acc).
     if \<not> ModuleAccount_HasPermission acc Burner
     then Inl (Panic ''module account does not have permissions to burn tokens'')
     else bindR (subUnlockedCoins M s1 blockTime (BaseAccount_GetAddress (addressCodec (ak k)) acc) amounts) (\<lambda>s2.
       foldR (\<lambda>amount s. bindR (GetSupply s (Denom amount)) (\<lambda>supply.
         bindR (Coin_Sub M supply amount) (\<lambda>supply'. Inr (setSupply s supply')))) amounts s2))"

definition SendCoinsFromModuleToAccount ::
  "math_ops \<Rightarrow> bank_keeper \<Rightarrow> bank_store \<Rightarrow> int \<Rightarrow> string \<Rightarrow> string \<Rightarrow> coins \<Rightarrow> bank_store res" where
  "SendCoinsFromModuleToAccount M k s blockTime senderModule recipientAddr amount =
     (case GetModuleAddress (ak k) senderModule of
        None \<Rightarrow> Inl (Panic ''module account does not exist'')
      | Some senderAddr \<Rightarrow> bindR (BlockedAddr k recipientAddr) (\<lambda>blocked.
          if blocked then Inl (Err ''is not allowed to receive funds'')
          else SendCoins M k s blockTime senderAddr recipientAddr amount))"

definition SendCoinsFromModuleToModule ::
  "math_ops \<Rightarrow> bank_keeper \<Rightarrow> bank_store \<Rightarrow> int \<Rightarrow> string \<Rightarrow> string \<Rightarrow> coins \<Rightarrow> bank_store res" where
  "SendCoinsFromModuleToModule M k s blockTime senderModule recipientModule amount =
     (case GetModuleAddress (ak k) senderModule of
        None \<Rightarrow> Inl (Panic ''module account does not exist'')
      | Some senderAddr \<Rightarrow> bindR (needModuleAccount k s recipientModule) (\<lambda>(s1, acc).
          SendCoins M k s1 blockTime senderAddr (BaseAccount_GetAddress (addressCodec (ak k)) acc) amount))"

definition SendCoinsFromAccountToModule ::
  "math_ops \<Rightarrow> bank_keeper \<Rightarrow> bank_store \<Rightarrow> int \<Rightarrow> string \<Rightarrow> string \<Rightarrow> coins \<Rightarrow> bank_store res" where
  "SendCoinsFromAccountToModule M k s blockTime senderAddr recipientModule amount =
     bindR (needModuleAccount k s recipientModule) (\<lambda>(s1, acc).
     SendCoins M k s1 blockTime senderAddr (BaseAccount_GetAddress (addressCodec (ak k)) acc) amount)"

definition trackDelegation ::
  "math_ops \<Rightarrow> bank_keeper \<Rightarrow> bank_store \<Rightarrow> int \<Rightarrow> string \<Rightarrow> coins \<Rightarrow> coins \<Rightarrow> bank_store res" where
  "trackDelegation M k s blockTime addr balance amount = (case GetAccount (ak_store s) addr of
     None \<Rightarrow> Inl (Err ''account does not exist'')
   | Some acc \<Rightarrow> (case VestingAccount_TrackDelegation M acc blockTime balance amount of
       None \<Rightarrow> Inr s
     | Some r \<Rightarrow> bindR r (\<lambda>acc'. bindR (SetAccount (ak k) (ak_store s) acc') (\<lambda>as. Inr (s\<lparr>ak_store := as\<rparr>)))))"

definition trackUndelegation :: "math_ops \<Rightarrow> bank_keeper \<Rightarrow> bank_store \<Rightarrow> string \<Rightarrow> coins \<Rightarrow> bank_store res" where
  "trackUndelegation M k s addr amount = (case GetAccount (ak_store s) addr of
     None \<Rightarrow> Inl (Err ''account does not exist'')
   | Some acc \<Rightarrow> (case VestingAccount_TrackUndelegation M acc amount of
       None \<Rightarrow> Inr s
     | Some r \<Rightarrow> bindR r (\<lambda>acc'. bindR (SetAccount (ak k) (ak_store s) acc') (\<lambda>as. Inr (s\<lparr>ak_store := as\<rparr>)))))"

definition delegateCoin :: "math_ops \<Rightarrow> string \<Rightarrow> coin \<Rightarrow> bank_store \<times> coins \<Rightarrow> (bank_store \<times> coins) res" where
  "delegateCoin M delegatorAddr c = (\<lambda>(s, balances).
     bindR (GetBalance s delegatorAddr (Denom c)) (\<lambda>balance.
     bindR (Coin_IsLT balance c) (\<lambda>lt.
     if lt then Inl (Err ''failed to delegate'')
     else bindR (Coins_Add M balances [balance]) (\<lambda>balances'.
       bindR (Coin_Sub M balance c) (\<lambda>newBalance.
       bindR (setBalance s delegatorAddr newBalance) (\<lambda>s'. Inr (s', balances')))))))"

definition DelegateCoins ::
  "math_ops \<Rightarrow> bank_keeper \<Rightarrow> bank_store \<Rightarrow> int \<Rightarrow> string \<Rightarrow> string \<Rightarrow> coins \<Rightarrow> bank_store res" where
  "DelegateCoins M k s blockTime delegatorAddr moduleAccAddr amount =
     (if GetAccount (ak_store s) moduleAccAddr = None then Inl (Err ''module account does not exist'')
      else if \<not> Coins_IsValid amount then Inl (Err ''invalid coins'')
      else bindR (foldR (delegateCoin M delegatorAddr) amount (s, [])) (\<lambda>(s1, balances).
        bindR (trackDelegation M k s1 blockTime delegatorAddr balances amount) (\<lambda>s2.
        addCoins M s2 moduleAccAddr amount)))"

definition UndelegateCoins ::
  "math_ops \<Rightarrow> bank_keeper \<Rightarrow> bank_store \<Rightarrow> int \<Rightarrow> string \<Rightarrow> string \<Rightarrow> coins \<Rightarrow> bank_store res" where
  "UndelegateCoins M k s blockTime moduleAccAddr delegatorAddr amount =
     (if GetAccount (ak_store s) moduleAccAddr = None then Inl (Err ''module account does not exist'')
      else if \<not> Coins_IsValid amount then Inl (Err ''invalid coins'')
      else bindR (subUnlockedCoins M s blockTime moduleAccAddr amount) (\<lambda>s1.
        bindR (trackUndelegation M k s1 delegatorAddr amount) (\<lambda>s2.
        addCoins M s2 delegatorAddr amount)))"

definition DelegateCoinsFromAccountToModule ::
  "math_ops \<Rightarrow> bank_keeper \<Rightarrow> bank_store \<Rightarrow> int \<Rightarrow> string \<Rightarrow> string \<Rightarrow> coins \<Rightarrow> bank_store res" where
  "DelegateCoinsFromAccountToModule M k s blockTime senderAddr recipientModule amount =
     bindR (needModuleAccount k s recipientModule) (\<lambda>(s1, acc).
     if \<not> ModuleAccount_HasPermission acc Staking
     then Inl (Panic ''module account does not have permissions to receive delegated coins'')
     else DelegateCoins M k s1 blockTime senderAddr (BaseAccount_GetAddress (addressCodec (ak k)) acc) amount)"

definition UndelegateCoinsFromModuleToAccount ::
  "math_ops \<Rightarrow> bank_keeper \<Rightarrow> bank_store \<Rightarrow> int \<Rightarrow> string \<Rightarrow> string \<Rightarrow> coins \<Rightarrow> bank_store res" where
  "UndelegateCoinsFromModuleToAccount M k s blockTime senderModule recipientAddr amount =
     bindR (needModuleAccount k s senderModule) (\<lambda>(s1, acc).
     if \<not> ModuleAccount_HasPermission acc Staking
     then Inl (Panic ''module account does not have permissions to undelegate coins'')
     else UndelegateCoins M k s1 blockTime (BaseAccount_GetAddress (addressCodec (ak k)) acc) recipientAddr amount)"

subsection \<open>Denomination metadata\<close>

definition SetDenomMetaData :: "bank_store \<Rightarrow> metadata \<Rightarrow> bank_store" where
  "SetDenomMetaData s md = s\<lparr>DenomMetadata := store_put (DenomMetadata s) (Base md) md\<rparr>"

definition GetDenomMetaData :: "bank_store \<Rightarrow> string \<Rightarrow> metadata option" where
  "GetDenomMetaData s denom = store_get (DenomMetadata s) denom"

definition HasDenomMetaData :: "bank_store \<Rightarrow> string \<Rightarrow> bool" where
  "HasDenomMetaData s denom = store_has (DenomMetadata s) denom"

definition GetAllDenomMetaData :: "bank_store \<Rightarrow> metadata list" where
  "GetAllDenomMetaData s = map snd (store_walk (DenomMetadata s))"

definition DenomUnit_Validate :: "denom_unit \<Rightarrow> unit res" where
  "DenomUnit_Validate du = bindR (ValidateDenom (du_Denom du)) (\<lambda>_.
     bindR (foldR (\<lambda>alias seen. if alias \<in> set seen then Inl (Err ''duplicate denomination unit alias'')
       else if TrimSpace alias = [] then Inl (Err ''alias for denom unit cannot be blank'')
       else Inr (alias # seen)) (Aliases du) []) (\<lambda>_. Inr ()))"

text \<open>
  The loop over the units: \<open>i\<close> is the position, then the current exponent, the denominations seen and
  whether the display unit was seen.
\<close>

fun Metadata_units :: "metadata \<Rightarrow> nat \<Rightarrow> int \<Rightarrow> string list \<Rightarrow> bool \<Rightarrow> denom_unit list \<Rightarrow> bool res" where
  "Metadata_units m i currentExponent seen hasDisplay [] = Inr hasDisplay"
| "Metadata_units m i currentExponent seen hasDisplay (du # dus) =
     bindR (if i = 0 then
              (if du_Denom du \<noteq> Base m then Inl (Err ''metadata's first denomination unit must be the one with base denom'')
               else if Exponent du \<noteq> 0 then Inl (Err ''the exponent for base denomination unit must be 0'') else Inr ())
            else if currentExponent \<ge> Exponent du then Inl (Err ''denom units should be sorted asc by exponent'')
            else Inr ()) (\<lambda>_.
     if du_Denom du \<in> set seen then Inl (Err ''duplicate denomination unit'')
     else bindR (DenomUnit_Validate du) (\<lambda>_.
       Metadata_units m (Suc i) (Exponent du) (du_Denom du # seen) (hasDisplay \<or> du_Denom du = Display m) dus))"

definition Metadata_Validate :: "metadata \<Rightarrow> unit res" where
  "Metadata_Validate m =
     (if TrimSpace (md_Name m) = [] then Inl (Err ''name field cannot be blank'')
      else if TrimSpace (Symbol m) = [] then Inl (Err ''symbol field cannot be blank'')
      else bindR (ValidateDenom (Base m)) (\<lambda>_.
        bindR (ValidateDenom (Display m)) (\<lambda>_.
        bindR (Metadata_units m 0 0 [] False (DenomUnits m)) (\<lambda>hasDisplay.
        if \<not> hasDisplay then Inl (Err ''metadata must contain a denomination unit with display denom'') else Inr ()))))"

section \<open>Messages\<close>

record msg_send =
  FromAddress :: string
  ToAddress :: string
  ms_Amount :: coins

definition msgServer_Send :: "math_ops \<Rightarrow> bank_keeper \<Rightarrow> bank_store \<Rightarrow> int \<Rightarrow> msg_send \<Rightarrow> bank_store res" where
  "msgServer_Send M k s blockTime msg =
     bindR (StringToBytes (addressCodec (ak k)) (FromAddress msg)) (\<lambda>from.
     bindR (StringToBytes (addressCodec (ak k)) (ToAddress msg)) (\<lambda>to.
     if \<not> Coins_IsValid (ms_Amount msg) then Inl (Err ''invalid coins'')
     else if \<not> Coins_IsAllPositive (ms_Amount msg) then Inl (Err ''invalid coins'')
     else bindR (IsSendEnabledCoins s (ms_Amount msg)) (\<lambda>_.
       bindR (BlockedAddr k to) (\<lambda>blocked.
       if blocked then Inl (Err ''is not allowed to receive funds'')
       else SendCoins M k s blockTime from to (ms_Amount msg)))))"

definition msgServer_MultiSend ::
  "math_ops \<Rightarrow> bank_keeper \<Rightarrow> bank_store \<Rightarrow> int \<Rightarrow> bank_input list \<Rightarrow> bank_output list \<Rightarrow> bank_store res" where
  "msgServer_MultiSend M k s blockTime inputs outputs =
     (if length inputs = 0 then Inl (Err ''no inputs to send transaction'')
      else if length inputs \<noteq> 1 then Inl (Err ''multiple senders not allowed'')
      else if length outputs = 0 then Inl (Err ''no outputs to send transaction'')
      else bindR (ValidateInputOutputs M (addressCodec (ak k)) (inputs ! 0) outputs) (\<lambda>_.
        bindR (foldR (\<lambda>i _. IsSendEnabledCoins s (in_Coins i)) inputs ()) (\<lambda>_.
        bindR (foldR (\<lambda>out _. bindR (StringToBytes (addressCodec (ak k)) (out_Address out)) (\<lambda>accAddr.
          bindR (BlockedAddr k accAddr) (\<lambda>blocked.
          if blocked then Inl (Err ''is not allowed to receive funds'') else Inr ()))) outputs ()) (\<lambda>_.
        InputOutputCoins M k s blockTime (inputs ! 0) outputs))))"

definition msgServer_UpdateParams :: "bank_keeper \<Rightarrow> bank_store \<Rightarrow> string \<Rightarrow> bank_params \<Rightarrow> bank_store res" where
  "msgServer_UpdateParams k s authority params =
     (if bank_authority k \<noteq> authority then Inl (Err ''invalid authority'')
      else bindR (Bank_Params_Validate params) (\<lambda>_. Bank_SetParams s params))"

definition msgServer_SetSendEnabled ::
  "bank_keeper \<Rightarrow> bank_store \<Rightarrow> string \<Rightarrow> send_enabled list \<Rightarrow> string list \<Rightarrow> bank_store res" where
  "msgServer_SetSendEnabled k s authority entries useDefaultFor =
     (if bank_authority k \<noteq> authority then Inl (Err ''invalid authority'')
      else bindR (foldR (\<lambda>se seen. if se_Denom se \<in> set seen then Inl (Err ''duplicate denom entries found'')
          else bindR (SendEnabled_Validate se) (\<lambda>_. Inr (se_Denom se # seen))) entries []) (\<lambda>_.
        bindR (foldR (\<lambda>denom _. ValidateDenom denom) useDefaultFor ()) (\<lambda>_.
        let s1 = (if length entries > 0 then SetAllSendEnabled s entries else s);
            s2 = (if length useDefaultFor > 0 then DeleteSendEnabled s1 useDefaultFor else s1)
        in Inr s2)))"

section \<open>Invariants of the module\<close>

text \<open>The registered invariants; the result tells whether the invariant is broken.\<close>

definition NonnegativeBalanceInvariant :: "bank_store \<Rightarrow> bool res" where
  "NonnegativeBalanceInvariant s = bindR (IterateAllBalances s) (\<lambda>entries.
     Inr (length (filter (\<lambda>(_, c). Coin_IsNegative c) entries) \<noteq> 0))"

definition TotalSupply :: "math_ops \<Rightarrow> bank_store \<Rightarrow> bool res" where
  "TotalSupply M s = bindR (GetPaginatedTotalSupply s) (\<lambda>supply.
     bindR (IterateAllBalances s) (\<lambda>entries.
     bindR (foldR (\<lambda>(_, c) t. Coins_Add M t [c]) entries []) (\<lambda>expectedTotal.
     Inr (\<not> Coins_Equal expectedTotal supply))))"

definition Bank_AllInvariants :: "math_ops \<Rightarrow> bank_store \<Rightarrow> bool res" where
  "Bank_AllInvariants M s = bindR (NonnegativeBalanceInvariant s) (\<lambda>stop.
     if stop then Inr True else TotalSupply M s)"

section \<open>Genesis\<close>

record bank_genesis =
  bg_Params :: bank_params
  bg_Balances :: "balance list"
  bg_Supply :: coins
  bg_DenomMetadata :: "metadata list"
  bg_SendEnabled :: "send_enabled list"

definition GetAllSendEnabled :: "bank_genesis \<Rightarrow> send_enabled list" where
  "GetAllSendEnabled gs = (if length (bp_SendEnabled (bg_Params gs)) = 0 then bg_SendEnabled gs
     else bg_SendEnabled gs @ filter (\<lambda>se. se_Denom se \<notin> set (map se_Denom (bg_SendEnabled gs))) (bp_SendEnabled (bg_Params gs)))"

definition MigrateSendEnabled :: "bank_genesis \<Rightarrow> bank_genesis" where
  "MigrateSendEnabled gs = gs\<lparr>bg_SendEnabled := GetAllSendEnabled gs,
     bg_Params := (bg_Params gs)\<lparr>bp_SendEnabled := []\<rparr>\<rparr>"

definition Bank_NewGenesisState ::
  "bank_params \<Rightarrow> balance list \<Rightarrow> coins \<Rightarrow> metadata list \<Rightarrow> send_enabled list \<Rightarrow> bank_genesis" where
  "Bank_NewGenesisState params balances supply denomMetaData sendEnabled =
     MigrateSendEnabled \<lparr>bg_Params = params, bg_Balances = balances, bg_Supply = supply,
       bg_DenomMetadata = denomMetaData, bg_SendEnabled = sendEnabled\<rparr>"

definition Balance_Validate :: "addr_ops \<Rightarrow> balance \<Rightarrow> unit res" where
  "Balance_Validate A b = bindR (AccAddressFromBech32 A (b_Address b)) (\<lambda>_. Coins_Validate (b_Coins b))"

definition Bank_GenesisState_Validate :: "math_ops \<Rightarrow> addr_ops \<Rightarrow> bank_genesis \<Rightarrow> unit res" where
  "Bank_GenesisState_Validate M A gs =
     (if length (bp_SendEnabled (bg_Params gs)) > 0 \<and> length (bg_SendEnabled gs) > 0
      then Inl (Err ''send_enabled defined in both the send_enabled field and in params (deprecated)'')
      else bindR (Bank_Params_Validate (bg_Params gs)) (\<lambda>_.
        bindR (foldR (\<lambda>p seen. if se_Denom p \<in> set seen then Inl (Err ''duplicate send enabled found'')
          else bindR (SendEnabled_Validate p) (\<lambda>_. Inr (se_Denom p # seen))) (GetAllSendEnabled gs) []) (\<lambda>_.
        bindR (foldR (\<lambda>b (seen, totalSupply). if b_Address b \<in> set seen then Inl (Err ''duplicate balance for address'')
          else bindR (Balance_Validate A b) (\<lambda>_.
            bindR (Coins_Add M totalSupply (b_Coins b)) (\<lambda>t. Inr (b_Address b # seen, t)))) (bg_Balances gs) ([], [])) (\<lambda>(_, totalSupply).
        bindR (foldR (\<lambda>md seen. if Base md \<in> set seen then Inl (Err ''duplicate client metadata for denom'')
          else bindR (Metadata_Validate md) (\<lambda>_. Inr (Base md # seen))) (bg_DenomMetadata gs) []) (\<lambda>_.
        if \<not> Coins_Empty (bg_Supply gs)
        then bindR (Coins_Validate (bg_Supply gs)) (\<lambda>_.
          if \<not> Coins_Equal (bg_Supply gs) totalSupply then Inl (Err ''genesis supply is incorrect'') else Inr ())
        else Inr ())))))"

definition SanitizeGenesisBalances :: "addr_ops \<Rightarrow> balance list \<Rightarrow> balance list" where
  "SanitizeGenesisBalances A balances =
     sort_key (\<lambda>b. case AccAddressFromBech32 A (b_Address b) of Inl _ \<Rightarrow> [] | Inr addr \<Rightarrow> addr) balances"

definition setGenesisBalance :: "math_ops \<Rightarrow> addr_ops \<Rightarrow> balance \<Rightarrow> bank_store \<times> map_coins \<Rightarrow> (bank_store \<times> map_coins) res" where
  "setGenesisBalance M A b = (\<lambda>(s, m). bindR (must (StringToBytes A (b_Address b))) (\<lambda>bz.
     bindR (MapCoins_Add M m (b_Coins b)) (\<lambda>m'.
     Inr (s\<lparr>Balances := foldl (\<lambda>st c. store_put st (AccKey bz, Denom c) (Amount c)) (Balances s) (b_Coins b)\<rparr>, m'))))"

definition balance_keys :: "balance list \<Rightarrow> map_coins \<Rightarrow> string list" where
  "balance_keys bs m = filter (\<lambda>d. m d \<noteq> None) (remdups (map Denom (concat (map b_Coins bs))))"

definition Bank_InitGenesis :: "math_ops \<Rightarrow> bank_keeper \<Rightarrow> bank_store \<Rightarrow> bank_genesis \<Rightarrow> bank_store res" where
  "Bank_InitGenesis M k s gs =
     bindR (must (Bank_SetParams s (bg_Params gs))) (\<lambda>s1.
     let s2 = foldl (\<lambda>s se. SetSendEnabled s (se_Denom se) (se_Enabled se)) s1 (GetAllSendEnabled gs);
         balances = SanitizeGenesisBalances (addressCodec (ak k)) (bg_Balances gs) in
     bindR (foldR (setGenesisBalance M (addressCodec (ak k))) balances (s2, Map.empty)) (\<lambda>(s3, totalSupplyMap).
     bindR (MapCoins_ToCoins totalSupplyMap (balance_keys balances totalSupplyMap)) (\<lambda>totalSupply.
     if \<not> Coins_Empty (bg_Supply gs) \<and> \<not> Coins_Equal (bg_Supply gs) totalSupply
     then Inl (Panic ''genesis supply is incorrect'')
     else (let s4 = foldl setSupply s3 totalSupply in
       Inr (foldl SetDenomMetaData s4 (bg_DenomMetadata gs))))))"

definition Bank_ExportGenesis :: "math_ops \<Rightarrow> bank_keeper \<Rightarrow> bank_store \<Rightarrow> bank_genesis res" where
  "Bank_ExportGenesis M k s =
     bindR (GetPaginatedTotalSupply s) (\<lambda>totalSupply.
     bindR (GetAccountsBalances M (addressCodec (ak k)) s) (\<lambda>balances.
     Inr (Bank_NewGenesisState (Bank_GetParams s) balances totalSupply (GetAllDenomMetaData s) (GetAllSendEnabledEntries s))))"

section \<open>Authorizations\<close>

record send_authorization =
  SpendLimit :: coins
  AllowList :: "string list"

text \<open>The answer to an authorization check: whether to delete it, and its updated form.\<close>

record accept_response =
  ar_Delete :: bool
  ar_Updated :: "send_authorization option"

definition SendAuthorization_Accept :: "math_ops \<Rightarrow> send_authorization \<Rightarrow> msg_send \<Rightarrow> accept_response res" where
  "SendAuthorization_Accept M a mSend =
     bindR (Coins_SafeSub M (SpendLimit a) (ms_Amount mSend)) (\<lambda>(limitLeft, isNegative).
     if isNegative then Inl (Err ''requested amount is more than spend limit'')
     else if length (AllowList a) > 0 \<and> ToAddress mSend \<notin> set (AllowList a)
     then Inl (Err ''cannot send to address'')
     else if Coins_IsZero limitLeft then Inr \<lparr>ar_Delete = True, ar_Updated = None\<rparr>
     else Inr \<lparr>ar_Delete = False, ar_Updated = Some \<lparr>SpendLimit = limitLeft, AllowList = AllowList a\<rparr>\<rparr>)"

definition SendAuthorization_ValidateBasic :: "send_authorization \<Rightarrow> unit res" where
  "SendAuthorization_ValidateBasic a =
     (if length (SpendLimit a) = 0 then Inl (Err ''spend limit cannot be nil'')
      else if \<not> Coins_IsAllPositive (SpendLimit a) then Inl (Err ''spend limit must be positive'')
      else bindR (foldR (\<lambda>addr found. if addr \<in> set found then Inl (Err ''duplicate entry'')
        else Inr (addr # found)) (AllowList a) []) (\<lambda>_. Inr ()))"

end
