(* ===== verification/BankLaws.thy ===== *)
theory BankLaws
  imports Bank
begin

text \<open>
  What the bank module guarantees: every operation moves coins without creating or losing any, except
  that minting and burning change balances and supply alike; spending respects the locked coins; and
  the invariants the module registers hold in every state reachable from a sound one.
\<close>

section \<open>Balances, supply and their totals\<close>

definition bal :: "bank_store \<Rightarrow> string \<Rightarrow> string \<Rightarrow> int" where
  "bal s a d = (case store_get (Balances s) (AccKey a, d) of None \<Rightarrow> 0 | Some v \<Rightarrow> v)"

definition supply_of :: "bank_store \<Rightarrow> string \<Rightarrow> int" where
  "supply_of s d = (case store_get (Supply s) d of None \<Rightarrow> 0 | Some v \<Rightarrow> v)"

definition in_denom :: "string \<Rightarrow> (acc_key \<times> string) \<times> int \<Rightarrow> int" where
  "in_denom d e = (if snd (fst e) = d then snd e else 0)"

definition held :: "bank_store \<Rightarrow> string \<Rightarrow> int" where
  "held s d = sum_list (map (in_denom d) (store_walk (Balances s)))"

definition bal_ok :: "bank_store \<Rightarrow> bool" where
  "bal_ok s \<longleftrightarrow> store_wf (Balances s) \<and>
     (\<forall>a d v. store_get (Balances s) (a, d) = Some v \<longrightarrow> 0 < v \<and> reDnm_MatchString d)"

definition sup_ok :: "bank_store \<Rightarrow> bool" where
  "sup_ok s \<longleftrightarrow> store_wf (Supply s) \<and>
     (\<forall>d v. store_get (Supply s) d = Some v \<longrightarrow> 0 < v \<and> int_ok v \<and> reDnm_MatchString d)"

definition bank_ok :: "bank_store \<Rightarrow> bool" where
  "bank_ok s \<longleftrightarrow> bal_ok s \<and> sup_ok s \<and> (\<forall>d. held s d = supply_of s d)"

lemma GetBalance_Inr:
  "GetBalance s a d = Inr c \<longleftrightarrow> c = \<lparr>Denom = d, Amount = bal s a d\<rparr> \<and> reDnm_MatchString d \<and> 0 \<le> bal s a d"
  by (auto simp: GetBalance_def bal_def NewCoin_Inr split: option.splits)

lemma GetSupply_Inr:
  "GetSupply s d = Inr c \<longleftrightarrow> c = \<lparr>Denom = d, Amount = supply_of s d\<rparr> \<and> reDnm_MatchString d \<and> 0 \<le> supply_of s d"
  by (auto simp: GetSupply_def supply_of_def NewCoin_Inr split: option.splits)

lemma Coin_IsValid_iff: "Coin_IsValid c \<longleftrightarrow> reDnm_MatchString (Denom c) \<and> 0 \<le> Amount c"
  by (auto simp: Coin_IsValid_def Coin_Validate_def okR_iff bindR_eq_Inr)

lemma bal_nonneg: "bal_ok s \<Longrightarrow> 0 \<le> bal s a d"
  by (auto simp: bal_ok_def bal_def less_imp_le split: option.splits)

lemma bank_frame [simp]:
  "bal (s\<lparr>ak_store := as\<rparr>) = bal s" "held (s\<lparr>ak_store := as\<rparr>) = held s" "supply_of (s\<lparr>ak_store := as\<rparr>) = supply_of s"
  "bal_ok (s\<lparr>ak_store := as\<rparr>) = bal_ok s" "sup_ok (s\<lparr>ak_store := as\<rparr>) = sup_ok s"
  "bal (s\<lparr>Supply := st\<rparr>) = bal s" "held (s\<lparr>Supply := st\<rparr>) = held s" "bal_ok (s\<lparr>Supply := st\<rparr>) = bal_ok s"
  "supply_of (s\<lparr>Balances := bs\<rparr>) = supply_of s" "sup_ok (s\<lparr>Balances := bs\<rparr>) = sup_ok s"
  "bank_ok (s\<lparr>ak_store := as\<rparr>) = bank_ok s" "bank_ok (s\<lparr>SendEnabledMap := se\<rparr>) = bank_ok s"
  "bank_ok (s\<lparr>BankParams := bp\<rparr>) = bank_ok s" "bank_ok (s\<lparr>DenomMetadata := md\<rparr>) = bank_ok s"
  by (auto simp: bal_def held_def supply_of_def bal_ok_def sup_ok_def bank_ok_def fun_eq_iff)

text \<open>One write to the balances.\<close>

lemma setBalance_effect:
  assumes "setBalance s a c = Inr s'" and "bal_ok s"
  shows "s' = s\<lparr>Balances := Balances s'\<rparr>" and "bal_ok s'"
    and "bal s' a' d = (if a' = a \<and> d = Denom c then Amount c else bal s a' d)"
    and "held s' d = held s d + (if d = Denom c then Amount c - bal s a d else 0)"
proof -
  have wf: "store_wf (Balances s)" using assms(2) by (simp add: bal_ok_def)
  have v: "reDnm_MatchString (Denom c)" "0 \<le> Amount c"
    using assms(1) by (auto simp: setBalance_def Coin_IsValid_iff split: if_splits)
  have "s' = s\<lparr>Balances := (if Amount c = 0 then store_rem (Balances s) (AccKey a, Denom c)
      else store_put (Balances s) (AccKey a, Denom c) (Amount c))\<rparr>"
    using assms(1) by (auto simp: setBalance_def Coin_IsZero_def split: if_splits)
  note s' = this
  show "s' = s\<lparr>Balances := Balances s'\<rparr>" unfolding s' by simp
  show "bal_ok s'" using assms(2) v wf unfolding s' by (auto simp: bal_ok_def split: if_splits)
  show "bal s' a' d = (if a' = a \<and> d = Denom c then Amount c else bal s a' d)"
    unfolding s' by (auto simp: bal_def)
  show "held s' d = held s d + (if d = Denom c then Amount c - bal s a d else 0)"
    unfolding s' by (auto simp: held_def kv.weight_put [OF wf] kv.weight_rem [OF wf] kv.weight_at_def
        bal_def in_denom_def split: option.splits)
qed

text \<open>
  A change of one account by the given coins (negative to take them away): the effect that adding,
  taking and delegating coins have in common.
\<close>

definition credited :: "bank_store \<Rightarrow> bank_store \<Rightarrow> string \<Rightarrow> coins \<Rightarrow> bool" where
  "credited s s' a cs \<longleftrightarrow> s' = s\<lparr>Balances := Balances s'\<rparr> \<and> bal_ok s' \<and>
     (\<forall>a' d. bal s' a' d = bal s a' d + (if a' = a then amt cs d else 0)) \<and>
     (\<forall>d. held s' d = held s d + amt cs d)"

lemma credited_Nil: "bal_ok s \<Longrightarrow> credited s s a []"
  by (simp add: credited_def)

lemma credited_Cons: "credited s s1 a [c] \<Longrightarrow> credited s1 s2 a cs \<Longrightarrow> credited s s2 a (c # cs)"
  unfolding credited_def by (auto, metis bank_store.update_convs(1) bank_store.surjective)

lemma foldR_credited:
  assumes "foldR f cs s = Inr s'" and "bal_ok s"
    and "\<And>c u v. c \<in> set cs \<Longrightarrow> bal_ok u \<Longrightarrow> f c u = Inr v \<Longrightarrow> credited u v a [g c]"
  shows "credited s s' a (map g cs)"
  using assms
proof (induction cs arbitrary: s)
  case (Cons c cs)
  from Cons.prems(1) obtain u where u: "f c s = Inr u" "foldR f cs u = Inr s'" by (auto simp: bindR_eq_Inr)
  then have cr: "credited s u a [g c]" using Cons.prems by simp
  then have "bal_ok u" by (simp add: credited_def)
  then have "credited u s' a (map g cs)" using Cons.IH [OF u(2)] Cons.prems(3) by simp
  with cr show ?case by (simp add: credited_Cons)
qed (simp add: credited_Nil)

lemma setBalance_credited:
  assumes "setBalance s a \<lparr>Denom = d, Amount = bal s a d + x\<rparr> = Inr s'" and "bal_ok s"
  shows "credited s s' a [\<lparr>Denom = d, Amount = x\<rparr>]"
  unfolding credited_def using setBalance_effect [OF assms] by auto

context sdk_math
begin

lemma Coin_Sub_Inr:
  "Coin_Sub M a b = Inr c \<longleftrightarrow> Denom a = Denom b \<and> int_ok (Amount a - Amount b) \<and> Amount b \<le> Amount a \<and>
     c = \<lparr>Denom = Denom a, Amount = Amount a - Amount b\<rparr>"
  by (auto simp: Coin_Sub_def Coin_SafeSub_def bindR_eq_Inr int_Sub_Inr Let_def Coin_IsNegative_def)

lemma addCoins_credited:
  assumes "addCoins M s a cs = Inr s'" and "bal_ok s"
  shows "credited s s' a cs"
proof -
  have f: "foldR (\<lambda>c s. bindR (GetBalance s a (Denom c)) (\<lambda>balance.
        bindR (Coin_Add M balance c) (\<lambda>newBalance. setBalance s a newBalance))) cs s = Inr s'"
    using assms(1) by (auto simp: addCoins_def split: if_splits)
  have "credited s s' a (map (\<lambda>c. \<lparr>Denom = Denom c, Amount = Amount c\<rparr>) cs)"
    by (rule foldR_credited [OF f assms(2)])
      (auto simp: bindR_eq_Inr GetBalance_Inr Coin_Add_Inr intro: setBalance_credited)
  then show ?thesis by (simp add: map_idI)
qed

lemma subUnlockedCoin_credited:
  assumes "subUnlockedCoin M L a c s = Inr s'" and "bal_ok s"
  shows "credited s s' a [\<lparr>Denom = Denom c, Amount = - Amount c\<rparr>]"
proof -
  have "setBalance s a \<lparr>Denom = Denom c, Amount = bal s a (Denom c) - Amount c\<rparr> = Inr s'"
    using assms(1) by (auto simp: subUnlockedCoin_def bindR_eq_Inr GetBalance_Inr Coin_Sub_Inr split: if_splits)
  then show ?thesis using setBalance_credited [of s a "Denom c" "- Amount c"] assms(2) by simp
qed

lemma subUnlockedCoins_credited:
  assumes "subUnlockedCoins M s t a cs = Inr s'" and "bal_ok s"
  shows "credited s s' a (Coins_negative cs)"
proof -
  obtain L where f: "foldR (subUnlockedCoin M L a) cs s = Inr s'"
    using assms(1) by (auto simp: subUnlockedCoins_def bindR_eq_Inr split: if_splits)
  show ?thesis
    unfolding Coins_negative_def
    by (rule foldR_credited [OF f assms(2)]) (rule subUnlockedCoin_credited)
qed

text \<open>Spending needs a balance of at least the locked coins and the coins spent.\<close>

lemma SafeSub_one:
  assumes "Coins_SafeSub M as [c] = Inr (r, neg)"
  shows "canonical r" and "amt r d = amt as d - amt [c] d" and "neg \<longleftrightarrow> (\<exists>d. amt as d < amt [c] d)"
proof -
  obtain nb where nb: "NewCoins [c] = Inr nb" and s: "Coins_safeAdd M as (Coins_negative nb) = Inr r"
    and n: "neg = Coins_IsAnyNegative r"
    using assms by (auto simp: Coins_SafeSub_def bindR_eq_Inr)
  show c: "canonical r" using s by (rule safeAdd_Inr)
  have a: "amt r d = amt as d - amt [c] d" for d
    using safeAdd_Inr(2) [OF s, of d] NewCoins_amt [OF nb, of d] by simp
  then show "amt r d = amt as d - amt [c] d" .
  show "neg \<longleftrightarrow> (\<exists>d. amt as d < amt [c] d)" by (simp only: n IsAnyNegative_amt [OF c] a) auto
qed

lemma subUnlockedCoin_limit:
  assumes "subUnlockedCoin M L a c s = Inr s'" and "canonical L"
  shows "amt L (Denom c) + Amount c \<le> bal s a (Denom c)"
proof -
  obtain b l sp where b: "GetBalance s a (Denom c) = Inr b" and l: "NewCoin (Denom c) (amt L (Denom c)) = Inr l"
    and s1: "Coins_SafeSub M [b] [l] = Inr (sp, False)" and s2: "\<exists>x. Coins_SafeSub M sp [c] = Inr (x, False)"
    using assms(1) Coins_AmountOf_eq [OF assms(2), of "Denom c"]
    by (auto simp: subUnlockedCoin_def bindR_eq_Inr GetBalance_Inr split: if_splits)
  have bl: "b = \<lparr>Denom = Denom c, Amount = bal s a (Denom c)\<rparr>" "l = \<lparr>Denom = Denom c, Amount = amt L (Denom c)\<rparr>"
    using b l by (simp_all only: GetBalance_Inr NewCoin_Inr)
  have "amt sp (Denom c) = bal s a (Denom c) - amt L (Denom c)"
    unfolding SafeSub_one(2) [OF s1] bl by simp
  moreover obtain x where "Coins_SafeSub M sp [c] = Inr (x, False)" using s2 ..
  then have "amt [c] (Denom c) \<le> amt sp (Denom c)"
    using SafeSub_one(3) [of sp c x False] by (meson not_less)
  ultimately show ?thesis by simp
qed

lemma subUnlockedCoins_limit:
  assumes "subUnlockedCoins M s t a cs = Inr s'" and "bal_ok s"
    and "LockedCoins M s t a = Inr L" and "canonical L" and "c \<in> set cs"
  shows "amt L (Denom c) + Amount c \<le> bal s a (Denom c)"
proof -
  have v: "Coins_IsValid cs" and f: "foldR (subUnlockedCoin M L a) cs s = Inr s'"
    using assms(1,3) by (auto simp: subUnlockedCoins_def split: if_splits)
  obtain pre post where cs: "cs = pre @ c # post" using assms(5) by (meson split_list)
  then obtain u v where u: "foldR (subUnlockedCoin M L a) pre s = Inr u" "subUnlockedCoin M L a c u = Inr v"
    using f by (auto simp: foldR_append bindR_eq_Inr)
  have "credited s u a (map (\<lambda>c. \<lparr>Denom = Denom c, Amount = - Amount c\<rparr>) pre)"
    by (rule foldR_credited [OF u(1) assms(2)]) (rule subUnlockedCoin_credited)
  moreover have "Denom c \<notin> Denom ` set pre"
    using strict_sorted_distinct [OF valid_parts(1) [OF v]] cs by auto
  then have "amt (map (\<lambda>c. \<lparr>Denom = Denom c, Amount = - Amount c\<rparr>) pre) (Denom c) = 0"
    by (intro amt_notin) auto
  ultimately have "bal u a (Denom c) = bal s a (Denom c)" by (simp add: credited_def)
  then show ?thesis using subUnlockedCoin_limit [OF u(2) assms(4)] by simp
qed

end

section \<open>Every operation as a change of the totals\<close>

text \<open>
  The operations write balances and accounts; \<open>f\<close> is the change of the total held in each
  denomination.
\<close>

definition changed :: "bank_store \<Rightarrow> bank_store \<Rightarrow> (string \<Rightarrow> int) \<Rightarrow> bool" where
  "changed s s' f \<longleftrightarrow> s' = s\<lparr>Balances := Balances s', ak_store := ak_store s'\<rparr> \<and> bal_ok s' \<and>
     (\<forall>d. held s' d = held s d + f d)"

lemma changed_credited: "credited s s' a cs \<Longrightarrow> changed s s' (amt cs)"
  unfolding credited_def changed_def by (metis bank_store.surjective bank_store.update_convs(1,6))

lemma changed_accounts: "bal_ok s \<Longrightarrow> s' = s\<lparr>ak_store := ak_store s'\<rparr> \<Longrightarrow> changed s s' (\<lambda>_. 0)"
  unfolding changed_def by (metis add_0_right bank_frame(2,4) bank_store.surjective bank_store.update_convs(1,6))

lemma changed_refl: "bal_ok s \<Longrightarrow> changed s s (\<lambda>_. 0)"
  by (rule changed_accounts) simp_all

lemma changed_trans:
  assumes "changed s s1 f" and "changed s1 s2 g"
  shows "changed s s2 (\<lambda>d. f d + g d)"
proof -
  have "s2 = s\<lparr>Balances := Balances s2, ak_store := ak_store s2\<rparr>"
    using assms unfolding changed_def by (metis bank_store.surjective bank_store.update_convs(1,6))
  then show ?thesis using assms by (auto simp: changed_def)
qed

lemma changed_bal_ok: "changed s s' f \<Longrightarrow> bal_ok s'"
  by (simp add: changed_def)

lemma changed_sup: "changed s s' f \<Longrightarrow> supply_of s' = supply_of s \<and> sup_ok s' = sup_ok s"
  unfolding changed_def by (metis bank_frame(3,5,9,10))

lemma changed_bank_ok: "changed s s' (\<lambda>_. 0) \<Longrightarrow> bank_ok s \<Longrightarrow> bank_ok s'"
  using changed_sup [of s s' "\<lambda>_. 0"] changed_bal_ok [of s s' "\<lambda>_. 0"]
  by (simp add: bank_ok_def) (simp add: changed_def)

lemma createRecipient_frame: "createRecipient k s a = Inr s' \<Longrightarrow> s' = s\<lparr>ak_store := ak_store s'\<rparr>"
  by (auto simp: createRecipient_def bindR_eq_Inr split: if_splits)

lemma needModuleAccount_frame: "needModuleAccount k s name = Inr (s', acc) \<Longrightarrow> s' = s\<lparr>ak_store := ak_store s'\<rparr>"
  unfolding needModuleAccount_def by (cases "GetModuleAccount (ak k) (ak_store s) name") (auto split: option.splits prod.splits)

lemma trackDelegation_frame: "trackDelegation M k s t a b cs = Inr s' \<Longrightarrow> s' = s\<lparr>ak_store := ak_store s'\<rparr>"
  by (auto simp: trackDelegation_def bindR_eq_Inr split: option.splits)

lemma trackUndelegation_frame: "trackUndelegation M k s a cs = Inr s' \<Longrightarrow> s' = s\<lparr>ak_store := ak_store s'\<rparr>"
  by (auto simp: trackUndelegation_def bindR_eq_Inr split: option.splits)

lemmas account_frames = createRecipient_frame needModuleAccount_frame trackDelegation_frame trackUndelegation_frame

text \<open>The keys of the map of output totals.\<close>

lemma output_keys_distinct [simp]: "distinct (output_keys outs m)"
  by (simp add: output_keys_def)

lemma output_keys_set:
  "dom m \<subseteq> (\<Union>out \<in> set outs. Denom ` set (out_Coins out)) \<Longrightarrow> set (output_keys outs m) = dom m"
  by (fastforce simp: output_keys_def)

context sdk_math
begin

lemma SendCoins_effect:
  assumes "SendCoins M k s t from to cs = Inr s'" and "bal_ok s"
  obtains to' where "sendRestriction_apply k from to cs = Inr to'" and "changed s s' (\<lambda>_. 0)"
    and "\<And>x d. bal s' x d = bal s x d - (if x = from then amt cs d else 0) + (if x = to' then amt cs d else 0)"
proof -
  obtain s1 to' s2 where s1: "subUnlockedCoins M s t from cs = Inr s1"
    and to': "sendRestriction_apply k from to cs = Inr to'"
    and s2: "addCoins M s1 to' cs = Inr s2" and s': "createRecipient k s2 to' = Inr s'"
    using assms(1) by (auto simp: SendCoins_def bindR_eq_Inr)
  have c1: "credited s s1 from (Coins_negative cs)" by (rule subUnlockedCoins_credited [OF s1 assms(2)])
  then have ok1: "bal_ok s1" by (simp add: credited_def)
  have c2: "credited s1 s2 to' cs" by (rule addCoins_credited [OF s2 ok1])
  then have ok2: "bal_ok s2" by (simp add: credited_def)
  have fr: "s' = s2\<lparr>ak_store := ak_store s'\<rparr>" by (rule createRecipient_frame [OF s'])
  have "changed s s' (\<lambda>d. amt (Coins_negative cs) d + amt cs d + 0)"
    by (rule changed_trans [OF changed_trans [OF changed_credited [OF c1] changed_credited [OF c2]] changed_accounts [OF ok2 fr]])
  then have "changed s s' (\<lambda>_. 0)" by simp
  moreover have "bal s' x d = bal s2 x d" for x d by (subst fr) simp
  then have "bal s' x d = bal s x d - (if x = from then amt cs d else 0) + (if x = to' then amt cs d else 0)" for x d
    using c1 c2 by (simp add: credited_def)
  ultimately show ?thesis using that to' by blast
qed

lemma SendCoins_changed: "SendCoins M k s t from to cs = Inr s' \<Longrightarrow> bal_ok s \<Longrightarrow> changed s s' (\<lambda>_. 0)"
  using SendCoins_effect by metis

lemma sendOutput_changed:
  assumes "sendOutput M k a out s = Inr s'" and "bal_ok s"
  shows "changed s s' (amt (out_Coins out))"
proof -
  obtain to s1 where s1: "addCoins M s to (out_Coins out) = Inr s1" and s': "createRecipient k s1 to = Inr s'"
    using assms(1) by (auto simp: sendOutput_def bindR_eq_Inr)
  have c: "credited s s1 to (out_Coins out)" by (rule addCoins_credited [OF s1 assms(2)])
  then have "bal_ok s1" by (simp add: credited_def)
  then show ?thesis
    using changed_trans [OF changed_credited [OF c] changed_accounts [OF _ createRecipient_frame [OF s']]] by simp
qed

lemma sendOutputs_changed:
  assumes "foldR (sendOutput M k a) outs s = Inr s'" and "bal_ok s"
  shows "changed s s' (\<lambda>d. \<Sum>out\<leftarrow>outs. amt (out_Coins out) d)"
  using assms
proof (induction outs arbitrary: s)
  case (Cons out outs)
  then obtain u where u: "sendOutput M k a out s = Inr u" "foldR (sendOutput M k a) outs u = Inr s'"
    by (auto simp: bindR_eq_Inr)
  have c: "changed s u (amt (out_Coins out))" by (rule sendOutput_changed [OF u(1) Cons.prems(2)])
  from changed_trans [OF c Cons.IH [OF u(2) changed_bal_ok [OF c]]] show ?case by simp
qed (simp add: changed_refl)

lemma checked_outputs:
  assumes "foldR (\<lambda>out m. bindR (Output_ValidateBasic A out) (\<lambda>_. MapCoins_Add M m (out_Coins out))) outs m = Inr m'"
  shows "foldR (\<lambda>cs m. MapCoins_Add M m cs) (map out_Coins outs) m = Inr m'"
    and "\<And>cs. cs \<in> set (map out_Coins outs) \<Longrightarrow> Coins_IsValid cs"
proof -
  have "foldR (\<lambda>cs m. MapCoins_Add M m cs) (map out_Coins outs) m = Inr m' \<and>
      (\<forall>cs \<in> set (map out_Coins outs). Coins_IsValid cs)"
    using assms
    by (induction outs arbitrary: m) (auto simp: bindR_eq_Inr Output_ValidateBasic_def split: if_splits)
  then show "foldR (\<lambda>cs m. MapCoins_Add M m cs) (map out_Coins outs) m = Inr m'"
    and "\<And>cs. cs \<in> set (map out_Coins outs) \<Longrightarrow> Coins_IsValid cs" by blast+
qed

lemma ValidateInputOutputs_balanced:
  assumes "ValidateInputOutputs M A inp outs = Inr ()"
  shows "amt (in_Coins inp) d = (\<Sum>out\<leftarrow>outs. amt (out_Coins out) d)"
proof -
  obtain m t where m: "foldR (\<lambda>out m. bindR (Output_ValidateBasic A out) (\<lambda>_. MapCoins_Add M m (out_Coins out))) outs Map.empty = Inr m"
    and t: "MapCoins_ToCoins m (output_keys outs m) = Inr t" and e: "Coins_Equal (in_Coins inp) t"
    using assms by (auto simp: ValidateInputOutputs_def bindR_eq_Inr split: if_splits)
  note f = checked_outputs [OF m]
  have "dom m = (\<Union>cs \<in> set (map out_Coins outs). Denom ` set cs)" using bulk_Add_Inr(2) [OF f(1)] by simp
  then have "set (output_keys outs m) = dom m" by (intro output_keys_set) auto
  then obtain r where "MapCoins_ToCoins m (output_keys outs m) = Inr r"
    "\<And>d. amt r d = (\<Sum>cs\<leftarrow>map out_Coins outs. amt cs d)"
    using bulk_ToCoins [OF f(1) f(2) output_keys_distinct] by metis
  then have "amt t d = (\<Sum>cs\<leftarrow>map out_Coins outs. amt cs d)" using t by simp
  then show ?thesis using Equal_amt [OF e, of d] by (simp add: comp_def)
qed

lemma InputOutputCoins_changed:
  assumes "InputOutputCoins M k s t inp outs = Inr s'" and "bal_ok s"
  shows "changed s s' (\<lambda>_. 0)"
proof -
  obtain a s1 where v: "ValidateInputOutputs M (addressCodec (ak k)) inp outs = Inr ()"
    and s1: "subUnlockedCoins M s t a (in_Coins inp) = Inr s1" and s': "foldR (sendOutput M k a) outs s1 = Inr s'"
    using assms(1) by (auto simp: InputOutputCoins_def bindR_eq_Inr)
  have c: "changed s s1 (amt (Coins_negative (in_Coins inp)))"
    by (rule changed_credited [OF subUnlockedCoins_credited [OF s1 assms(2)]])
  from changed_trans [OF c sendOutputs_changed [OF s' changed_bal_ok [OF c]]]
  show ?thesis by (simp add: ValidateInputOutputs_balanced [OF v])
qed

lemma module_send_changed:
  assumes "bal_ok s"
  shows "SendCoinsFromModuleToAccount M k s t m a cs = Inr s' \<Longrightarrow> changed s s' (\<lambda>_. 0)"
    and "SendCoinsFromModuleToModule M k s t m n cs = Inr s' \<Longrightarrow> changed s s' (\<lambda>_. 0)"
    and "SendCoinsFromAccountToModule M k s t a n cs = Inr s' \<Longrightarrow> changed s s' (\<lambda>_. 0)"
proof -
  have via: "changed s s' (\<lambda>_. 0)"
    if n: "needModuleAccount k s name = Inr (s1, acc)" and c: "SendCoins M k s1 t x y cs = Inr s'" for name s1 acc x y
  proof -
    have a: "changed s s1 (\<lambda>_. 0)" by (rule changed_accounts [OF assms needModuleAccount_frame [OF n]])
    from changed_trans [OF a SendCoins_changed [OF c changed_bal_ok [OF a]]] show ?thesis by simp
  qed
  show "SendCoinsFromModuleToAccount M k s t m a cs = Inr s' \<Longrightarrow> changed s s' (\<lambda>_. 0)"
    using SendCoins_changed [OF _ assms]
    by (auto simp: SendCoinsFromModuleToAccount_def bindR_eq_Inr split: option.splits if_splits)
  show "SendCoinsFromModuleToModule M k s t m n cs = Inr s' \<Longrightarrow> changed s s' (\<lambda>_. 0)"
    using via by (auto simp: SendCoinsFromModuleToModule_def bindR_eq_Inr split: option.splits)
  show "SendCoinsFromAccountToModule M k s t a n cs = Inr s' \<Longrightarrow> changed s s' (\<lambda>_. 0)"
    using via by (auto simp: SendCoinsFromAccountToModule_def bindR_eq_Inr)
qed

text \<open>Minting and burning change the supply by what they change the balances.\<close>

lemma supply_fold:
  assumes "foldR (\<lambda>c s. bindR (GetSupply s (Denom c)) (\<lambda>y. bindR (op y c) (\<lambda>z. Inr (setSupply s z)))) cs s = Inr s'"
    and "sup_ok s" and "\<And>y c z. c \<in> set cs \<Longrightarrow> 0 \<le> Amount y \<Longrightarrow> Denom y = Denom c \<Longrightarrow> op y c = Inr z \<Longrightarrow>
      z = \<lparr>Denom = Denom c, Amount = Amount y + g c\<rparr> \<and> 0 \<le> Amount z \<and> int_ok (Amount z)"
  shows "s' = s\<lparr>Supply := Supply s'\<rparr> \<and> sup_ok s' \<and>
    (\<forall>d. supply_of s' d = supply_of s d + (\<Sum>c\<leftarrow>cs. if Denom c = d then g c else 0))"
  using assms
proof (induction cs arbitrary: s)
  case (Cons c cs)
  from Cons.prems(1) obtain z where g: "reDnm_MatchString (Denom c)" "0 \<le> supply_of s (Denom c)"
    and z: "op \<lparr>Denom = Denom c, Amount = supply_of s (Denom c)\<rparr> c = Inr z"
    and r: "foldR (\<lambda>c s. bindR (GetSupply s (Denom c)) (\<lambda>y. bindR (op y c) (\<lambda>z. Inr (setSupply s z)))) cs (setSupply s z) = Inr s'"
    by (auto simp: bindR_eq_Inr GetSupply_Inr)
  have z': "z = \<lparr>Denom = Denom c, Amount = supply_of s (Denom c) + g c\<rparr>" "0 \<le> Amount z" "int_ok (Amount z)"
    using Cons.prems(3) [OF _ _ _ z] g by force+
  define u where "u = setSupply s z"
  have fr: "u = s\<lparr>Supply := Supply u\<rparr>" by (simp add: u_def setSupply_def)
  have sup: "supply_of u d = (if d = Denom c then Amount z else supply_of s d)" for d
    using z' by (auto simp: u_def setSupply_def Coin_IsZero_def supply_of_def)
  have "sup_ok u"
    using Cons.prems(2) z' g by (auto simp: u_def setSupply_def Coin_IsZero_def sup_ok_def split: if_splits)
  then have IH: "s' = u\<lparr>Supply := Supply s'\<rparr>" "sup_ok s'"
    "\<And>d. supply_of s' d = supply_of u d + (\<Sum>c\<leftarrow>cs. if Denom c = d then g c else 0)"
    using Cons.IH [OF r [folded u_def]] Cons.prems(3) by auto
  have "s' = s\<lparr>Supply := Supply s'\<rparr>"
    using IH(1) fr by (metis bank_store.surjective bank_store.update_convs(2))
  with IH sup z'(1) show ?case by simp
qed simp

lemma changed_supply_ok:
  assumes "bank_ok s" and "changed s s1 f" and "s' = s1\<lparr>Supply := Supply s'\<rparr>" and "sup_ok s'"
    and "\<And>d. supply_of s' d = supply_of s1 d + f d"
  shows "bank_ok s'"
proof -
  have "held s' = held s1" "bal_ok s' = bal_ok s1" by (subst assms(3), simp)+
  then show ?thesis
    using assms changed_sup [OF assms(2)] by (simp add: bank_ok_def) (simp add: changed_def)
qed

lemma supply_frame: "s' = s\<lparr>Supply := Supply s'\<rparr> \<Longrightarrow> bal s' = bal s"
  by (metis bank_frame(6))

lemma MintCoins_effect:
  assumes "MintCoins M k s name cs = Inr s'" and "bank_ok s"
  obtains s1 acc where "needModuleAccount k s name = Inr (s1, acc)" and "ModuleAccount_HasPermission acc Minter"
    and "bank_ok s'" and "\<forall>d. supply_of s' d = supply_of s d + amt cs d"
    and "\<forall>x d. bal s' x d = bal s x d + (if x = BaseAccount_GetAddress (addressCodec (ak k)) acc then amt cs d else 0)"
proof -
  obtain s1 acc s2 where n: "needModuleAccount k s name = Inr (s1, acc)" and p: "ModuleAccount_HasPermission acc Minter"
    and s2: "addCoins M s1 (BaseAccount_GetAddress (addressCodec (ak k)) acc) cs = Inr s2"
    and f: "foldR (\<lambda>c s. bindR (GetSupply s (Denom c)) (\<lambda>y. bindR (Coin_Add M y c) (\<lambda>z. Inr (setSupply s z)))) cs s2 = Inr s'"
    using assms(1) by (auto simp: MintCoins_def bindR_eq_Inr split: if_splits)
  have ok: "bal_ok s" "sup_ok s" using assms(2) by (simp_all add: bank_ok_def)
  have c1: "changed s s1 (\<lambda>_. 0)" by (rule changed_accounts [OF ok(1) needModuleAccount_frame [OF n]])
  note cr = addCoins_credited [OF s2 changed_bal_ok [OF c1]]
  have c2: "changed s s2 (amt cs)" using changed_trans [OF c1 changed_credited [OF cr]] by simp
  have v: "Coins_IsValid cs" using s2 by (auto simp: addCoins_def split: if_splits)
  have "s' = s2\<lparr>Supply := Supply s'\<rparr> \<and> sup_ok s' \<and>
      (\<forall>d. supply_of s' d = supply_of s2 d + (\<Sum>c\<leftarrow>cs. if Denom c = d then Amount c else 0))"
    by (rule supply_fold [OF f]) (use ok changed_sup [OF c2] v in \<open>auto simp: Coin_Add_Inr Coins_IsValid_alt\<close>)
  then have s': "s' = s2\<lparr>Supply := Supply s'\<rparr>" "sup_ok s'" "\<And>d. supply_of s' d = supply_of s2 d + amt cs d"
    by (simp_all add: amt_def)
  have "bal s1 = bal s" by (subst needModuleAccount_frame [OF n]) simp
  then show ?thesis
    using that [OF n p changed_supply_ok [OF assms(2) c2 s']] s'(3) changed_sup [OF c2] cr
    by (simp add: supply_frame [OF s'(1)] credited_def)
qed

lemma BurnCoins_effect:
  assumes "BurnCoins M k s t name cs = Inr s'" and "bank_ok s"
  obtains s1 acc where "needModuleAccount k s name = Inr (s1, acc)" and "ModuleAccount_HasPermission acc Burner"
    and "bank_ok s'" and "\<forall>d. supply_of s' d = supply_of s d - amt cs d"
    and "\<forall>x d. bal s' x d = bal s x d - (if x = BaseAccount_GetAddress (addressCodec (ak k)) acc then amt cs d else 0)"
proof -
  obtain s1 acc s2 where n: "needModuleAccount k s name = Inr (s1, acc)" and p: "ModuleAccount_HasPermission acc Burner"
    and s2: "subUnlockedCoins M s1 t (BaseAccount_GetAddress (addressCodec (ak k)) acc) cs = Inr s2"
    and f: "foldR (\<lambda>c s. bindR (GetSupply s (Denom c)) (\<lambda>y. bindR (Coin_Sub M y c) (\<lambda>z. Inr (setSupply s z)))) cs s2 = Inr s'"
    using assms(1) by (auto simp: BurnCoins_def bindR_eq_Inr split: if_splits)
  have ok: "bal_ok s" "sup_ok s" using assms(2) by (simp_all add: bank_ok_def)
  have c1: "changed s s1 (\<lambda>_. 0)" by (rule changed_accounts [OF ok(1) needModuleAccount_frame [OF n]])
  note cr = subUnlockedCoins_credited [OF s2 changed_bal_ok [OF c1]]
  have c2: "changed s s2 (\<lambda>d. - amt cs d)" using changed_trans [OF c1 changed_credited [OF cr]] by simp
  have "s' = s2\<lparr>Supply := Supply s'\<rparr> \<and> sup_ok s' \<and>
      (\<forall>d. supply_of s' d = supply_of s2 d + (\<Sum>c\<leftarrow>cs. if Denom c = d then - Amount c else 0))"
    by (rule supply_fold [OF f]) (use ok changed_sup [OF c2] in \<open>auto simp: Coin_Sub_Inr\<close>)
  moreover have "(\<Sum>c\<leftarrow>cs. if Denom c = d then - Amount c else 0) = - amt cs d" for d
    by (induction cs) simp_all
  ultimately have s': "s' = s2\<lparr>Supply := Supply s'\<rparr>" "sup_ok s'" "\<And>d. supply_of s' d = supply_of s2 d + - amt cs d"
    by simp_all
  have "bal s1 = bal s" by (subst needModuleAccount_frame [OF n]) simp
  then show ?thesis
    using that [OF n p changed_supply_ok [OF assms(2) c2 s']] s'(3) changed_sup [OF c2] cr
    by (simp add: supply_frame [OF s'(1)] credited_def)
qed

text \<open>Delegating moves the coins to the module account and only tracks them in the delegator's account.\<close>

lemma delegateCoins_credited:
  assumes "foldR (delegateCoin M a) cs (s, b) = Inr (s', b')" and "bal_ok s"
  shows "credited s s' a (Coins_negative cs)"
  using assms
proof (induction cs arbitrary: s b)
  case (Cons c cs)
  then obtain u b1 where u: "delegateCoin M a c (s, b) = Inr (u, b1)" "foldR (delegateCoin M a) cs (u, b1) = Inr (s', b')"
    by (auto simp: bindR_eq_Inr)
  have "setBalance s a \<lparr>Denom = Denom c, Amount = bal s a (Denom c) - Amount c\<rparr> = Inr u"
    using u(1) by (auto simp: delegateCoin_def bindR_eq_Inr GetBalance_Inr Coin_Sub_Inr split: if_splits)
  then have cr: "credited s u a [\<lparr>Denom = Denom c, Amount = - Amount c\<rparr>]"
    using setBalance_credited [of s a "Denom c" "- Amount c"] Cons.prems(2) by simp
  then have "bal_ok u" by (simp add: credited_def)
  from credited_Cons [OF cr Cons.IH [OF u(2) this]] show ?case by (simp add: Coins_negative_def)
qed (simp add: credited_Nil Coins_negative_def)

lemma DelegateCoins_changed:
  assumes "DelegateCoins M k s t a m cs = Inr s'" and "bal_ok s"
  shows "changed s s' (\<lambda>_. 0)"
proof -
  obtain s1 b s2 where f: "foldR (delegateCoin M a) cs (s, []) = Inr (s1, b)"
    and s2: "trackDelegation M k s1 t a b cs = Inr s2" and s': "addCoins M s2 m cs = Inr s'"
    using assms(1) by (auto simp: DelegateCoins_def bindR_eq_Inr split: if_splits)
  have c1: "changed s s1 (amt (Coins_negative cs))"
    by (rule changed_credited [OF delegateCoins_credited [OF f assms(2)]])
  have c2: "changed s s2 (\<lambda>d. - amt cs d)"
    using changed_trans [OF c1 changed_accounts [OF changed_bal_ok [OF c1] trackDelegation_frame [OF s2]]] by simp
  from changed_trans [OF c2 changed_credited [OF addCoins_credited [OF s' changed_bal_ok [OF c2]]]] show ?thesis by simp
qed

lemma UndelegateCoins_changed:
  assumes "UndelegateCoins M k s t m a cs = Inr s'" and "bal_ok s"
  shows "changed s s' (\<lambda>_. 0)"
proof -
  obtain s1 s2 where s1: "subUnlockedCoins M s t m cs = Inr s1"
    and s2: "trackUndelegation M k s1 a cs = Inr s2" and s': "addCoins M s2 a cs = Inr s'"
    using assms(1) by (auto simp: UndelegateCoins_def bindR_eq_Inr split: if_splits)
  have c1: "changed s s1 (amt (Coins_negative cs))"
    by (rule changed_credited [OF subUnlockedCoins_credited [OF s1 assms(2)]])
  have c2: "changed s s2 (\<lambda>d. - amt cs d)"
    using changed_trans [OF c1 changed_accounts [OF changed_bal_ok [OF c1] trackUndelegation_frame [OF s2]]] by simp
  from changed_trans [OF c2 changed_credited [OF addCoins_credited [OF s' changed_bal_ok [OF c2]]]] show ?thesis by simp
qed

lemma staking_changed:
  assumes "bal_ok s"
  shows "DelegateCoinsFromAccountToModule M k s t a m cs = Inr s' \<Longrightarrow> changed s s' (\<lambda>_. 0)"
    and "UndelegateCoinsFromModuleToAccount M k s t m a cs = Inr s' \<Longrightarrow> changed s s' (\<lambda>_. 0)"
proof -
  have via: "changed s s' (\<lambda>_. 0)"
    if n: "needModuleAccount k s m = Inr (s1, acc)" and c: "bal_ok s1 \<Longrightarrow> changed s1 s' (\<lambda>_. 0)" for s1 acc
  proof -
    have a: "changed s s1 (\<lambda>_. 0)" by (rule changed_accounts [OF assms needModuleAccount_frame [OF n]])
    from changed_trans [OF a c [OF changed_bal_ok [OF a]]] show ?thesis by simp
  qed
  show "DelegateCoinsFromAccountToModule M k s t a m cs = Inr s' \<Longrightarrow> changed s s' (\<lambda>_. 0)"
    using via DelegateCoins_changed
    by (auto simp: DelegateCoinsFromAccountToModule_def bindR_eq_Inr split: if_splits)
  show "UndelegateCoinsFromModuleToAccount M k s t m a cs = Inr s' \<Longrightarrow> changed s s' (\<lambda>_. 0)"
    using via UndelegateCoins_changed
    by (auto simp: UndelegateCoinsFromModuleToAccount_def bindR_eq_Inr split: if_splits)
qed

end

section \<open>The module as a transition system\<close>

text \<open>
  A step is one successful call of a message handler or of a keeper method that other modules use;
  the block time of each call is arbitrary.
\<close>

inductive bank_step :: "math_ops \<Rightarrow> bank_keeper \<Rightarrow> bank_store \<Rightarrow> bank_store \<Rightarrow> bool" for M k where
  send: "msgServer_Send M k s t msg = Inr s' \<Longrightarrow> bank_step M k s s'"
| multi_send: "msgServer_MultiSend M k s t ins outs = Inr s' \<Longrightarrow> bank_step M k s s'"
| update_params: "msgServer_UpdateParams k s auth p = Inr s' \<Longrightarrow> bank_step M k s s'"
| set_send_enabled: "msgServer_SetSendEnabled k s auth ses ds = Inr s' \<Longrightarrow> bank_step M k s s'"
| send_coins: "SendCoins M k s t a b cs = Inr s' \<Longrightarrow> bank_step M k s s'"
| module_to_account: "SendCoinsFromModuleToAccount M k s t m a cs = Inr s' \<Longrightarrow> bank_step M k s s'"
| module_to_module: "SendCoinsFromModuleToModule M k s t m n cs = Inr s' \<Longrightarrow> bank_step M k s s'"
| account_to_module: "SendCoinsFromAccountToModule M k s t a n cs = Inr s' \<Longrightarrow> bank_step M k s s'"
| delegate: "DelegateCoinsFromAccountToModule M k s t a m cs = Inr s' \<Longrightarrow> bank_step M k s s'"
| undelegate: "UndelegateCoinsFromModuleToAccount M k s t m a cs = Inr s' \<Longrightarrow> bank_step M k s s'"
| mint: "MintCoins M k s m cs = Inr s' \<Longrightarrow> bank_step M k s s'"
| burn: "BurnCoins M k s t m cs = Inr s' \<Longrightarrow> bank_step M k s s'"
| set_metadata: "SetDenomMetaData s md = s' \<Longrightarrow> bank_step M k s s'"

lemma SetAllSendEnabled_ok [simp]: "bank_ok (SetAllSendEnabled s ses) = bank_ok s"
  by (induction s ses rule: SetAllSendEnabled.induct) (simp_all add: SetSendEnabled_def)

lemma DeleteSendEnabled_ok [simp]: "bank_ok (DeleteSendEnabled s ds) = bank_ok s"
  by (induction s ds rule: DeleteSendEnabled.induct) simp_all

context sdk_math
begin

lemma bank_step_ok:
  assumes "bank_step M k s s'" and "bank_ok s"
  shows "bank_ok s'"
proof -
  have ok: "bal_ok s" using assms(2) by (simp add: bank_ok_def)
  note ch = changed_bank_ok [OF _ assms(2)]
  show ?thesis
    using assms(1)
  proof cases
    case (send t msg)
    then obtain a b where "SendCoins M k s t a b (ms_Amount msg) = Inr s'"
      by (auto simp: msgServer_Send_def bindR_eq_Inr split: if_splits)
    then show ?thesis using ch SendCoins_changed ok by blast
  next
    case (multi_send t ins outs)
    then have "InputOutputCoins M k s t (ins ! 0) outs = Inr s'"
      by (auto simp: msgServer_MultiSend_def bindR_eq_Inr split: if_splits)
    then show ?thesis using ch InputOutputCoins_changed ok by blast
  next
    case (update_params auth p)
    then show ?thesis using assms(2)
      by (auto simp: msgServer_UpdateParams_def Bank_SetParams_def bindR_eq_Inr split: if_splits)
  next
    case (set_send_enabled auth ses ds)
    then show ?thesis using assms(2)
      by (auto simp: msgServer_SetSendEnabled_def Let_def bindR_eq_Inr split: if_splits)
  next
    case send_coins
    then show ?thesis using ch SendCoins_changed ok by blast
  next
    case module_to_account
    then show ?thesis using ch module_send_changed(1) ok by blast
  next
    case module_to_module
    then show ?thesis using ch module_send_changed(2) ok by blast
  next
    case account_to_module
    then show ?thesis using ch module_send_changed(3) ok by blast
  next
    case delegate
    then show ?thesis using ch staking_changed(1) ok by blast
  next
    case undelegate
    then show ?thesis using ch staking_changed(2) ok by blast
  next
    case mint
    then show ?thesis using MintCoins_effect assms(2) by metis
  next
    case burn
    then show ?thesis using BurnCoins_effect assms(2) by metis
  next
    case (set_metadata md)
    then show ?thesis using assms(2) by (auto simp: SetDenomMetaData_def)
  qed
qed

lemma bank_steps_ok: "(bank_step M k)\<^sup>*\<^sup>* s s' \<Longrightarrow> bank_ok s \<Longrightarrow> bank_ok s'"
  by (induction rule: rtranclp_induct) (auto dest: bank_step_ok)

end

section \<open>The registered invariants\<close>

lemma int_ok_mono: "0 \<le> x \<Longrightarrow> x \<le> y \<Longrightarrow> int_ok y \<Longrightarrow> int_ok x"
  by (auto simp: int_ok_def)

lemma held_amt: "held s d = amt (map (\<lambda>((_, d), v). \<lparr>Denom = d, Amount = v\<rparr>) (Balances s)) d"
proof -
  have "sum_list (map (in_denom d) es) = amt (map (\<lambda>((_, d), v). \<lparr>Denom = d, Amount = v\<rparr>) es) d" for es
    by (induction es) (auto simp: in_denom_def)
  then show ?thesis by (simp add: held_def store_walk_def)
qed

lemma supply_amt:
  assumes "sup_ok s"
  shows "Coins_IsValid (map (\<lambda>(d, v). \<lparr>Denom = d, Amount = v\<rparr>) (Supply s))"
    and "amt (map (\<lambda>(d, v). \<lparr>Denom = d, Amount = v\<rparr>) (Supply s)) d = supply_of s d"
proof -
  have d: "distinct (map fst (Supply s))"
    using assms strict_sorted_distinct [of fst "Supply s"] by (simp add: sup_ok_def store_wf_def)
  have "amt (map (\<lambda>(d, v). \<lparr>Denom = d, Amount = v\<rparr>) xs) d = (case map_of xs d of None \<Rightarrow> 0 | Some v \<Rightarrow> v)"
    if "distinct (map fst xs)" for xs :: "(string \<times> int) list"
    using that
  proof (induction xs)
    case (Cons x xs)
    then show ?case by (cases "d = fst x") (auto simp: split_def map_of_eq_None_iff [THEN iffD2])
  qed simp
  then show "amt (map (\<lambda>(d, v). \<lparr>Denom = d, Amount = v\<rparr>) (Supply s)) d = supply_of s d"
    using d by (simp add: supply_of_def store_get_def)
  have "strict_sorted_by Denom (map (\<lambda>(d, v). \<lparr>Denom = d, Amount = v\<rparr>) (Supply s))"
    using assms by (simp add: sup_ok_def store_wf_def strict_sorted_iff comp_def split_def)
  then show "Coins_IsValid (map (\<lambda>(d, v). \<lparr>Denom = d, Amount = v\<rparr>) (Supply s))"
    using assms by (auto simp: Coins_IsValid_alt sup_ok_def store_in_set)
qed

lemma iterate_all:
  "bal_ok s \<Longrightarrow> IterateAllBalances s = Inr (map (\<lambda>((a, d), v). (acc_bytes a, \<lparr>Denom = d, Amount = v\<rparr>)) (Balances s))"
  unfolding IterateAllBalances_def store_walk_def
  by (rule mapR_eq_map) (force simp: bal_ok_def store_in_set bindR_eq_Inr NewCoin_Inr)

lemma iterate_supply:
  "sup_ok s \<Longrightarrow> GetPaginatedTotalSupply s = Inr (map (\<lambda>(d, v). \<lparr>Denom = d, Amount = v\<rparr>) (Supply s))"
  unfolding GetPaginatedTotalSupply_def store_walk_def
  by (rule mapR_eq_map) (force simp: sup_ok_def store_in_set NewCoin_Inr)

lemma amt_nonneg_all: "(\<And>c. c \<in> set cs \<Longrightarrow> 0 \<le> Amount c) \<Longrightarrow> 0 \<le> amt cs d"
  by (induction cs) auto

lemma Coins_IsValid_Nil: "Coins_IsValid []"
  by (simp add: Coins_IsValid_alt)

context sdk_math
begin

lemma Add_all_total:
  assumes "\<And>c. c \<in> set cs \<Longrightarrow> reDnm_MatchString (Denom c) \<and> 0 < Amount c"
    and "Coins_IsValid t" and "fits t" and "\<And>d. int_ok (amt t d + amt cs d)"
  shows "\<exists>r. foldR (\<lambda>c t. Coins_Add M t [c]) cs t = Inr r \<and> Coins_IsValid r \<and> (\<forall>d. amt r d = amt t d + amt cs d)"
  using assms
proof (induction cs arbitrary: t)
  case (Cons c cs)
  have c: "Coins_IsValid [c]" using Cons.prems(1) by (simp add: Coins_IsValid_alt)
  have rest: "0 \<le> amt cs d" for d using Cons.prems(1) by (intro amt_nonneg_all) (auto dest: less_imp_le)
  have nn: "0 \<le> amt t d" "0 \<le> amt [c] d" for d by (rule valid_amt_nonneg [OF Cons.prems(2)], rule valid_amt_nonneg [OF c])
  have s: "int_ok (amt t d + amt [c] d)" for d
    by (rule int_ok_mono [OF _ _ Cons.prems(4) [of d]]) (use nn [of d] rest [of d] in simp_all)
  have "int_ok (Amount c)"
    by (rule int_ok_mono [OF _ _ s [of "Denom c"]]) (use nn [of "Denom c"] in simp_all)
  then obtain r where r: "Coins_safeAdd M t [c] = Inr r"
    using safeAdd_total [OF valid_canonical [OF Cons.prems(2)] valid_canonical [OF c] Cons.prems(3) _ s]
    by (auto simp: fits_def)
  have r1: "amt r d = amt t d + amt [c] d" for d by (rule safeAdd_Inr(2) [OF r])
  have r2: "Coins_IsValid r" using Add_valid [OF Cons.prems(2) c] r by (simp add: Coins_Add_def)
  have "fits r" unfolding fits_def
  proof
    fix x assume "x \<in> set r"
    then have "amt r (Denom x) = Amount x" using valid_canonical [OF r2] by (intro amt_in canonicalD)
    then show "int_ok (Amount x)" using s [of "Denom x"] r1 by simp
  qed
  then obtain q where "foldR (\<lambda>c t. Coins_Add M t [c]) cs r = Inr q" "Coins_IsValid q" "\<forall>d. amt q d = amt r d + amt cs d"
    using Cons.IH [OF Cons.prems(1) r2] Cons.prems(4) r1 by (auto simp: add.assoc)
  then show ?case using r r1 by (simp add: Coins_Add_def add.assoc)
qed simp

lemma bank_ok_invariants:
  assumes "bank_ok s"
  shows "Bank_AllInvariants M s = Inr False"
proof -
  let ?cs = "map (\<lambda>((_, d), v). \<lparr>Denom = d, Amount = v\<rparr>) (Balances s)"
  let ?sup = "map (\<lambda>(d, v). \<lparr>Denom = d, Amount = v\<rparr>) (Supply s)"
  have ok: "bal_ok s" "sup_ok s" "\<And>d. held s d = supply_of s d" using assms by (simp_all add: bank_ok_def)
  have pos: "\<And>c. c \<in> set ?cs \<Longrightarrow> reDnm_MatchString (Denom c) \<and> 0 < Amount c"
    using ok(1) by (auto simp: bal_ok_def store_in_set)
  have "int_ok (supply_of s d)" for d using ok(2) by (auto simp: sup_ok_def supply_of_def split: option.splits)
  then have "int_ok (amt [] d + amt ?cs d)" for d using ok(3) held_amt [of s] by simp
  then obtain r where r: "foldR (\<lambda>c t. Coins_Add M t [c]) ?cs [] = Inr r" "Coins_IsValid r" "\<forall>d. amt r d = amt [] d + amt ?cs d"
    using Add_all_total [OF pos Coins_IsValid_Nil, of ?cs] by (auto simp: fits_def)
  have "r = ?sup"
    by (rule canonical_unique) (use r supply_amt [OF ok(2)] ok(3) held_amt in \<open>auto intro: valid_canonical\<close>)
  then have "TotalSupply M s = Inr False"
    using r(1) by (simp add: TotalSupply_def iterate_all [OF ok(1)] iterate_supply [OF ok(2)] foldR_map
        split_def Coins_Equal_refl)
  moreover have "NonnegativeBalanceInvariant s = Inr False"
    using ok(1) by (fastforce simp: NonnegativeBalanceInvariant_def iterate_all [OF ok(1)] filter_map comp_def
        filter_empty_conv Coin_IsNegative_def bal_ok_def store_in_set)
  ultimately show ?thesis by (simp add: Bank_AllInvariants_def)
qed

end

end
