(* ===== verification/BankSpec.thy ===== *)
theory BankSpec
  imports BankLaws
begin

text \<open>
  The contract of the bank module: an abstract ledger that sending coins implements, genesis as the
  start of the module's runs, and the properties of sending, minting, burning and authorized
  sending.
\<close>

section \<open>Genesis establishes the invariant\<close>

lemma coin_eta: "\<lparr>Denom = Denom c, Amount = Amount c\<rparr> = (c :: coin)"
  by simp

lemma genesis_puts:
  assumes "bal_ok s" and "distinct (map Denom cs)"
    and "\<And>c. c \<in> set cs \<Longrightarrow> reDnm_MatchString (Denom c) \<and> 0 < Amount c"
    and "\<And>c. c \<in> set cs \<Longrightarrow> bal s a (Denom c) = 0"
  shows "credited s (s\<lparr>Balances := foldl (\<lambda>st c. store_put st (AccKey a, Denom c) (Amount c)) (Balances s) cs\<rparr>) a cs"
  using assms
proof (induction cs arbitrary: s)
  case (Cons c cs)
  let ?u = "s\<lparr>Balances := store_put (Balances s) (AccKey a, Denom c) (Amount c)\<rparr>"
  have "setBalance s a \<lparr>Denom = Denom c, Amount = bal s a (Denom c) + Amount c\<rparr> = Inr ?u"
    using Cons.prems(3,4) [of c] by (simp add: setBalance_def Coin_IsValid_iff Coin_IsZero_def)
  from setBalance_credited [OF this Cons.prems(1)] have u: "credited s ?u a [c]" by (simp add: coin_eta)
  have "credited ?u (?u\<lparr>Balances := foldl (\<lambda>st c. store_put st (AccKey a, Denom c) (Amount c)) (Balances ?u) cs\<rparr>) a cs"
  proof (rule Cons.IH)
    show "bal_ok ?u" using u by (simp add: credited_def)
    fix x assume x: "x \<in> set cs"
    then show "bal ?u a (Denom x) = 0" using u Cons.prems(2) Cons.prems(4) [of x] by (auto simp: credited_def)
  qed (use Cons.prems in auto)
  from credited_Cons [OF u this] show ?case by simp
qed (simp add: credited_Nil)

definition addr_of :: "addr_ops \<Rightarrow> balance \<Rightarrow> failure + string" where
  "addr_of A b = StringToBytes A (b_Address b)"

lemma setGenesisBalance_Inr:
  "setGenesisBalance M A b (s, m) = Inr x \<longleftrightarrow> (\<exists>a m1. addr_of A b = Inr a \<and> MapCoins_Add M m (b_Coins b) = Inr m1 \<and>
     x = (s\<lparr>Balances := foldl (\<lambda>st c. store_put st (AccKey a, Denom c) (Amount c)) (Balances s) (b_Coins b)\<rparr>, m1))"
  by (auto simp: setGenesisBalance_def addr_of_def bindR_eq_Inr)

context sdk_math
begin

lemma genesis_balances:
  assumes "foldR (setGenesisBalance M A) bs (s, m) = Inr (s', m')" and "bal_ok s"
    and "distinct (map (addr_of A) bs)" and "\<And>b. b \<in> set bs \<Longrightarrow> Coins_IsValid (b_Coins b)"
    and "\<And>b a d. b \<in> set bs \<Longrightarrow> addr_of A b = Inr a \<Longrightarrow> bal s a d = 0"
  shows "s' = s\<lparr>Balances := Balances s'\<rparr> \<and> bal_ok s' \<and> (\<forall>d. held s' d = held s d + (\<Sum>b\<leftarrow>bs. amt (b_Coins b) d)) \<and>
    foldR (\<lambda>cs m. MapCoins_Add M m cs) (map b_Coins bs) m = Inr m'"
  using assms
proof (induction bs arbitrary: s m)
  case (Cons b bs)
  from Cons.prems(1) obtain a m1 where a: "addr_of A b = Inr a" and m1: "MapCoins_Add M m (b_Coins b) = Inr m1"
    and f: "foldR (setGenesisBalance M A) bs (s\<lparr>Balances := foldl (\<lambda>st c. store_put st (AccKey a, Denom c) (Amount c)) (Balances s) (b_Coins b)\<rparr>, m1) = Inr (s', m')"
    by (auto simp: setGenesisBalance_Inr bindR_eq_Inr)
  define u where "u = s\<lparr>Balances := foldl (\<lambda>st c. store_put st (AccKey a, Denom c) (Amount c)) (Balances s) (b_Coins b)\<rparr>"
  have v: "Coins_IsValid (b_Coins b)" using Cons.prems(4) by simp
  have u: "credited s u a (b_Coins b)" unfolding u_def
    using Cons.prems(2,5) a v strict_sorted_distinct [of Denom "b_Coins b"]
    by (intro genesis_puts) (auto simp: Coins_IsValid_alt)
  have "s' = u\<lparr>Balances := Balances s'\<rparr> \<and> bal_ok s' \<and> (\<forall>d. held s' d = held u d + (\<Sum>b\<leftarrow>bs. amt (b_Coins b) d)) \<and>
    foldR (\<lambda>cs m. MapCoins_Add M m cs) (map b_Coins bs) m1 = Inr m'"
  proof (rule Cons.IH [OF f [folded u_def]])
    show "bal_ok u" using u by (simp add: credited_def)
    fix b' a' d assume b': "b' \<in> set bs" "addr_of A b' = Inr a'"
    then have "a' \<noteq> a" using Cons.prems(3) a by (auto simp: image_iff)
    then show "bal u a' d = 0" using u b' Cons.prems(5) [of b' a' d] by (simp add: credited_def)
  qed (use Cons.prems in auto)
  then show ?case using u m1 by (auto simp: credited_def u_def)
qed simp

lemma bulk_fits:
  assumes "foldR (\<lambda>cs m. MapCoins_Add M m cs) css m = Inr m'" and "\<And>d v. m d = Some v \<Longrightarrow> int_ok v"
    and "\<And>cs. cs \<in> set css \<Longrightarrow> fits cs"
  shows "m' d = Some v \<Longrightarrow> int_ok v"
proof -
  have one: "\<forall>d v. m' d = Some v \<longrightarrow> int_ok v"
    if "MapCoins_Add M m cs = Inr m'" "\<forall>d v. m d = Some v \<longrightarrow> int_ok v" "fits cs" for cs m m'
    using that
  proof (induction cs arbitrary: m)
    case (Cons c cs)
    obtain x where "MapCoins_Add M (m(Denom c \<mapsto> x)) cs = Inr m'" "int_ok x"
      using Cons.prems by (auto simp: fits_def bindR_eq_Inr int_Add_Inr split: option.splits)
    moreover from this have "\<forall>d v. (m(Denom c \<mapsto> x)) d = Some v \<longrightarrow> int_ok v" using Cons.prems(2) by simp
    ultimately show ?case using Cons.IH [of "m(Denom c \<mapsto> x)"] Cons.prems(3) unfolding fits_def
      by (metis list.set_intros(2))
  qed simp
  have "\<forall>d v. m' d = Some v \<longrightarrow> int_ok v"
    by (rule foldR_invariant [OF assms(1), of "\<lambda>m. \<forall>d v. m d = Some v \<longrightarrow> int_ok v"]) (use assms(2,3) one in blast)+
  then show "m' d = Some v \<Longrightarrow> int_ok v" by blast
qed

end

lemma supply_puts:
  assumes "sup_ok s" and "\<And>c. c \<in> set cs \<Longrightarrow> reDnm_MatchString (Denom c) \<and> 0 < Amount c \<and> int_ok (Amount c)"
    and "distinct (map Denom cs)" and "\<And>c. c \<in> set cs \<Longrightarrow> supply_of s (Denom c) = 0"
  shows "sup_ok (foldl setSupply s cs) \<and> foldl setSupply s cs = s\<lparr>Supply := Supply (foldl setSupply s cs)\<rparr> \<and>
    (\<forall>d. supply_of (foldl setSupply s cs) d = supply_of s d + amt cs d)"
  using assms
proof (induction cs arbitrary: s)
  case (Cons c cs)
  have u: "setSupply s c = s\<lparr>Supply := store_put (Supply s) (Denom c) (Amount c)\<rparr>"
    using Cons.prems(2) [of c] by (simp add: setSupply_def Coin_IsZero_def)
  have sup: "supply_of (setSupply s c) d = (if d = Denom c then Amount c else supply_of s d)" for d
    by (simp add: u supply_of_def)
  have "sup_ok (setSupply s c)" using Cons.prems(1,2) by (auto simp: u sup_ok_def)
  then have IH: "sup_ok (foldl setSupply (setSupply s c) cs)"
    "foldl setSupply (setSupply s c) cs = (setSupply s c)\<lparr>Supply := Supply (foldl setSupply (setSupply s c) cs)\<rparr>"
    "\<And>d. supply_of (foldl setSupply (setSupply s c) cs) d = supply_of (setSupply s c) d + amt cs d"
    using Cons.IH [of "setSupply s c"] Cons.prems sup by (metis (no_types, lifting) distinct.simps(2) image_eqI
        list.set_map list.set_intros(2) list.simps(9))+
  have "foldl setSupply (setSupply s c) cs = s\<lparr>Supply := Supply (foldl setSupply (setSupply s c) cs)\<rparr>"
    by (subst IH(2)) (simp add: u)
  with IH sup Cons.prems(4) [of c] show ?case by (auto simp: u)
qed simp

lemma balance_keys_set:
  "dom m = (\<Union>cs \<in> set (map b_Coins bs). Denom ` set cs) \<Longrightarrow> set (balance_keys bs m) = dom m \<and> distinct (balance_keys bs m)"
  by (fastforce simp: balance_keys_def)

lemma SetAllSendEnabled_frame [simp]:
  "Balances (SetAllSendEnabled s ses) = Balances s" "Supply (SetAllSendEnabled s ses) = Supply s"
  by (induction s ses rule: SetAllSendEnabled.induct) (simp_all add: SetSendEnabled_def)

lemma SetDenomMetaData_frame [simp]: "bank_ok (foldl SetDenomMetaData s mds) = bank_ok s"
  by (induction mds arbitrary: s) (simp_all add: SetDenomMetaData_def)

lemma setters_frame [simp]:
  "Balances (foldl (\<lambda>s se. SetSendEnabled s (se_Denom se) (se_Enabled se)) s ses) = Balances s"
  "Supply (foldl (\<lambda>s se. SetSendEnabled s (se_Denom se) (se_Enabled se)) s ses) = Supply s"
  by (induction ses arbitrary: s) (simp_all add: SetSendEnabled_def)

context sdk_math
begin

lemma InitGenesis_bank_ok:
  assumes "Bank_InitGenesis M k s0 gs = Inr s" and "Balances s0 = []" and "Supply s0 = []"
    and "\<And>b. b \<in> set (bg_Balances gs) \<Longrightarrow> Coins_IsValid (b_Coins b) \<and> fits (b_Coins b)"
    and "distinct (map (addr_of (addressCodec (ak k))) (bg_Balances gs))"
  shows "bank_ok s"
proof -
  let ?A = "addressCodec (ak k)" and ?bs = "SanitizeGenesisBalances (addressCodec (ak k)) (bg_Balances gs)"
  let ?s2 = "\<lambda>s1. foldl (\<lambda>s se. SetSendEnabled s (se_Denom se) (se_Enabled se)) s1 (GetAllSendEnabled gs)"
  obtain s1 s3 m t where s1: "Bank_SetParams s0 (bg_Params gs) = Inr s1"
    and f': "foldR (setGenesisBalance M ?A) ?bs (?s2 s1, Map.empty) = Inr (s3, m)"
    and t: "MapCoins_ToCoins m (balance_keys ?bs m) = Inr t"
    and s: "s = foldl SetDenomMetaData (foldl setSupply s3 t) (bg_DenomMetadata gs)"
    using assms(1) by (auto simp: Bank_InitGenesis_def Let_def bindR_eq_Inr split: if_splits)
  define s2 where "s2 = ?s2 s1"
  note f = f' [folded s2_def]
  have s2: "Balances s2 = []" "Supply s2 = []"
    using s1 assms(2,3) by (auto simp: s2_def Bank_SetParams_def split: if_splits)
  have e: "bal_ok s2" "sup_ok s2" "\<And>d. held s2 d = 0" "\<And>d. supply_of s2 d = 0" "\<And>a d. bal s2 a d = 0"
    using s2 by (simp_all add: bal_ok_def sup_ok_def held_def supply_of_def bal_def store_get_def store_walk_def)
  have vs: "\<And>cs. cs \<in> set (map b_Coins ?bs) \<Longrightarrow> Coins_IsValid cs \<and> fits cs"
    using assms(4) by (auto simp: SanitizeGenesisBalances_def)
  have d: "distinct (map (addr_of ?A) ?bs)"
    using assms(5) by (simp add: SanitizeGenesisBalances_def distinct_map)
  have g: "s3 = s2\<lparr>Balances := Balances s3\<rparr> \<and> bal_ok s3 \<and> (\<forall>d. held s3 d = held s2 d + (\<Sum>b\<leftarrow>?bs. amt (b_Coins b) d)) \<and>
    foldR (\<lambda>cs m. MapCoins_Add M m cs) (map b_Coins ?bs) Map.empty = Inr m"
    by (rule genesis_balances [OF f e(1) d]) (use vs e(5) in auto)
  then have m: "foldR (\<lambda>cs m. MapCoins_Add M m cs) (map b_Coins ?bs) Map.empty = Inr m" by blast
  have keys: "set (balance_keys ?bs m) = dom m" "distinct (balance_keys ?bs m)"
    using balance_keys_set [of m ?bs] bulk_Add_Inr(2) [OF m] by auto
  obtain r where r: "MapCoins_ToCoins m (balance_keys ?bs m) = Inr r" "Coins_IsValid r"
    "\<And>d. amt r d = (\<Sum>cs\<leftarrow>map b_Coins ?bs. amt cs d)"
    using bulk_ToCoins [OF m _ keys(2,1)] vs by blast
  have t': "t = r" using r(1) t by simp
  have io: "int_ok (amt r d)" for d
    using bulk_fits [OF m, of d] bulk_Add_Inr(1) [OF m, of d] vs r(3) [of d] by (auto simp: at0_def split: option.splits)
  have sup: "sup_ok s3" "\<And>d. supply_of s3 d = 0"
    using g e(2,4) by (metis bank_frame(10), metis bank_frame(9))
  have p: "sup_ok (foldl setSupply s3 t) \<and> foldl setSupply s3 t = s3\<lparr>Supply := Supply (foldl setSupply s3 t)\<rparr> \<and>
    (\<forall>d. supply_of (foldl setSupply s3 t) d = supply_of s3 d + amt t d)"
  proof (rule supply_puts [OF sup(1)])
    show dd: "distinct (map Denom t)" using valid_canonical [OF r(2)] t' by (intro canonicalD) simp
    show "reDnm_MatchString (Denom c) \<and> 0 < Amount c \<and> int_ok (Amount c)" if "c \<in> set t" for c
      using r(2) that io [of "Denom c"] amt_in [OF dd that] t' by (auto simp: Coins_IsValid_alt)
  qed (simp add: sup(2))
  have "held (foldl setSupply s3 t) = held s3" "bal_ok (foldl setSupply s3 t)"
    using g p by (metis bank_frame(7), metis bank_frame(8))
  then show ?thesis
    using g p e(3) sup(2) r(3) t' unfolding s SetDenomMetaData_frame by (simp add: bank_ok_def comp_def)
qed

end

section \<open>Sending implements the abstract ledger\<close>

text \<open>
  The abstract view of the module: a ledger maps accounts and denominations to amounts, and a
  transfer is possible when the payer holds every coin on top of what is locked.
\<close>

type_synonym ledger = "string \<Rightarrow> string \<Rightarrow> int"

definition ledger_transfer :: "ledger \<Rightarrow> coins \<Rightarrow> string \<Rightarrow> string \<Rightarrow> coins \<Rightarrow> ledger option" where
  "ledger_transfer L locked from to cs =
     (if \<forall>c \<in> set cs. amt locked (Denom c) + Amount c \<le> L from (Denom c)
      then Some (\<lambda>a d. L a d - (if a = from then amt cs d else 0) + (if a = to then amt cs d else 0))
      else None)"

lemma in_denom_le:
  assumes "\<And>e. e \<in> set es \<Longrightarrow> 0 \<le> snd e"
  shows "0 \<le> sum_list (map (in_denom d) es) \<and> (((a, d), v) \<in> set es \<longrightarrow> v \<le> sum_list (map (in_denom d) es))"
  using assms
proof (induction es)
  case (Cons e es)
  obtain a' d' v' where "e = ((a', d'), v')" by (metis surj_pair)
  moreover have "0 \<le> snd e" "0 \<le> sum_list (map (in_denom d) es)" "((a, d), v) \<in> set es \<longrightarrow> v \<le> sum_list (map (in_denom d) es)"
    using Cons by auto
  moreover have "in_denom d ((a', d'), v') = (if d' = d then v' else 0)" by (simp add: in_denom_def)
  ultimately show ?case by auto
qed simp

lemma bal_le_held: "bal_ok s \<Longrightarrow> bal s a d \<le> held s d"
  using in_denom_le [of "Balances s" d "AccKey a"]
  by (fastforce simp: bal_def held_def store_walk_def bal_ok_def store_in_set split: option.splits)

lemma bank_ok_fits:
  assumes "bank_ok s"
  shows "int_ok (supply_of s d)" and "0 \<le> bal s a d" and "int_ok (bal s a d)"
proof -
  show i: "int_ok (supply_of s d)" using assms by (auto simp: bank_ok_def sup_ok_def supply_of_def split: option.splits)
  show n: "0 \<le> bal s a d" using assms by (simp add: bank_ok_def bal_nonneg)
  show "int_ok (bal s a d)" using int_ok_mono [OF n _ i] bal_le_held [of s a d] assms by (simp add: bank_ok_def)
qed

context sdk_math
begin

lemma SafeSub_one_total:
  assumes "strict_sorted_by Denom as" and "fits as" and "reDnm_MatchString (Denom c)" and "0 \<le> Amount c" and "int_ok (Amount c)"
    and "\<And>d. 0 \<le> amt as d \<and> int_ok (amt as d)"
  shows "\<exists>r neg. Coins_SafeSub M as [c] = Inr (r, neg)"
proof -
  let ?nb = "sanitizeCoins [c]"
  have nb: "NewCoins [c] = Inr ?nb" "strict_sorted_by Denom ?nb" "fits ?nb"
    using assms(3-5) by (auto simp: NewCoins_Inr sanitizeCoins_eq removeZeroCoins_def Coin_IsZero_def Coins_IsValid_alt fits_def)
  have "int_ok (amt as d + amt (Coins_negative ?nb) d)" for d
    using assms(4-6) int_ok_diff [of "amt as d" "Amount c"] by auto
  then have "\<exists>r. Coins_safeAdd M as (Coins_negative ?nb) = Inr r"
    unfolding Coins_safeAdd_def using assms(1,2) nb(2,3)
    by (intro safeAdd_in_total) (auto simp: Coins_negative_def strict_sorted_iff comp_def fits_def)
  then show ?thesis by (auto simp: Coins_SafeSub_def nb(1))
qed

lemma subUnlockedCoin_cases:
  assumes "bal_ok s" and "canonical L" and "\<And>d. 0 \<le> amt L d \<and> int_ok (amt L d)"
    and "reDnm_MatchString (Denom c)" and "0 < Amount c" and "int_ok (Amount c)" and "int_ok (bal s a (Denom c))"
  shows "if amt L (Denom c) + Amount c \<le> bal s a (Denom c) then \<exists>s'. subUnlockedCoin M L a c s = Inr s'
    else \<exists>e. subUnlockedCoin M L a c s = Inl (Err e)"
proof -
  let ?d = "Denom c" let ?b = "\<lparr>Denom = ?d, Amount = bal s a ?d\<rparr>" let ?l = "\<lparr>Denom = ?d, Amount = amt L ?d\<rparr>"
  note b = bal_nonneg [OF assms(1), of a ?d] assms(7)
  have ops: "GetBalance s a ?d = Inr ?b" "Coins_AmountOf L ?d = Inr (amt L ?d)" "NewCoin ?d (amt L ?d) = Inr ?l"
    using assms(3,4) b Coins_AmountOf_eq [OF assms(2,4)] by (simp_all add: GetBalance_Inr NewCoin_Inr)
  obtain sp n1 where s1: "Coins_SafeSub M [?b] [?l] = Inr (sp, n1)"
  proof -
    have "0 \<le> amt [?b] d \<and> int_ok (amt [?b] d)" for d using b by auto
    then show thesis using that SafeSub_one_total [of "[?b]" ?l] assms(3,4) b by (auto simp: fits_def simp del: amt_simps)
  qed
  have n1: "n1 \<longleftrightarrow> bal s a ?d < amt L ?d"
    using SafeSub_one(3) [OF s1] by (simp split: if_splits)
  show ?thesis
  proof (cases n1)
    case True
    then show ?thesis using ops s1 n1 assms(5) by (simp add: subUnlockedCoin_def)
  next
    case False
    have sp: "canonical sp" "\<And>d. amt sp d = (if d = ?d then bal s a ?d - amt L ?d else 0)"
      using SafeSub_one(1,2) [OF s1] by simp_all
    have io: "0 \<le> amt sp d \<and> int_ok (amt sp d)" for d
      using False n1 sp(2) b assms(3) [of ?d] int_ok_diff [of "bal s a ?d" "amt L ?d"] by auto
    have "fits sp" using sp(1) io by (metis amt_in canonicalD(2) fits_def)
    then obtain r n2 where s2: "Coins_SafeSub M sp [c] = Inr (r, n2)"
      using SafeSub_one_total [of sp c] sp(1) io assms(4-6) by (auto simp: canonical_def)
    have n2: "n2 \<longleftrightarrow> bal s a ?d - amt L ?d < Amount c"
      using SafeSub_one(3) [OF s2] sp(2) io by (auto split: if_splits)
    have "Coin_Sub M ?b c = Inr \<lparr>Denom = ?d, Amount = bal s a ?d - Amount c\<rparr>" if "\<not> n2"
      using that n2 assms(3) [of ?d] assms(5,6) b int_ok_diff [of "bal s a ?d" "Amount c"]
      by (auto simp: Coin_Sub_Inr)
    moreover have "\<exists>s'. setBalance s a \<lparr>Denom = ?d, Amount = bal s a ?d - Amount c\<rparr> = Inr s'" if "\<not> n2"
      using that n2 assms(3) [of ?d] assms(4) by (auto simp: setBalance_def Coin_IsValid_iff)
    ultimately show ?thesis using ops s1 s2 False n2 by (auto simp: subUnlockedCoin_def)
  qed
qed

lemma subUnlocked_fold:
  assumes "bal_ok s" and "canonical L" and "\<And>d. 0 \<le> amt L d \<and> int_ok (amt L d)" and "distinct (map Denom cs)"
    and "\<And>c. c \<in> set cs \<Longrightarrow> reDnm_MatchString (Denom c) \<and> 0 < Amount c \<and> int_ok (Amount c) \<and> int_ok (bal s a (Denom c))"
  shows "if \<forall>c \<in> set cs. amt L (Denom c) + Amount c \<le> bal s a (Denom c)
    then \<exists>s'. foldR (subUnlockedCoin M L a) cs s = Inr s' else \<exists>e. foldR (subUnlockedCoin M L a) cs s = Inl (Err e)"
  using assms
proof (induction cs arbitrary: s)
  case (Cons c cs)
  have one: "if amt L (Denom c) + Amount c \<le> bal s a (Denom c) then \<exists>s'. subUnlockedCoin M L a c s = Inr s'
    else \<exists>e. subUnlockedCoin M L a c s = Inl (Err e)"
    by (rule subUnlockedCoin_cases [OF Cons.prems(1-3)]) (use Cons.prems(5) in auto)
  show ?case
  proof (cases "amt L (Denom c) + Amount c \<le> bal s a (Denom c)")
    case True
    then obtain u where u: "subUnlockedCoin M L a c s = Inr u" using one by auto
    note cr = subUnlockedCoin_credited [OF u Cons.prems(1)]
    then have same: "bal u a (Denom x) = bal s a (Denom x)" if "x \<in> set cs" for x
      using that Cons.prems(4) by (auto simp: credited_def)
    have "if \<forall>c \<in> set cs. amt L (Denom c) + Amount c \<le> bal u a (Denom c)
      then \<exists>s'. foldR (subUnlockedCoin M L a) cs u = Inr s' else \<exists>e. foldR (subUnlockedCoin M L a) cs u = Inl (Err e)"
      by (rule Cons.IH) (use cr Cons.prems same in \<open>auto simp: credited_def\<close>)
    then show ?thesis using u True same by (auto split: if_splits)
  next
    case False
    then show ?thesis using one by auto
  qed
qed simp

lemma addCoins_total:
  assumes "bal_ok s" and "Coins_IsValid cs" and "\<And>c. c \<in> set cs \<Longrightarrow> int_ok (bal s a (Denom c) + Amount c)"
  shows "\<exists>s'. addCoins M s a cs = Inr s'"
proof -
  have "\<exists>s'. foldR (\<lambda>c s. bindR (GetBalance s a (Denom c)) (\<lambda>balance.
        bindR (Coin_Add M balance c) (\<lambda>newBalance. setBalance s a newBalance))) cs s = Inr s'"
    if "distinct (map Denom cs)" "\<And>c. c \<in> set cs \<Longrightarrow> reDnm_MatchString (Denom c) \<and> 0 < Amount c"
    using that assms(1,3)
  proof (induction cs arbitrary: s)
    case (Cons c cs)
    let ?f = "\<lambda>c s. bindR (GetBalance s a (Denom c)) (\<lambda>balance.
        bindR (Coin_Add M balance c) (\<lambda>newBalance. setBalance s a newBalance))"
    have "0 \<le> bal s a (Denom c)" using Cons.prems(3) by (rule bal_nonneg)
    then obtain u where u: "setBalance s a \<lparr>Denom = Denom c, Amount = bal s a (Denom c) + Amount c\<rparr> = Inr u"
      using Cons.prems(2) [of c] by (fastforce simp: setBalance_def Coin_IsValid_iff Coin_IsZero_def)
    have f: "?f c s = Inr u"
      using u \<open>0 \<le> bal s a (Denom c)\<close> Cons.prems(2,4) [of c] by (auto simp: bindR_eq_Inr GetBalance_Inr Coin_Add_Inr)
    have cr: "credited s u a [\<lparr>Denom = Denom c, Amount = Amount c\<rparr>]" by (rule setBalance_credited [OF u Cons.prems(3)])
    have "\<exists>s'. foldR ?f cs u = Inr s'"
    proof (rule Cons.IH)
      fix x assume x: "x \<in> set cs"
      then have "bal u a (Denom x) = bal s a (Denom x)" using cr Cons.prems(1) by (auto simp: credited_def)
      then show "int_ok (bal u a (Denom x) + Amount x)" using Cons.prems(4) x by simp
    qed (use Cons.prems cr in \<open>auto simp: credited_def\<close>)
    then show ?case using f by simp
  qed simp
  then show ?thesis using assms(2) strict_sorted_distinct [of Denom cs] by (simp add: addCoins_def Coins_IsValid_alt)
qed

end

lemma createRecipient_total:
  assumes "addr_codec (addressCodec (ak k))" and "auth_inv (ak k) (ak_store s)" and "next_number (ak_store s) + 1 < 2 ^ 64"
    and "a \<noteq> []" and "length a \<le> MaxAddrLen"
  obtains s' where "createRecipient k s a = Inr s'" and "auth_inv (ak k) (ak_store s')" and "HasAccount (ak_store s') a"
proof (cases "HasAccount (ak_store s) a")
  case True
  then show ?thesis using that assms(2) by (simp add: createRecipient_def)
next
  case False
  then have "GetAccount (ak_store s) a = None" by (simp add: HasAccount_def GetAccount_def store_has_def)
  then obtain s1 acc s2 where s: "NewAccountWithAddress (ak k) (ak_store s) a = Inr (s1, acc)" "SetAccount (ak k) s1 acc = Inr s2"
    "auth_inv (ak k) s2" "GetAccount s2 = (GetAccount (ak_store s))(a \<mapsto> acc)"
    using addr_codec.NewAccountWithAddress_correct [OF assms(1-3) refl assms(4,5)] by blast
  then have "HasAccount s2 a" by (metis GetAccount_def HasAccount_def fun_upd_same option.distinct(1) store_has_def)
  then show ?thesis using that [of "s\<lparr>ak_store := s2\<rparr>"] False s by (simp add: createRecipient_def)
qed

context sdk_math
begin

lemma subUnlockedCoins_cases:
  assumes "bank_ok s" and "Coins_IsValid cs" and "fits cs" and "LockedCoins M s t a = Inr L" and "Coins_IsValid L" and "fits L"
  shows "if \<forall>c \<in> set cs. amt L (Denom c) + Amount c \<le> bal s a (Denom c)
    then \<exists>s'. subUnlockedCoins M s t a cs = Inr s' else \<exists>e. subUnlockedCoins M s t a cs = Inl (Err e)"
proof -
  have "if \<forall>c \<in> set cs. amt L (Denom c) + Amount c \<le> bal s a (Denom c)
    then \<exists>s'. foldR (subUnlockedCoin M L a) cs s = Inr s' else \<exists>e. foldR (subUnlockedCoin M L a) cs s = Inl (Err e)"
  proof (rule subUnlocked_fold)
    show "bal_ok s" using assms(1) by (simp add: bank_ok_def)
    show c: "canonical L" by (rule valid_canonical [OF assms(5)])
    show "0 \<le> amt L d \<and> int_ok (amt L d)" for d using valid_amt_nonneg [OF assms(5)] fits_amt [OF c assms(6)] by simp
    show "distinct (map Denom cs)" using valid_canonical [OF assms(2)] by (rule canonicalD)
    show "reDnm_MatchString (Denom c) \<and> 0 < Amount c \<and> int_ok (Amount c) \<and> int_ok (bal s a (Denom c))" if "c \<in> set cs" for c
      using that assms(2,3) bank_ok_fits(3) [OF assms(1)] by (auto simp: Coins_IsValid_alt fits_def)
  qed
  then show ?thesis using assms(2,4) by (simp add: subUnlockedCoins_def)
qed

lemma SendCoins_refines_lemma:
  assumes "addr_codec (addressCodec (ak k))" and "bank_ok s" and "auth_inv (ak k) (ak_store s)" and "next_number (ak_store s) + 1 < 2 ^ 64"
    and "Coins_IsValid cs" and "fits cs" and "LockedCoins M s t from = Inr L" and "Coins_IsValid L" and "fits L"
    and "sendRestriction_apply k from to cs = Inr to'" and "to' \<noteq> []" and "length to' \<le> MaxAddrLen"
  shows "case ledger_transfer (bal s) L from to' cs of None \<Rightarrow> \<exists>e. SendCoins M k s t from to cs = Inl (Err e)
    | Some L' \<Rightarrow> \<exists>s'. SendCoins M k s t from to cs = Inr s' \<and> bal s' = L' \<and> supply_of s' = supply_of s \<and> bank_ok s' \<and>
        auth_inv (ak k) (ak_store s') \<and> HasAccount (ak_store s') to'"
proof (cases "\<forall>c \<in> set cs. amt L (Denom c) + Amount c \<le> bal s from (Denom c)")
  case False
  then obtain e where "subUnlockedCoins M s t from cs = Inl (Err e)"
    using subUnlockedCoins_cases [OF assms(2,5-9)] by (auto simp del: ball_simps)
  then show ?thesis using False by (auto simp: ledger_transfer_def SendCoins_def)
next
  case True
  have ok: "bal_ok s" using assms(2) by (simp add: bank_ok_def)
  obtain s1 where s1: "subUnlockedCoins M s t from cs = Inr s1"
    using subUnlockedCoins_cases [OF assms(2,5-9)] True by auto
  have c1: "credited s s1 from (Coins_negative cs)" by (rule subUnlockedCoins_credited [OF s1 ok])
  then have ok1: "bal_ok s1" by (simp add: credited_def)
  have "\<exists>s2. addCoins M s1 to' cs = Inr s2"
  proof (rule addCoins_total [OF ok1 assms(5)])
    fix c assume c: "c \<in> set cs"
    have "amt cs (Denom c) = Amount c" using valid_canonical [OF assms(5)] c by (intro amt_in canonicalD)
    then have "held s1 (Denom c) = supply_of s (Denom c) - Amount c"
      using c1 assms(2) by (simp add: credited_def bank_ok_def)
    then have "bal s1 to' (Denom c) + Amount c \<le> supply_of s (Denom c)" using bal_le_held [OF ok1, of to' "Denom c"] by simp
    moreover have "0 < Amount c" using assms(5) c by (simp add: Coins_IsValid_alt)
    ultimately show "int_ok (bal s1 to' (Denom c) + Amount c)"
      using bal_nonneg [OF ok1, of to' "Denom c"] int_ok_mono [OF _ _ bank_ok_fits(1) [OF assms(2)]] by simp
  qed
  then obtain s2 where s2: "addCoins M s1 to' cs = Inr s2" ..
  have "credited s1 s2 to' cs" by (rule addCoins_credited [OF s2 ok1])
  then have ak: "ak_store s2 = ak_store s"
    using c1 by (metis bank_store.select_convs(6) bank_store.surjective bank_store.update_convs(1) credited_def)
  obtain s' where s': "createRecipient k s2 to' = Inr s'" "auth_inv (ak k) (ak_store s')" "HasAccount (ak_store s') to'"
    using createRecipient_total [OF assms(1), of s2 to'] ak assms(3,4,11,12) by metis
  have send: "SendCoins M k s t from to cs = Inr s'" using s1 s2 s'(1) assms(10) by (simp add: SendCoins_def)
  obtain to'' where e: "sendRestriction_apply k from to cs = Inr to''" "changed s s' (\<lambda>_. 0)"
    "\<And>x d. bal s' x d = bal s x d - (if x = from then amt cs d else 0) + (if x = to'' then amt cs d else 0)"
    using SendCoins_effect [OF send ok] by blast
  then have "bal s' = (\<lambda>a d. bal s a d - (if a = from then amt cs d else 0) + (if a = to' then amt cs d else 0))"
    using assms(10) by (intro ext) simp
  then show ?thesis
    using True send s' changed_sup [OF e(2)] changed_bank_ok [OF e(2) assms(2)] by (auto simp: ledger_transfer_def)
qed

end

end
