(* ===== verification/BankProps.thy ===== *)
theory BankProps
  imports BankSpec
begin

text \<open>
  The properties of the bank module and of the account keeper, with the concrete keeper, genesis
  state and messages at which they are applied.
\<close>

section \<open>From genesis on\<close>

lemma genesis_valid_balances:
  assumes "Bank_GenesisState_Validate M A gs = Inr ()" and "b \<in> set (bg_Balances gs)"
  shows "Coins_IsValid (b_Coins b)"
proof -
  have "\<forall>b \<in> set bs. Balance_Validate A b = Inr ()"
    if "foldR (\<lambda>b (seen, totalSupply). if b_Address b \<in> set seen then Inl (Err ''duplicate balance for address'')
          else bindR (Balance_Validate A b) (\<lambda>_.
            bindR (Coins_Add M totalSupply (b_Coins b)) (\<lambda>t. Inr (b_Address b # seen, t)))) bs p = Inr q" for bs p q
    using that by (induction bs arbitrary: p) (auto simp: bindR_eq_Inr split: if_splits)
  then have "Balance_Validate A b = Inr ()"
    using assms by (auto simp: Bank_GenesisState_Validate_def bindR_eq_Inr split: if_splits)
  then show ?thesis by (auto simp: Balance_Validate_def bindR_eq_Inr Coins_IsValid_ok)
qed

context sdk_math
begin

text \<open>Two texts of one address: the second balance overwrites the first, while the supply counts both.\<close>

lemma duplicate_genesis:
  fixes A :: addr_ops and x y a :: string and k :: bank_keeper and s0 :: bank_store
  defines "c \<equiv> \<lparr>Denom = ''atone'', Amount = 1\<rparr>"
  defines "gs \<equiv> \<lparr>bg_Params = \<lparr>bp_SendEnabled = [], DefaultSendEnabled = True\<rparr>,
    bg_Balances = [\<lparr>b_Address = x, b_Coins = [c]\<rparr>, \<lparr>b_Address = y, b_Coins = [c]\<rparr>],
    bg_Supply = [], bg_DenomMetadata = [], bg_SendEnabled = []\<rparr>"
  assumes "addressCodec (ak k) = A" and "Balances s0 = []" and "Supply s0 = []" and "x \<noteq> y"
    and "AccAddressFromBech32 A x = Inr a" and "AccAddressFromBech32 A y = Inr a"
    and "StringToBytes A x = Inr a" and "StringToBytes A y = Inr a"
  shows "Bank_GenesisState_Validate M A gs = Inr () \<and>
    (\<exists>s. Bank_InitGenesis M k s0 gs = Inr s \<and> Bank_AllInvariants M s = Inr True)"
proof
  have d: "reDnm_MatchString ''atone''" by code_simp
  have v: "Coins_IsValid [c]" "Coins_Validate [c] = Inr ()" "canonical [c]"
    using d by (auto simp: c_def Coins_IsValid_alt Coins_Validate_ok canonical_def)
  have f: "fits [c]" "fits []" by (simp_all add: fits_def c_def int_ok_def)
  have io: "int_ok (amt [] d + amt [c] d)" "int_ok (amt [c] d + amt [c] d)" for d by (simp_all add: c_def int_ok_def)
  have can0: "canonical []" by (simp add: canonical_def)
  obtain r where r: "Coins_safeAdd M [] [c] = Inr r"
    by (rule safeAdd_total [OF can0 v(3) f(2,1) io(1)])
  then have r': "r = [c]" by (intro canonical_unique [OF safeAdd_Inr(1) v(3)]) (auto simp: safeAdd_Inr)
  obtain r2 where r2: "Coins_safeAdd M [c] [c] = Inr r2"
    by (rule safeAdd_total [OF v(3) v(3) f(1,1) io(2)])
  show "Bank_GenesisState_Validate M A gs = Inr ()"
    using assms(6-8) v(2) r r' r2
    by (simp add: gs_def Bank_GenesisState_Validate_def Bank_Params_Validate_def GetAllSendEnabled_def
        Balance_Validate_def Coins_Add_def Coins_Empty_def)
  have "int_Add M 1 1 = Inr 2" by (simp add: int_Add_Inr int_ok_def)
  then have mm: "MapCoins_Add M Map.empty [c] = Inr [''atone'' \<mapsto> 1]" "MapCoins_Add M [''atone'' \<mapsto> 1] [c] = Inr [''atone'' \<mapsto> 2]"
    by (simp_all add: c_def)
  have tc: "MapCoins_ToCoins [''atone'' \<mapsto> 2] [''atone''] = Inr [\<lparr>Denom = ''atone'', Amount = 2\<rparr>]"
    using d by (simp add: MapCoins_ToCoins_def Coins_Sort_eq)
  let ?s = "s0\<lparr>BankParams := Some \<lparr>bp_SendEnabled = [], DefaultSendEnabled = True\<rparr>,
    Balances := [((AccKey a, ''atone''), 1)], Supply := [(''atone'', 2)]\<rparr>"
  have "Bank_InitGenesis M k s0 gs = Inr ?s"
    using assms(3-10) mm tc
    by (simp add: gs_def Bank_InitGenesis_def Bank_SetParams_def GetAllSendEnabled_def SanitizeGenesisBalances_def
        setGenesisBalance_def balance_keys_def c_def setSupply_def Coin_IsZero_def Coins_Empty_def Let_def)
  moreover have "Bank_AllInvariants M ?s = Inr True"
  proof -
    have it: "IterateAllBalances ?s = Inr [(a, c)]" "GetPaginatedTotalSupply ?s = Inr [\<lparr>Denom = ''atone'', Amount = 2\<rparr>]"
      using d by (simp_all add: IterateAllBalances_def GetPaginatedTotalSupply_def store_walk_def c_def)
    have "\<not> Coins_Equal [c] [\<lparr>Denom = ''atone'', Amount = 2\<rparr>]" by (simp add: c_def Coins_Equal_def Coins_Sort_eq)
    then show ?thesis
      using r r' by (simp add: Bank_AllInvariants_def NonnegativeBalanceInvariant_def TotalSupply_def it Coins_Add_def
          Coin_IsNegative_def c_def)
  qed
  ultimately show "\<exists>s. Bank_InitGenesis M k s0 gs = Inr s \<and> Bank_AllInvariants M s = Inr True" by blast
qed

text \<open>What an accepted message leaves of a spend limit.\<close>

lemma Accept_effect:
  assumes "SendAuthorization_Accept M a msg = Inr r" and "Coins_IsValid (SpendLimit a)"
  shows "(AllowList a = [] \<or> ToAddress msg \<in> set (AllowList a)) \<and> (\<forall>d. 0 \<le> amt (ms_Amount msg) d) \<and>
    (case ar_Updated r of None \<Rightarrow> ar_Delete r \<and> (\<forall>d. amt (ms_Amount msg) d = amt (SpendLimit a) d)
     | Some b \<Rightarrow> \<not> ar_Delete r \<and> AllowList b = AllowList a \<and> Coins_IsValid (SpendLimit b) \<and>
         (\<forall>d. amt (ms_Amount msg) d + amt (SpendLimit b) d = amt (SpendLimit a) d))"
proof -
  obtain left where s: "Coins_SafeSub M (SpendLimit a) (ms_Amount msg) = Inr (left, False)"
    and al: "AllowList a = [] \<or> ToAddress msg \<in> set (AllowList a)"
    and r: "r = (if Coins_IsZero left then \<lparr>ar_Delete = True, ar_Updated = None\<rparr>
      else \<lparr>ar_Delete = False, ar_Updated = Some \<lparr>SpendLimit = left, AllowList = AllowList a\<rparr>\<rparr>)"
    using assms(1) by (auto simp: SendAuthorization_Accept_def bindR_eq_Inr split: if_splits)
  obtain nb where nb: "NewCoins (ms_Amount msg) = Inr nb" and sa: "Coins_safeAdd M (SpendLimit a) (Coins_negative nb) = Inr left"
    and n: "\<not> Coins_IsAnyNegative left"
    using s by (auto simp: Coins_SafeSub_def bindR_eq_Inr)
  have can: "canonical left" by (rule safeAdd_Inr(1) [OF sa])
  have l: "amt left d = amt (SpendLimit a) d - amt (ms_Amount msg) d" for d
    using safeAdd_Inr(2) [OF sa, of d] NewCoins_amt [OF nb, of d] by simp
  have m: "0 \<le> amt (ms_Amount msg) d" for d
    using valid_amt_nonneg [OF NewCoins_valid [OF nb], of d] NewCoins_amt [OF nb, of d] by simp
  have nn: "0 \<le> amt left d" for d using n IsAnyNegative_amt [OF can] by (meson not_less)
  have z: "amt left d = 0" if "Coins_IsZero left" for d
    using that by (induction left) (auto simp: Coins_IsZero_def Coin_IsZero_def)
  have "Coins_IsValid left"
  proof (rule canonical_valid [OF can])
    fix d assume "amt left d \<noteq> 0"
    then have "amt (SpendLimit a) d \<noteq> 0" "0 < amt left d" using l [of d] m [of d] nn [of d] by auto
    then show "reDnm_MatchString d \<and> 0 < amt left d" using valid_denom [OF assms(2)] by blast
  qed
  then show ?thesis using r al m l z by auto
qed

end

text \<open>
  A grant used by a list of messages: it is replaced by its updated form, and nothing is accepted
  once it is deleted.
\<close>

fun use_grant :: "math_ops \<Rightarrow> send_authorization option \<Rightarrow> msg_send list \<Rightarrow> send_authorization option res" where
  "use_grant M g [] = Inr g"
| "use_grant M None (msg # msgs) = Inl (Err ''authorization not found'')"
| "use_grant M (Some a) (msg # msgs) = bindR (SendAuthorization_Accept M a msg) (\<lambda>r. use_grant M (ar_Updated r) msgs)"

definition limit_left :: "send_authorization option \<Rightarrow> string \<Rightarrow> int" where
  "limit_left g d = (case g of None \<Rightarrow> 0 | Some a \<Rightarrow> amt (SpendLimit a) d)"


lemma limit_left_simps [simp]: "limit_left None d = 0" "limit_left (Some a) d = amt (SpendLimit a) d"
  by (simp_all add: limit_left_def)

context sdk_math
begin

lemma use_grant_limit:
  assumes "use_grant M g msgs = Inr g'" and "\<And>a. g = Some a \<Longrightarrow> Coins_IsValid (SpendLimit a)"
  shows "(\<Sum>m\<leftarrow>msgs. amt (ms_Amount m) d) + limit_left g' d = limit_left g d \<and> 0 \<le> limit_left g' d \<and>
    (\<forall>a. g = Some a \<longrightarrow> AllowList a \<noteq> [] \<longrightarrow> (\<forall>m \<in> set msgs. ToAddress m \<in> set (AllowList a)))"
  using assms
proof (induction msgs arbitrary: g)
  case Nil
  then show ?case by (auto simp: limit_left_def valid_amt_nonneg split: option.splits)
next
  case (Cons msg msgs)
  then obtain a r where g: "g = Some a" and r: "SendAuthorization_Accept M a msg = Inr r" "use_grant M (ar_Updated r) msgs = Inr g'"
    by (cases g) (auto simp: bindR_eq_Inr)
  note e = Accept_effect [OF r(1) Cons.prems(2) [OF g]]
  have IH: "(\<Sum>m\<leftarrow>msgs. amt (ms_Amount m) d) + limit_left g' d = limit_left (ar_Updated r) d \<and> 0 \<le> limit_left g' d \<and>
    (\<forall>a. ar_Updated r = Some a \<longrightarrow> AllowList a \<noteq> [] \<longrightarrow> (\<forall>m \<in> set msgs. ToAddress m \<in> set (AllowList a)))"
    by (rule Cons.IH [OF r(2)]) (use e in auto)
  show ?case
  proof (cases "ar_Updated r")
    case None
    then have "msgs = []" using r(2) by (cases msgs) simp_all
    then show ?thesis using e IH None g by auto
  next
    case (Some b)
    then have b: "AllowList b = AllowList a" "amt (ms_Amount msg) d + amt (SpendLimit b) d = amt (SpendLimit a) d" using e by auto
    have "(\<Sum>m\<leftarrow>msg # msgs. amt (ms_Amount m) d) + limit_left g' d = limit_left g d" using b(2) IH Some g by simp
    then show ?thesis using e IH Some g b(1) by auto
  qed
qed

end

section \<open>The account keeper\<close>

text \<open>
  The ways other modules create and remove accounts; a step is taken while account numbers are left.
\<close>

inductive auth_step :: "auth_keeper \<Rightarrow> auth_store \<Rightarrow> auth_store \<Rightarrow> bool" for k where
  create: "\<lbrakk>GetAccount s addr = None; addr \<noteq> []; length addr \<le> MaxAddrLen; next_number s + 1 < 2 ^ 64;
    NewAccountWithAddress k s addr = Inr (s1, acc); SetAccount k s1 acc = Inr s'\<rbrakk> \<Longrightarrow> auth_step k s s'"
| module: "\<lbrakk>next_number s + 1 < 2 ^ 64; GetModuleAccount k s name = Inr (s', macc)\<rbrakk> \<Longrightarrow> auth_step k s s'"
| remove: "RemoveAccount k s acc = s' \<Longrightarrow> auth_step k s s'"

lemma auth_inv_empty: "AccountsMap s = [] \<Longrightarrow> 0 \<le> next_number s \<Longrightarrow> auth_inv k s"
  by (simp add: auth_inv_def GetAccount_def store_get_def)

lemma auth_inv_remove: "auth_inv k s \<Longrightarrow> auth_inv k (RemoveAccount k s acc)"
proof -
  assume a: "auth_inv k s"
  have n: "next_number (RemoveAccount k s acc) = next_number s"
    by (simp add: next_number_def NextAccountNumber_def NextAccountNumberLegacy_def RemoveAccount_def Let_def split: option.splits)
  have g: "GetAccount (RemoveAccount k s acc) b = (if b = AccountI_GetAddress (addressCodec k) acc then None else GetAccount s b)" for b
    by (simp add: RemoveAccount_def GetAccount_def)
  show "auth_inv k (RemoveAccount k s acc)"
    unfolding auth_inv_def n g using a by (auto simp: auth_inv_def RemoveAccount_def split: if_splits)
qed

lemma auth_step_inv:
  assumes "addr_codec (addressCodec k)" and "keeper_ok k" and "auth_inv k s" and "auth_step k s s'"
  shows "auth_inv k s'"
  using assms(4)
proof cases
  case (create addr s1 acc)
  then show ?thesis using addr_codec.NewAccountWithAddress_correct [OF assms(1) assms(3)] by (metis Inr_inject prod.inject)
next
  case (module name macc)
  show ?thesis
  proof (cases "permAddrs k name")
    case None
    then have "s' = s" using module
      by (simp add: GetModuleAccount_def GetModuleAccountAndPermissions_def GetModuleAddressAndPermissions_def)
    then show ?thesis using assms(3) by simp
  next
    case (Some p)
    have "case GetAccount s (pa_address p) of None \<Rightarrow> True | Some (Acc_Module _) \<Rightarrow> True | Some _ \<Rightarrow> False"
      using module Some
      by (auto simp: GetModuleAccount_def GetModuleAccountAndPermissions_def GetModuleAddressAndPermissions_def
          split: option.splits account.splits)
    then show ?thesis
      using addr_codec.GetModuleAccount_correct [OF assms(1,2,3) module(1) refl Some] module(2) by (metis Inr_inject prod.inject)
  qed
next
  case remove
  then show ?thesis using auth_inv_remove [OF assms(3)] by blast
qed

lemma auth_steps_inv:
  "(auth_step k)\<^sup>*\<^sup>* s s' \<Longrightarrow> addr_codec (addressCodec k) \<Longrightarrow> keeper_ok k \<Longrightarrow> auth_inv k s \<Longrightarrow> auth_inv k s'"
  by (induction rule: rtranclp_induct) (auto intro: auth_step_inv)

section \<open>Properties\<close>

definition ex_keeper :: bank_keeper where
  "ex_keeper = \<lparr>ak = \<lparr>addressCodec = ex_addr,
       permAddrs = NewAccountKeeper_permAddrs ex_addr [(''mint'', [Minter]), (''gov'', [Burner])]\<rparr>,
     blockedAddrs = [], bank_authority = ''atone1gov'', sendRestriction = None,
     mintCoinsRestrictionFn = NoOpMintingRestrictionFn\<rparr>"

definition ex_empty :: bank_store where
  "ex_empty = \<lparr>Balances = [], Supply = [], DenomMetadata = [], SendEnabledMap = [], BankParams = None,
     ak_store = \<lparr>AccountsMap = [], GlobalAccountNumber = Some 0, LegacyGlobalAccountNumber = None\<rparr>\<rparr>"

definition ex_bank_genesis :: bank_genesis where
  "ex_bank_genesis = \<lparr>bg_Params = \<lparr>bp_SendEnabled = [], DefaultSendEnabled = True\<rparr>,
     bg_Balances = [\<lparr>b_Address = ''atone1bob'', b_Coins = ex_fee\<rparr>, \<lparr>b_Address = ''atone1alice'', b_Coins = ex_wallet\<rparr>],
     bg_Supply = [], bg_DenomMetadata = [], bg_SendEnabled = []\<rparr>"

definition ex_send :: msg_send where
  "ex_send = \<lparr>FromAddress = ''atone1alice'', ToAddress = ''atone1carol'', ms_Amount = ex_fee\<rparr>"

definition ex_bank :: bank_store where
  "ex_bank = ex_empty\<lparr>Balances := [((AccKey ''bob'', ''photon''), 2), ((AccKey ''alice'', ''atone''), 5), ((AccKey ''alice'', ''photon''), 3)],
     Supply := [(''atone'', 5), (''photon'', 5)],
     BankParams := Some \<lparr>bp_SendEnabled = [], DefaultSendEnabled = True\<rparr>\<rparr>"

lemma ex_genesis_run:
  "Bank_GenesisState_Validate ref_math ex_addr ex_bank_genesis = Inr ()"
  "Bank_InitGenesis ref_math ex_keeper ex_empty ex_bank_genesis = Inr ex_bank"
  by code_simp+

lemma ex_fits: "\<forall>b \<in> set (bg_Balances ex_bank_genesis). fits (b_Coins b)"
  using ex_coins_valid by (simp add: ex_bank_genesis_def)

lemma ex_distinct: "distinct (map (addr_of (addressCodec (ak ex_keeper))) (bg_Balances ex_bank_genesis))"
  by code_simp

lemma ex_empty_simps: "Balances ex_empty = []" "Supply ex_empty = []"
  by (simp_all add: ex_empty_def)

lemma ex_bank_ok: "bank_ok ex_bank"
  by (rule sdk_math.InitGenesis_bank_ok [OF ref_math_laws ex_genesis_run(2) ex_empty_simps _ ex_distinct])
    (use ex_coins_valid in \<open>auto simp: ex_bank_genesis_def\<close>)

lemma ex_auth_inv: "auth_inv (ak ex_keeper) (ak_store ex_bank)" "next_number (ak_store ex_bank) + 1 < 2 ^ 64"
  "keeper_ok (ak ex_keeper)" "addr_codec (addressCodec (ak ex_keeper))"
proof -
  show "auth_inv (ak ex_keeper) (ak_store ex_bank)" by (rule auth_inv_empty) (code_simp+)
  show "next_number (ak_store ex_bank) + 1 < 2 ^ 64" by code_simp
  show "keeper_ok (ak ex_keeper)"
    unfolding ex_keeper_def bank_keeper.select_convs by (rule NewAccountKeeper_ok) code_simp
  show "addr_codec (addressCodec (ak ex_keeper))" using ex_addr_laws by (simp add: ex_keeper_def)
qed

text \<open>C3: the invariants that the bank module registers (no negative balance, and the supply of
  every denomination is the sum of all balances in it) hold in every state reachable from a
  validated genesis by any sequence of bank messages and of keeper calls by other modules: sends,
  multi-sends, module transfers, delegation tracking, minting, burning and parameter changes. The
  genesis amounts are representable and no two of its balances are for the same address.\<close>

theorem bank_invariants_hold:
  assumes "sdk_math M" and "Bank_GenesisState_Validate M (addressCodec (ak k)) gs = Inr ()"
    and "\<forall>b \<in> set (bg_Balances gs). fits (b_Coins b)" and "distinct (map (addr_of (addressCodec (ak k))) (bg_Balances gs))"
    and "Balances s0 = []" and "Supply s0 = []" and "Bank_InitGenesis M k s0 gs = Inr s" and "(bank_step M k)\<^sup>*\<^sup>* s s'"
  shows "Bank_AllInvariants M s' = Inr False"
proof -
  have "bank_ok s"
    by (rule sdk_math.InitGenesis_bank_ok [OF assms(1,7,5,6) _ assms(4)])
      (use genesis_valid_balances [OF assms(2)] assms(3) in blast)
  then have "bank_ok s'" by (rule sdk_math.bank_steps_ok [OF assms(1,8)])
  then show ?thesis by (rule sdk_math.bank_ok_invariants [OF assms(1)])
qed

theorem bank_invariants_hold_witness:
  "\<exists>s'. msgServer_Send ref_math ex_keeper ex_bank 0 ex_send = Inr s' \<and> Bank_AllInvariants ref_math s' = Inr False"
proof -
  have "okR (msgServer_Send ref_math ex_keeper ex_bank 0 ex_send)" by code_simp
  then obtain s' where s': "msgServer_Send ref_math ex_keeper ex_bank 0 ex_send = Inr s'" by (auto simp: okR_iff)
  then have run: "(bank_step ref_math ex_keeper)\<^sup>*\<^sup>* ex_bank s'" by (auto intro: bank_step.send)
  have "Bank_GenesisState_Validate ref_math (addressCodec (ak ex_keeper)) ex_bank_genesis = Inr ()"
    using ex_genesis_run(1) by (simp add: ex_keeper_def)
  from bank_invariants_hold [OF ref_math_laws this ex_fits ex_distinct ex_empty_simps ex_genesis_run(2) run] s'
  show ?thesis by blast
qed

text \<open>C37: a genesis that lists one address under two texts that decode to it (bech32 decoders accept
  the upper-case form of an address) passes validation and initialization, but breaks the
  supply invariant: the second balance overwrites the first and the supply counts both.\<close>

theorem genesis_two_texts_break_supply:
  assumes "sdk_math M" and "addressCodec (ak k) = A" and "Balances s0 = []" and "Supply s0 = []" and "x \<noteq> y"
    and "AccAddressFromBech32 A x = Inr a" and "AccAddressFromBech32 A y = Inr a"
    and "StringToBytes A x = Inr a" and "StringToBytes A y = Inr a"
  shows "\<exists>gs s. Bank_GenesisState_Validate M A gs = Inr () \<and> Bank_InitGenesis M k s0 gs = Inr s \<and>
    Bank_AllInvariants M s = Inr True"
  using sdk_math.duplicate_genesis [OF assms(1) assms(2-9)] by blast

definition lower :: "char \<Rightarrow> char" where
  "lower c = (let n = of_char c :: nat in if 65 \<le> n \<and> n \<le> 90 then char_of (n + 32) else c)"

definition ex_addr_ci :: addr_ops where
  "ex_addr_ci = ex_addr\<lparr>lib_Decode := (\<lambda>s n. lib_Decode ex_addr (map lower s) n)\<rparr>"

theorem genesis_two_texts_break_supply_witness:
  "\<exists>gs s. Bank_GenesisState_Validate ref_math ex_addr_ci gs = Inr () \<and>
     Bank_InitGenesis ref_math (ex_keeper\<lparr>ak := (ak ex_keeper)\<lparr>addressCodec := ex_addr_ci\<rparr>\<rparr>) ex_empty gs = Inr s \<and>
     Bank_AllInvariants ref_math s = Inr True"
proof (rule genesis_two_texts_break_supply [OF ref_math_laws _ ex_empty_simps])
  show "''atone1alice'' \<noteq> ''ATONE1ALICE''" by simp
  show "AccAddressFromBech32 ex_addr_ci ''atone1alice'' = Inr ''alice''" by code_simp
  show "AccAddressFromBech32 ex_addr_ci ''ATONE1ALICE'' = Inr ''alice''" by code_simp
  show "StringToBytes ex_addr_ci ''atone1alice'' = Inr ''alice''" by code_simp
  show "StringToBytes ex_addr_ci ''ATONE1ALICE'' = Inr ''alice''" by code_simp
qed simp

text \<open>C4: \<^verbatim>\<open>SendCoins\<close> implements the abstract ledger: it succeeds exactly when the payer holds every
  coin on top of what is locked at the block time, and then the balances are those of the ledger
  after the transfer to the address the send restriction returns, the supply is unchanged, the
  bank and account invariants are kept and the recipient has an account; otherwise it returns an
  error and never panics.\<close>

theorem SendCoins_refines_ledger:
  assumes "sdk_math M" and "addr_codec (addressCodec (ak k))" and "bank_ok s" and "auth_inv (ak k) (ak_store s)"
    and "next_number (ak_store s) + 1 < 2 ^ 64" and "Coins_IsValid cs" and "fits cs"
    and "LockedCoins M s t from = Inr L" and "Coins_IsValid L" and "fits L"
    and "sendRestriction_apply k from to cs = Inr to'" and "to' \<noteq> []" and "length to' \<le> MaxAddrLen"
  shows "case ledger_transfer (bal s) L from to' cs of None \<Rightarrow> \<exists>e. SendCoins M k s t from to cs = Inl (Err e)
    | Some L' \<Rightarrow> \<exists>s'. SendCoins M k s t from to cs = Inr s' \<and> bal s' = L' \<and> supply_of s' = supply_of s \<and> bank_ok s' \<and>
        auth_inv (ak k) (ak_store s') \<and> HasAccount (ak_store s') to'"
  by (rule sdk_math.SendCoins_refines_lemma [OF assms])

theorem SendCoins_refines_ledger_witness:
  "\<exists>s' e. SendCoins ref_math ex_keeper ex_bank 0 ''alice'' ''carol'' ex_fee = Inr s' \<and> bal s' ''carol'' ''photon'' = 2 \<and>
     SendCoins ref_math ex_keeper ex_bank 0 ''bob'' ''carol'' ex_wallet = Inl (Err e)"
proof -
  have l: "LockedCoins ref_math ex_bank 0 a = Inr []" for a by (simp add: LockedCoins_def ex_bank_def ex_empty_def GetAccount_def store_get_def)
  have r: "sendRestriction_apply ex_keeper a ''carol'' cs = Inr ''carol''" for a cs
    by (simp add: sendRestriction_apply_def ex_keeper_def)
  have c: "''carol'' \<noteq> []" "length ''carol'' \<le> MaxAddrLen" by (simp_all add: MaxAddrLen_def)
  have n: "Coins_IsValid []" "fits []" by (simp_all add: Coins_IsValid_Nil fits_def)
  note send = SendCoins_refines_ledger [OF ref_math_laws ex_auth_inv(4) ex_bank_ok ex_auth_inv(1,2) _ _ l n r c]
  have b: "bal ex_bank ''alice'' ''photon'' = 3" "bal ex_bank ''bob'' ''atone'' = 0" "bal ex_bank ''carol'' ''photon'' = 0" by code_simp+
  have "\<exists>s'. SendCoins ref_math ex_keeper ex_bank 0 ''alice'' ''carol'' ex_fee = Inr s' \<and> bal s' ''carol'' ''photon'' = 2"
    using send [OF ex_coins_valid(2,4), of "''alice''"] b
    by (auto simp: ledger_transfer_def ex_fee_def)
  moreover have "\<exists>e. SendCoins ref_math ex_keeper ex_bank 0 ''bob'' ''carol'' ex_wallet = Inl (Err e)"
    using send [OF ex_coins_valid(1,3), of "''bob''"] b by (auto simp: ledger_transfer_def ex_wallet_def)
  ultimately show ?thesis by blast
qed

text \<open>C12: minting needs the minter permission of the module account and burning the burner permission;
  a successful mint or burn changes the supply and the balance of that module account by exactly
  the given coins, no other balance, and keeps the bank invariant.\<close>

theorem mint_burn_change_supply:
  assumes "sdk_math M" and "bank_ok s"
  shows "(MintCoins M k s name cs = Inr s' \<longrightarrow> (\<exists>s1 acc. needModuleAccount k s name = Inr (s1, acc) \<and>
      ModuleAccount_HasPermission acc Minter \<and> bank_ok s' \<and> (\<forall>d. supply_of s' d = supply_of s d + amt cs d) \<and>
      (\<forall>x d. bal s' x d = bal s x d + (if x = BaseAccount_GetAddress (addressCodec (ak k)) acc then amt cs d else 0)))) \<and>
    (BurnCoins M k s t name cs = Inr s' \<longrightarrow> (\<exists>s1 acc. needModuleAccount k s name = Inr (s1, acc) \<and>
      ModuleAccount_HasPermission acc Burner \<and> bank_ok s' \<and> (\<forall>d. supply_of s' d = supply_of s d - amt cs d) \<and>
      (\<forall>x d. bal s' x d = bal s x d - (if x = BaseAccount_GetAddress (addressCodec (ak k)) acc then amt cs d else 0))))"
  (is "(_ \<longrightarrow> (\<exists>s1 acc. ?P s1 acc)) \<and> (_ \<longrightarrow> (\<exists>s1 acc. ?Q s1 acc))")
proof (intro conjI impI)
  assume "MintCoins M k s name cs = Inr s'"
  then show "\<exists>s1 acc. ?P s1 acc" by (rule sdk_math.MintCoins_effect [OF assms(1) _ assms(2)]) (intro exI conjI)
next
  assume "BurnCoins M k s t name cs = Inr s'"
  then show "\<exists>s1 acc. ?Q s1 acc" by (rule sdk_math.BurnCoins_effect [OF assms(1) _ assms(2)]) (intro exI conjI)
qed

theorem mint_burn_change_supply_witness:
  "\<exists>s'. MintCoins ref_math ex_keeper ex_bank ''mint'' ex_fee = Inr s' \<and> bank_ok s' \<and> supply_of s' ''photon'' = 7"
proof -
  have "okR (MintCoins ref_math ex_keeper ex_bank ''mint'' ex_fee)" by code_simp
  then obtain s' where s': "MintCoins ref_math ex_keeper ex_bank ''mint'' ex_fee = Inr s'" by (auto simp: okR_iff)
  have "supply_of ex_bank ''photon'' = 5" "amt ex_fee ''photon'' = 2" by code_simp+
  moreover have "bank_ok s' \<and> (\<forall>d. supply_of s' d = supply_of ex_bank d + amt ex_fee d)"
    using mint_burn_change_supply [OF ref_math_laws ex_bank_ok, where k = ex_keeper and name = "''mint''" and cs = ex_fee and s' = s'] s'
    by blast
  ultimately show ?thesis using s' by simp
qed

text \<open>C15: a send authorization never lets the grantee spend more than its limit: over any sequence of
  accepted messages, what was sent and what is left of the limit add up to the limit of the
  grant in every denomination, the rest is never negative, and with an allow list every
  recipient is on it.\<close>

theorem SendAuthorization_bounds_spending:
  assumes "sdk_math M" and "use_grant M (Some a) msgs = Inr g" and "Coins_IsValid (SpendLimit a)"
  shows "(\<Sum>m\<leftarrow>msgs. amt (ms_Amount m) d) + limit_left g d = amt (SpendLimit a) d \<and> 0 \<le> limit_left g d \<and>
    (AllowList a \<noteq> [] \<longrightarrow> (\<forall>m \<in> set msgs. ToAddress m \<in> set (AllowList a)))"
  using sdk_math.use_grant_limit [OF assms(1,2), of d] assms(3) by simp

theorem SendAuthorization_bounds_spending_witness:
  "\<exists>g. use_grant ref_math (Some \<lparr>SpendLimit = ex_wallet, AllowList = []\<rparr>) [ex_send] = Inr g \<and> limit_left g ''photon'' = 1"
proof -
  let ?a = "\<lparr>SpendLimit = ex_wallet, AllowList = []\<rparr>"
  have "okR (use_grant ref_math (Some ?a) [ex_send])" by code_simp
  then obtain g where g: "use_grant ref_math (Some ?a) [ex_send] = Inr g" by (auto simp: okR_iff)
  have "amt ex_wallet ''photon'' = 3" "amt (ms_Amount ex_send) ''photon'' = 2" by code_simp+
  then show ?thesis using SendAuthorization_bounds_spending [OF ref_math_laws g, of "''photon''"] ex_coins_valid(1) g by simp
qed

text \<open>C16: in every state reachable from a store without accounts by creating accounts for addresses, by
  looking up or creating module accounts and by removing accounts, every account is stored under
  its own address and no two accounts have the same number; and creating the account of an
  address without one never panics while account numbers are left.\<close>

theorem accounts_unique:
  assumes "addr_codec (addressCodec k)" and "keeper_ok k" and "AccountsMap s = []" and "0 \<le> next_number s"
    and "(auth_step k)\<^sup>*\<^sup>* s s'"
  shows "(\<forall>a acc. GetAccount s' a = Some acc \<longrightarrow> AccountI_GetAddress (addressCodec k) acc = a) \<and>
    (\<forall>a b acc acc'. GetAccount s' a = Some acc \<longrightarrow> GetAccount s' b = Some acc' \<longrightarrow>
      AccountI_GetAccountNumber acc = AccountI_GetAccountNumber acc' \<longrightarrow> a = b) \<and>
    (\<forall>a. GetAccount s' a = None \<longrightarrow> a \<noteq> [] \<longrightarrow> length a \<le> MaxAddrLen \<longrightarrow> next_number s' + 1 < 2 ^ 64 \<longrightarrow>
      (\<exists>s1 acc s2. NewAccountWithAddress k s' a = Inr (s1, acc) \<and> SetAccount k s1 acc = Inr s2 \<and> auth_step k s' s2))"
proof -
  have i: "auth_inv k s'" by (rule auth_steps_inv [OF assms(5,1,2) auth_inv_empty [OF assms(3,4)]])
  have "\<exists>s1 acc s2. NewAccountWithAddress k s' a = Inr (s1, acc) \<and> SetAccount k s1 acc = Inr s2 \<and> auth_step k s' s2"
    if a: "GetAccount s' a = None" "a \<noteq> []" "length a \<le> MaxAddrLen" "next_number s' + 1 < 2 ^ 64" for a
  proof -
    obtain s1 acc s2 where "NewAccountWithAddress k s' a = Inr (s1, acc)" "SetAccount k s1 acc = Inr s2"
      by (rule addr_codec.NewAccountWithAddress_correct [OF assms(1) i a(4) refl a(2,3,1)])
    then show ?thesis using auth_step.create [OF a] by blast
  qed
  moreover have "\<forall>a acc. GetAccount s' a = Some acc \<longrightarrow> AccountI_GetAddress (addressCodec k) acc = a"
    "\<forall>a b acc acc'. GetAccount s' a = Some acc \<longrightarrow> GetAccount s' b = Some acc' \<longrightarrow>
      AccountI_GetAccountNumber acc = AccountI_GetAccountNumber acc' \<longrightarrow> a = b"
    using i unfolding auth_inv_def by blast+
  ultimately show ?thesis by simp
qed

theorem accounts_unique_witness:
  "\<exists>s1 acc s2. NewAccountWithAddress (ak ex_keeper) (ak_store ex_empty) ''alice'' = Inr (s1, acc) \<and>
     SetAccount (ak ex_keeper) s1 acc = Inr s2"
proof -
  have e: "AccountsMap (ak_store ex_empty) = []" "0 \<le> next_number (ak_store ex_empty)"
    "next_number (ak_store ex_empty) + 1 < 2 ^ 64" "GetAccount (ak_store ex_empty) ''alice'' = None" by code_simp+
  have "\<exists>s1 acc s2. NewAccountWithAddress (ak ex_keeper) (ak_store ex_empty) ''alice'' = Inr (s1, acc) \<and>
     SetAccount (ak ex_keeper) s1 acc = Inr s2 \<and> auth_step (ak ex_keeper) (ak_store ex_empty) s2"
    using accounts_unique [OF ex_auth_inv(4,3) e(1,2) rtranclp.rtrancl_refl, THEN conjunct2, THEN conjunct2,
        rule_format, of "''alice''"] e(3,4) by (simp add: MaxAddrLen_def)
  then show ?thesis by blast
qed

end
