(* ===== verification/GovTypes.thy ===== *)
theory GovTypes
  imports CoinLaws Accounts Store
begin

text \<open>
  The data of the governance module (\<^verbatim>\<open>x/gov/types/v1\<close>): parameters and their validation, proposals,
  votes, deposits, tally results and quorum-check entries. A parameter that the code keeps as
  text is a \<^typ>\<open>string\<close> here too; reading and printing such a number belongs to
  \<^verbatim>\<open>cosmossdk.io/math\<close> and is the parameter \<open>text_ops\<close>. A point in time is the number of
  nanoseconds since the Unix epoch and a duration a number of nanoseconds in the range of
  \<^verbatim>\<open>int64\<close>; a pointer that may be nil is an \<open>option\<close>. \<^verbatim>\<open>Duration.Seconds\<close> is compared as the
  exact number of nanoseconds.
\<close>

section \<open>Numbers as text\<close>

record text_ops =
  LegacyNewDecFromStr :: "string \<Rightarrow> dec option"
  LegacyDec_String :: "dec \<Rightarrow> string"
  NewIntFromString :: "string \<Rightarrow> int option"
  Int_String :: "int \<Rightarrow> string"

definition LegacyMustNewDecFromStr :: "text_ops \<Rightarrow> string \<Rightarrow> dec res" where
  "LegacyMustNewDecFromStr X s = (case LegacyNewDecFromStr X s of
     None \<Rightarrow> Inl (Panic ''invalid decimal string'') | Some d \<Rightarrow> Inr d)"

definition parseDec :: "text_ops \<Rightarrow> string \<Rightarrow> string \<Rightarrow> dec res" where
  "parseDec X label s = (case LegacyNewDecFromStr X s of None \<Rightarrow> Inl (Err label) | Some d \<Rightarrow> Inr d)"

text \<open>What the module relies on: a printed number reads back as the number it was printed from.\<close>

locale number_text =
  fixes X :: text_ops
  assumes dec_text: "dec_ok d \<Longrightarrow> LegacyNewDecFromStr X (LegacyDec_String X d) = Some d"
    and int_text: "int_ok i \<Longrightarrow> NewIntFromString X (Int_String X i) = Some i"

text \<open>Decimal notation satisfies it: a sign, the digits, and for a fraction a point and eighteen more digits.\<close>

definition digit :: "nat \<Rightarrow> char" where
  "digit n = char_of (48 + n)"

definition digit_val :: "char \<Rightarrow> nat" where
  "digit_val c = of_char c - 48"

definition is_digit :: "char \<Rightarrow> bool" where
  "is_digit c \<longleftrightarrow> 48 \<le> (of_char c :: nat) \<and> (of_char c :: nat) \<le> 57"

fun show_nat :: "nat \<Rightarrow> string" where
  "show_nat n = (if n < 10 then [digit n] else show_nat (n div 10) @ [digit (n mod 10)])"

declare show_nat.simps [simp del]

fun show_pad :: "nat \<Rightarrow> nat \<Rightarrow> string" where
  "show_pad 0 n = []"
| "show_pad (Suc k) n = show_pad k (n div 10) @ [digit (n mod 10)]"

definition digits_val :: "string \<Rightarrow> nat" where
  "digits_val s = foldl (\<lambda>a c. 10 * a + digit_val c) 0 s"

definition read_nat :: "string \<Rightarrow> nat option" where
  "read_nat s = (if s \<noteq> [] \<and> list_all is_digit s then Some (digits_val s) else None)"

definition read_udec :: "string \<Rightarrow> dec option" where
  "read_udec s = (let fp = drop 1 (dropWhile (\<lambda>c. c \<noteq> CHR ''.'') s) in
     case read_nat (takeWhile (\<lambda>c. c \<noteq> CHR ''.'') s) of None \<Rightarrow> None
     | Some n \<Rightarrow> if fp = [] \<and> CHR ''.'' \<notin> set s then Some (int n * precision)
         else if 18 < length fp then None
         else map_option (\<lambda>m. int n * precision + int m * 10 ^ (18 - length fp)) (read_nat fp))"

definition with_sign :: "(string \<Rightarrow> int option) \<Rightarrow> string \<Rightarrow> int option" where
  "with_sign f s = (if s \<noteq> [] \<and> hd s = CHR ''-'' then map_option uminus (f (tl s)) else f s)"

definition sign_text :: "int \<Rightarrow> string" where
  "sign_text i = (if i < 0 then ''-'' else [])"

definition ex_text :: text_ops where
  "ex_text = \<lparr>LegacyNewDecFromStr = with_sign read_udec,
     LegacyDec_String = (\<lambda>d. sign_text d @ show_nat (nat \<bar>d\<bar> div 10 ^ 18) @ ''.'' @ show_pad 18 (nat \<bar>d\<bar> mod 10 ^ 18)),
     NewIntFromString = with_sign (\<lambda>s. map_option int (read_nat s)),
     Int_String = (\<lambda>i. sign_text i @ show_nat (nat \<bar>i\<bar>))\<rparr>"

lemma digit_props: "n < 10 \<Longrightarrow> digit_val (digit n) = n \<and> is_digit (digit n)"
  by (simp add: digit_val_def digit_def is_digit_def of_char_of)

lemma digits_val_snoc: "digits_val (s @ [c]) = 10 * digits_val s + digit_val c"
  by (simp add: digits_val_def)

lemma show_nat_props: "show_nat n \<noteq> [] \<and> list_all is_digit (show_nat n) \<and> digits_val (show_nat n) = n"
proof (induction n rule: show_nat.induct)
  case (1 n)
  then show ?case
    using digit_props [of n] digit_props [of "n mod 10"]
    by (subst (1 2 3) show_nat.simps) (auto simp: digits_val_snoc, simp add: digits_val_def)
qed

lemma show_pad_props: "length (show_pad k n) = k \<and> list_all is_digit (show_pad k n) \<and> digits_val (show_pad k n) = n mod 10 ^ k"
proof (induction k arbitrary: n)
  case (Suc k)
  then show ?case
    using digit_props [of "n mod 10"] by (auto simp: digits_val_snoc mod_mult2_eq)
qed (simp add: digits_val_def)

lemma digits_no_mark: "list_all is_digit s \<Longrightarrow> CHR ''.'' \<notin> set s \<and> CHR ''-'' \<notin> set s"
  by (induction s) (auto simp: is_digit_def)

lemma read_nat_show: "read_nat (show_nat n) = Some n"
  by (simp add: read_nat_def show_nat_props)

lemma with_sign_text:
  assumes "s \<noteq> []" and "hd s \<noteq> CHR ''-''" and "f s = Some \<bar>i\<bar>"
  shows "with_sign f (sign_text i @ s) = Some i"
  using assms by (auto simp: with_sign_def sign_text_def)

lemma show_nat_hd: "hd (show_nat n) \<noteq> CHR ''-''"
  using show_nat_props [of n] digits_no_mark [of "show_nat n"] hd_in_set by metis

lemma read_udec_show:
  assumes "0 \<le> d"
  shows "read_udec (show_nat (nat d div 10 ^ 18) @ ''.'' @ show_pad 18 (nat d mod 10 ^ 18)) = Some d"
proof -
  let ?i = "show_nat (nat d div 10 ^ 18)" and ?f = "show_pad 18 (nat d mod 10 ^ 18)"
  have i: "\<forall>c \<in> set ?i. c \<noteq> CHR ''.''"
    using show_nat_props digits_no_mark by metis
  have f: "length ?f = 18" "read_nat ?f = Some (nat d mod 10 ^ 18)"
    using show_pad_props [of 18 "nat d mod 10 ^ 18"] by (auto simp: read_nat_def)
  have t: "takeWhile (\<lambda>c. c \<noteq> CHR ''.'') (?i @ ''.'' @ ?f) = ?i" "dropWhile (\<lambda>c. c \<noteq> CHR ''.'') (?i @ ''.'' @ ?f) = ''.'' @ ?f"
    using i by (simp_all add: takeWhile_append2 dropWhile_append2)
  have "int (nat d div 10 ^ 18) * precision + int (nat d mod 10 ^ 18) = d"
    using assms by (simp add: precision_def zdiv_int zmod_int)
  with f show ?thesis
    unfolding read_udec_def t by (simp add: read_nat_show del: show_pad.simps)
qed

interpretation ext: number_text ex_text
proof
  fix d :: dec and i :: int
  show "LegacyNewDecFromStr ex_text (LegacyDec_String ex_text d) = Some d"
    using read_udec_show [of "\<bar>d\<bar>"] show_nat_props show_nat_hd
    by (simp add: ex_text_def with_sign_text hd_append)
  show "NewIntFromString ex_text (Int_String ex_text i) = Some i"
    using show_nat_props show_nat_hd by (simp add: ex_text_def with_sign_text read_nat_show)
qed

lemmas ex_text_laws = ext.number_text_axioms

section \<open>Time\<close>

type_synonym time = int
type_synonym duration = int

definition Nanosecond :: duration where "Nanosecond = 1"

definition Hour :: duration where "Hour = 3600 * 10 ^ 9"

text \<open>\<^verbatim>\<open>Time.Add\<close> is exact; \<^verbatim>\<open>Time.Sub\<close> saturates at the ends of \<^verbatim>\<open>int64\<close>. The zero \<^verbatim>\<open>Time\<close> is the first of January of year one.\<close>

definition Time_Add :: "time \<Rightarrow> duration \<Rightarrow> time" where
  "Time_Add t d = t + d"

definition Time_Sub :: "time \<Rightarrow> time \<Rightarrow> duration" where
  "Time_Sub t u = (let d = t - u in if d < - (2 ^ 63) then - (2 ^ 63) else if 2 ^ 63 \<le> d then 2 ^ 63 - 1 else d)"

definition Time_zero :: time where
  "Time_zero = - 62135596800 * 10 ^ 9"

definition Time_Unix :: "time \<Rightarrow> int" where
  "Time_Unix t = t div 10 ^ 9"

lemma Time_Sub_range: "is_int64 (Time_Sub t u)"
  by (auto simp: Time_Sub_def Let_def)

lemma Time_Sub_exact: "is_int64 (t - u) \<Longrightarrow> Time_Sub t u = t - u"
  by (simp add: Time_Sub_def)

section \<open>Parameters\<close>

record min_deposit_throttler =
  FloorValue :: coins
  UpdatePeriod :: "duration option"
  TargetActiveProposals :: int
  IncreaseRatio :: string
  DecreaseRatio :: string
  DecreaseSensitivityTargetDistance :: int

text \<open>\<^verbatim>\<open>MinInitialDepositThrottler\<close> has the same fields; its target is called \<^verbatim>\<open>TargetProposals\<close>.\<close>

record min_initial_deposit_throttler =
  init_FloorValue :: coins
  init_UpdatePeriod :: "duration option"
  TargetProposals :: int
  init_IncreaseRatio :: string
  init_DecreaseRatio :: string
  init_DecreaseSensitivityTargetDistance :: int

record quorum_range =
  QMax :: string
  QMin :: string

record gov_params =
  MinDeposit :: coins
  MaxDepositPeriod :: "duration option"
  VotingPeriod :: "duration option"
  Quorum :: string
  Threshold :: string
  MinInitialDepositRatio :: string
  BurnVoteQuorum :: bool
  BurnProposalDepositPrevote :: bool
  MinDepositRatio :: string
  ConstitutionAmendmentQuorum :: string
  ConstitutionAmendmentThreshold :: string
  LawQuorum :: string
  LawThreshold :: string
  QuorumTimeout :: "duration option"
  MaxVotingPeriodExtension :: "duration option"
  QuorumCheckCount :: int
  MinDepositThrottler :: "min_deposit_throttler option"
  MinInitialDepositThrottler :: "min_initial_deposit_throttler option"
  BurnDepositNoThreshold :: string
  QuorumRange :: "quorum_range option"
  ConstitutionAmendmentQuorumRange :: "quorum_range option"
  LawQuorumRange :: "quorum_range option"
  GovernorStatusChangePeriod :: "duration option"
  MinGovernorSelfDelegation :: string

definition MaxDecreaseSensitivityTargetDistanceDepositThrottler :: int where
  "MaxDecreaseSensitivityTargetDistanceDepositThrottler = 100"

definition MaxQuorumCheckCount :: int where
  "MaxQuorumCheckCount = 1000"

definition MaxDepositThrottlerFloorAmount :: int where
  "MaxDepositThrottlerFloorAmount = 10 ^ 30"

definition minVotingPeriod :: duration where
  "minVotingPeriod = 504 * Hour"

definition deref :: "'a option \<Rightarrow> 'a res" where
  "deref x = (case x of None \<Rightarrow> Inl (Panic ''nil pointer dereference'') | Some v \<Rightarrow> Inr v)"

definition not_nil :: "string \<Rightarrow> 'a option \<Rightarrow> 'a res" where
  "not_nil label x = (case x of None \<Rightarrow> Inl (Err label) | Some v \<Rightarrow> Inr v)"

lemma deref_simps [simp]: "deref (Some v) = Inr v" "deref None = Inl (Panic ''nil pointer dereference'')"
  "deref x = Inr v \<longleftrightarrow> x = Some v"
  by (simp_all add: deref_def split: option.splits)

lemma not_nil_simps [simp]: "not_nil l (Some v) = Inr v" "not_nil l None = Inl (Err l)"
  "not_nil l x = Inr v \<longleftrightarrow> x = Some v"
  by (simp_all add: not_nil_def split: option.splits)

lemma parseDec_Inr [simp]: "parseDec X l s = Inr d \<longleftrightarrow> LegacyNewDecFromStr X s = Some d"
  by (simp add: parseDec_def split: option.splits)

lemma LegacyMustNewDecFromStr_Inr [simp]: "LegacyMustNewDecFromStr X s = Inr d \<longleftrightarrow> LegacyNewDecFromStr X s = Some d"
  by (simp add: LegacyMustNewDecFromStr_def split: option.splits)

definition validateDepositThrottlerFloor :: "string \<Rightarrow> coins \<Rightarrow> unit res" where
  "validateDepositThrottlerFloor label floor =
     (if floor = [] \<or> \<not> Coins_IsValid floor then Inl (Err (''invalid '' @ label))
      else if \<exists>c \<in> set floor. Amount c > MaxDepositThrottlerFloorAmount
        then Inl (Err (label @ '' amount too large'')) else Inr ())"

text \<open>
  The checks of one quorum bound. The loop of the source runs over a Go map, so which of several
  bad bounds is reported depends on the iteration order; whether an error is returned does not. The
  order of the map literal is used.
\<close>

definition validQuorumBound :: "text_ops \<Rightarrow> string \<Rightarrow> string \<Rightarrow> unit res" where
  "validQuorumBound X label q = bindR (parseDec X (''invalid '' @ label) q) (\<lambda>quorum.
     if quorum < 0 then Inl (Err (label @ '' must be positive''))
     else if quorum > precision then Inl (Err (label @ '' too large'')) else Inr ())"

definition validQuorumOrder :: "text_ops \<Rightarrow> string \<Rightarrow> quorum_range \<Rightarrow> unit res" where
  "validQuorumOrder X label r = bindR (LegacyMustNewDecFromStr X (QMax r)) (\<lambda>mx.
     bindR (LegacyMustNewDecFromStr X (QMin r)) (\<lambda>mn.
     guardR (\<not> mx < mn) (Err (label @ '' range max must be greater than or equal to min''))))"

definition validThreshold :: "text_ops \<Rightarrow> string \<Rightarrow> string \<Rightarrow> dec res" where
  "validThreshold X label s = bindR (parseDec X (''invalid '' @ label @ '' string'') s) (\<lambda>threshold.
     if \<not> threshold > 0 then Inl (Err (label @ '' must be positive''))
     else if threshold > precision then Inl (Err (label @ '' too large'')) else Inr threshold)"

definition validRatio :: "text_ops \<Rightarrow> string \<Rightarrow> string \<Rightarrow> unit res" where
  "validRatio X label s = bindR (parseDec X (''invalid '' @ label) s) (\<lambda>ratio.
     if \<not> ratio > 0 then Inl (Err (label @ '' must be positive''))
     else if ratio \<ge> precision then Inl (Err (label @ '' too large'')) else Inr ())"

text \<open>\<^verbatim>\<open>ValidateBasic\<close> in four parts: quorums and thresholds, periods, the two throttlers, the rest.\<close>

definition validate_thresholds :: "text_ops \<Rightarrow> gov_params \<Rightarrow> (dec \<times> dec \<times> dec) res" where
  "validate_thresholds X p =
     bindR (deref (QuorumRange p)) (\<lambda>qr. bindR (deref (ConstitutionAmendmentQuorumRange p)) (\<lambda>cr.
     bindR (deref (LawQuorumRange p)) (\<lambda>lr.
     bindR (foldR (\<lambda>(label, q) _. validQuorumBound X label q)
       [(''quorumRange.min'', QMin qr), (''quorumRange.max'', QMax qr),
        (''constitutionAmendmentQuorumRange.min'', QMin cr), (''constitutionAmendmentQuorumRange.max'', QMax cr),
        (''lawQuorumRange.min'', QMin lr), (''lawQuorumRange.max'', QMax lr)] ()) (\<lambda>_.
     bindR (validQuorumOrder X ''quorum'' qr) (\<lambda>_.
     bindR (validQuorumOrder X ''constitution amendment quorum'' cr) (\<lambda>_.
     bindR (validQuorumOrder X ''law quorum'' lr) (\<lambda>_.
     bindR (validThreshold X ''vote threshold'' (Threshold p)) (\<lambda>threshold.
     bindR (validThreshold X ''constitution amendment threshold'' (ConstitutionAmendmentThreshold p)) (\<lambda>amendmentThreshold.
     bindR (guardR (\<not> amendmentThreshold < threshold)
       (Err ''constitution amendment threshold must be greater than or equal to governance threshold'')) (\<lambda>_.
     bindR (validThreshold X ''law threshold'' (LawThreshold p)) (\<lambda>lawThreshold.
     bindR (guardR (\<not> lawThreshold < threshold)
       (Err ''law threshold must be greater than or equal to governance threshold'')) (\<lambda>_.
     bindR (guardR (\<not> lawThreshold > amendmentThreshold)
       (Err ''law threshold must be less than or equal to constitution amendment threshold'')) (\<lambda>_.
     Inr (threshold, amendmentThreshold, lawThreshold))))))))))))))"

definition validate_periods :: "text_ops \<Rightarrow> gov_params \<Rightarrow> duration res" where
  "validate_periods X p =
     bindR (not_nil ''voting period must not be nil'' (VotingPeriod p)) (\<lambda>votingPeriod.
     bindR (guardR (\<not> votingPeriod < minVotingPeriod) (Err ''voting period must be at least'')) (\<lambda>_.
     bindR (guardR (MinInitialDepositRatio p = []) (Err ''manually setting min initial deposit ratio is deprecated'')) (\<lambda>_.
     bindR (parseDec X ''invalid minimum deposit ratio of proposal'' (MinDepositRatio p)) (\<lambda>minDepositRatio.
     bindR (guardR (\<not> minDepositRatio < 0) (Err ''minimum deposit ratio of proposal must be positive'')) (\<lambda>_.
     bindR (guardR (\<not> minDepositRatio > precision) (Err ''minimum deposit ratio of proposal is too large'')) (\<lambda>_.
     bindR (not_nil ''quorum timeout must not be nil'' (QuorumTimeout p)) (\<lambda>quorumTimeout.
     bindR (guardR (\<not> quorumTimeout < 0) (Err ''quorum timeout must be 0 or greater'')) (\<lambda>_.
     bindR (guardR (\<not> quorumTimeout \<ge> votingPeriod) (Err ''quorum timeout must be strictly less than the voting period'')) (\<lambda>_.
     bindR (not_nil ''max voting period extension must not be nil'' (MaxVotingPeriodExtension p)) (\<lambda>maxExtension.
     bindR (guardR (\<not> maxExtension < wrap64 (votingPeriod - quorumTimeout)) (Err ''max voting period extension'')) (\<lambda>_.
     bindR (guardR (\<not> QuorumCheckCount p > MaxQuorumCheckCount) (Err ''quorum check count is too large'')) (\<lambda>_.
     bindR (guardR (\<not> (QuorumCheckCount p > 0 \<and> wrap64 (votingPeriod - quorumTimeout) sdiv QuorumCheckCount p \<le> 0))
       (Err ''quorum check interval must be positive'')) (\<lambda>_.
     Inr votingPeriod)))))))))))))"

definition validate_throttler ::
  "text_ops \<Rightarrow> string \<Rightarrow> duration \<Rightarrow> coins \<Rightarrow> duration option \<Rightarrow> int \<Rightarrow> int \<Rightarrow> string \<Rightarrow> string \<Rightarrow> unit res" where
  "validate_throttler X label votingPeriod floor updatePeriod target distance increase decrease =
     bindR (validateDepositThrottlerFloor (label @ '' floor'') floor) (\<lambda>_.
     bindR (not_nil (label @ '' update period must not be nil'') updatePeriod) (\<lambda>period.
     bindR (guardR (\<not> period \<le> 0) (Err (label @ '' update period must be positive''))) (\<lambda>_.
     bindR (guardR (\<not> period > votingPeriod)
       (Err (label @ '' update period must be less than or equal to the voting period''))) (\<lambda>_.
     bindR (guardR (\<not> target \<le> 0) (Err (label @ '' target proposals must be positive''))) (\<lambda>_.
     bindR (guardR (distance \<noteq> 0) (Err (label @ '' sensitivity target distance must be positive''))) (\<lambda>_.
     bindR (guardR (\<not> distance > MaxDecreaseSensitivityTargetDistanceDepositThrottler)
       (Err (label @ '' sensitivity target distance must be less than or equal to''))) (\<lambda>_.
     bindR (validRatio X (label @ '' increase ratio'') increase) (\<lambda>_.
     validRatio X (label @ '' decrease ratio'') decrease))))))))"

definition Gov_Params_ValidateBasic :: "math_ops \<Rightarrow> text_ops \<Rightarrow> gov_params \<Rightarrow> unit res" where
  "Gov_Params_ValidateBasic M X p =
     bindR (guardR (MinDeposit p = []) (Err ''manually setting min deposit is deprecated'')) (\<lambda>_.
     bindR (guardR (Quorum p = []) (Err ''manually setting quorum is deprecated'')) (\<lambda>_.
     bindR (guardR (ConstitutionAmendmentQuorum p = []) (Err ''manually setting constitutionAmendmentQuorum is deprecated'')) (\<lambda>_.
     bindR (guardR (LawQuorum p = []) (Err ''manually setting lawQuorum is deprecated'')) (\<lambda>_.
     bindR (not_nil ''maximum deposit period must not be nil'' (MaxDepositPeriod p)) (\<lambda>maxDepositPeriod.
     bindR (guardR (\<not> maxDepositPeriod \<le> 0) (Err ''maximum deposit period must be positive'')) (\<lambda>_.
     bindR (validate_thresholds X p) (\<lambda>(threshold, amendmentThreshold, lawThreshold).
     bindR (validate_periods X p) (\<lambda>votingPeriod.
     bindR (not_nil ''min deposit throttler must not be nil'' (MinDepositThrottler p)) (\<lambda>t.
     bindR (validate_throttler X ''minimum deposit'' votingPeriod (FloorValue t) (UpdatePeriod t)
       (TargetActiveProposals t) (DecreaseSensitivityTargetDistance t) (IncreaseRatio t) (DecreaseRatio t)) (\<lambda>_.
     bindR (not_nil ''min initial deposit throttler must not be nil'' (MinInitialDepositThrottler p)) (\<lambda>u.
     bindR (validate_throttler X ''minimum initial deposit'' votingPeriod (init_FloorValue u) (init_UpdatePeriod u)
       (TargetProposals u) (init_DecreaseSensitivityTargetDistance u) (init_IncreaseRatio u) (init_DecreaseRatio u)) (\<lambda>_.
     bindR (parseDec X ''invalid burnDepositNoThreshold string'' (BurnDepositNoThreshold p)) (\<lambda>burnDepositNoThreshold.
     bindR (dec_Sub M precision amendmentThreshold) (\<lambda>noAmendment.
     bindR (guardR (\<not> burnDepositNoThreshold < noAmendment) (Err ''burnDepositNoThreshold cannot be lower than 1-amendmentThreshold'')) (\<lambda>_.
     bindR (dec_Sub M precision lawThreshold) (\<lambda>noLaw.
     bindR (guardR (\<not> burnDepositNoThreshold < noLaw) (Err ''burnDepositNoThreshold cannot be lower than 1-lawThreshold'')) (\<lambda>_.
     bindR (dec_Sub M precision threshold) (\<lambda>noThreshold.
     bindR (guardR (\<not> burnDepositNoThreshold < noThreshold) (Err ''burnDepositNoThreshold cannot be lower than 1-threshold'')) (\<lambda>_.
     bindR (guardR (\<not> burnDepositNoThreshold > precision) (Err ''burnDepositNoThreshold too large'')) (\<lambda>_.
     bindR (not_nil ''governor status change period must not be nil'' (GovernorStatusChangePeriod p)) (\<lambda>changePeriod.
     bindR (guardR (\<not> changePeriod \<le> 0) (Err ''governor status change period must be positive'')) (\<lambda>_.
     bindR (not_nil ''invalid minimum governor self delegation'' (NewIntFromString X (MinGovernorSelfDelegation p))) (\<lambda>minSelf.
     guardR (\<not> minSelf < 0) (Err ''minimum governor self delegation must be positive''))))))))))))))))))))))))"

text \<open>The default parameters.\<close>

definition DefaultVotingPeriod :: duration where "DefaultVotingPeriod = Hour * 24 * 21"

definition DefaultDepositPeriod :: duration where "DefaultDepositPeriod = Hour * 24 * 14"

definition DefaultGovernorStatusChangePeriod :: duration where "DefaultGovernorStatusChangePeriod = Hour * 24 * 28"

definition DefaultQuorumTimeout :: duration where "DefaultQuorumTimeout = DefaultVotingPeriod - Hour * 24 * 1"

definition DefaultMaxVotingPeriodExtension :: duration where
  "DefaultMaxVotingPeriodExtension = DefaultVotingPeriod - DefaultQuorumTimeout"

definition DefaultMinDepositTokens :: int where "DefaultMinDepositTokens = 10000000"

definition LegacyNewDecWithPrec :: "int \<Rightarrow> nat \<Rightarrow> dec" where
  "LegacyNewDecWithPrec i prec = i * 10 ^ (18 - prec)"

definition DefaultBondDenom :: string where "DefaultBondDenom = ''stake''"

definition GetDefaultMinDepositFloor :: "coins res" where
  "GetDefaultMinDepositFloor = bindR (NewCoin DefaultBondDenom DefaultMinDepositTokens) (\<lambda>c. NewCoins [c])"

definition GetDefaultMinInitialDepositFloor :: "math_ops \<Rightarrow> coins res" where
  "GetDefaultMinInitialDepositFloor M =
     bindR (dec_MulInt M (LegacyNewDecWithPrec 1 2) DefaultMinDepositTokens) (\<lambda>d.
     bindR (dec_TruncateInt M d) (\<lambda>amount. bindR (NewCoin DefaultBondDenom amount) (\<lambda>c. NewCoins [c])))"

definition NewParams ::
  "duration \<Rightarrow> duration \<Rightarrow> string \<Rightarrow> string \<Rightarrow> string \<Rightarrow> bool \<Rightarrow> bool \<Rightarrow> string \<Rightarrow>
   duration \<Rightarrow> duration \<Rightarrow> int \<Rightarrow> coins \<Rightarrow> duration \<Rightarrow> int \<Rightarrow> string \<Rightarrow> string \<Rightarrow> int \<Rightarrow>
   coins \<Rightarrow> duration \<Rightarrow> int \<Rightarrow> string \<Rightarrow> string \<Rightarrow> int \<Rightarrow> string \<Rightarrow> string \<Rightarrow> string \<Rightarrow>
   string \<Rightarrow> string \<Rightarrow> string \<Rightarrow> string \<Rightarrow> duration \<Rightarrow> string \<Rightarrow> gov_params" where
  "NewParams maxDepositPeriod votingPeriod threshold constitutionAmendmentThreshold lawThreshold
     burnProposalDeposit burnVoteQuorum minDepositRatio
     quorumTimeout maxVotingPeriodExtension quorumCheckCount
     minDepositFloor minDepositUpdatePeriod minDepositDistance minDepositIncreaseRatio minDepositDecreaseRatio
     targetActiveProposals
     minInitialDepositFloor minInitialDepositUpdatePeriod minInitialDepositDistance
     minInitialDepositIncreaseRatio minInitialDepositDecreaseRatio targetProposalsInDepositPeriod
     burnDepositNoThreshold maxQuorum minQuorum maxConstitutionAmendmentQuorum minConstitutionAmendmentQuorum
     maxLawQuorum minLawQuorum governorStatusChangePeriod minGovernorSelfDelegation =
   \<lparr>MinDeposit = [], MaxDepositPeriod = Some maxDepositPeriod, VotingPeriod = Some votingPeriod,
    Quorum = [], Threshold = threshold, MinInitialDepositRatio = [],
    BurnVoteQuorum = burnVoteQuorum, BurnProposalDepositPrevote = burnProposalDeposit,
    MinDepositRatio = minDepositRatio,
    ConstitutionAmendmentQuorum = [], ConstitutionAmendmentThreshold = constitutionAmendmentThreshold,
    LawQuorum = [], LawThreshold = lawThreshold,
    QuorumTimeout = Some quorumTimeout, MaxVotingPeriodExtension = Some maxVotingPeriodExtension,
    QuorumCheckCount = quorumCheckCount,
    MinDepositThrottler = Some \<lparr>FloorValue = minDepositFloor, UpdatePeriod = Some minDepositUpdatePeriod,
      TargetActiveProposals = targetActiveProposals, IncreaseRatio = minDepositIncreaseRatio,
      DecreaseRatio = minDepositDecreaseRatio, DecreaseSensitivityTargetDistance = minDepositDistance\<rparr>,
    MinInitialDepositThrottler = Some \<lparr>init_FloorValue = minInitialDepositFloor,
      init_UpdatePeriod = Some minInitialDepositUpdatePeriod,
      TargetProposals = targetProposalsInDepositPeriod, init_IncreaseRatio = minInitialDepositIncreaseRatio,
      init_DecreaseRatio = minInitialDepositDecreaseRatio,
      init_DecreaseSensitivityTargetDistance = minInitialDepositDistance\<rparr>,
    BurnDepositNoThreshold = burnDepositNoThreshold,
    QuorumRange = Some \<lparr>QMax = maxQuorum, QMin = minQuorum\<rparr>,
    ConstitutionAmendmentQuorumRange =
      Some \<lparr>QMax = maxConstitutionAmendmentQuorum, QMin = minConstitutionAmendmentQuorum\<rparr>,
    LawQuorumRange = Some \<lparr>QMax = maxLawQuorum, QMin = minLawQuorum\<rparr>,
    GovernorStatusChangePeriod = Some governorStatusChangePeriod,
    MinGovernorSelfDelegation = minGovernorSelfDelegation\<rparr>"

definition Gov_DefaultParams :: "math_ops \<Rightarrow> text_ops \<Rightarrow> gov_params res" where
  "Gov_DefaultParams M X = (let S = LegacyDec_String X; D = LegacyNewDecWithPrec in
     bindR GetDefaultMinDepositFloor (\<lambda>minDepositFloor.
     bindR (GetDefaultMinInitialDepositFloor M) (\<lambda>minInitialDepositFloor.
     Inr (NewParams DefaultDepositPeriod DefaultVotingPeriod
       (S (D 667 3)) (S (D 9 1)) (S (D 9 1)) False False (S (D 1 2))
       DefaultQuorumTimeout DefaultMaxVotingPeriodExtension 0
       minDepositFloor (Hour * 24 * 7) 2 (S (D 5 2)) (S (D 25 3)) 2
       minInitialDepositFloor (Hour * 24) 2 (S (D 1 2)) (S (D 5 3)) 5
       (S (D 80 2)) (S (D 50 2)) (S (D 10 2)) (S (D 50 2)) (S (D 10 2)) (S (D 50 2)) (S (D 10 2))
       DefaultGovernorStatusChangePeriod (Int_String X 1000000000)))))"

section \<open>Proposals, votes and deposits\<close>

text \<open>A packed message (\<^verbatim>\<open>Any\<close>) is opaque: a type URL with its encoded bytes.\<close>

type_synonym any = string

datatype proposal_status = StatusNil | StatusDepositPeriod | StatusVotingPeriod | StatusPassed
  | StatusRejected | StatusFailed | StatusVetoed

fun ValidProposalStatus :: "proposal_status \<Rightarrow> bool" where
  "ValidProposalStatus StatusNil = False"
| "ValidProposalStatus _ = True"

text \<open>A vote option is an \<^verbatim>\<open>int32\<close> of the encoding; the numbers without a name are \<open>OptionOther\<close>.\<close>

datatype vote_option = OptionEmpty | OptionYes | OptionAbstain | OptionNo | OptionOther int

fun ValidVoteOption :: "vote_option \<Rightarrow> bool" where
  "ValidVoteOption OptionYes = True"
| "ValidVoteOption OptionAbstain = True"
| "ValidVoteOption OptionNo = True"
| "ValidVoteOption _ = False"

record weighted_vote_option =
  Option :: vote_option
  Weight :: string

type_synonym weighted_vote_options = "weighted_vote_option list"

record vote =
  vote_ProposalId :: int
  Voter :: string
  Options :: weighted_vote_options
  vote_Metadata :: string

record deposit =
  dep_ProposalId :: int
  Depositor :: string
  dep_Amount :: coins

record tally_result =
  YesCount :: string
  AbstainCount :: string
  NoCount :: string

record proposal =
  Id :: int
  Messages :: "any list"
  Status :: proposal_status
  FinalTallyResult :: tally_result
  SubmitTime :: "time option"
  DepositEndTime :: "time option"
  TotalDeposit :: coins
  VotingStartTime :: "time option"
  VotingEndTime :: "time option"
  Metadata :: string
  Title :: string
  Summary :: string
  Proposer :: string
  FailedReason :: string
  Endorsed :: bool
  Annotation :: string
  TimesVotingPeriodExtended :: int

record quorum_check_queue_entry =
  QuorumTimeoutTime :: time
  entry_QuorumCheckCount :: int
  QuorumChecksDone :: int

record last_min_deposit =
  Value :: coins
  LTime :: "time option"

definition NewVote :: "addr_ops \<Rightarrow> int \<Rightarrow> string \<Rightarrow> weighted_vote_options \<Rightarrow> string \<Rightarrow> vote res" where
  "NewVote A proposalID voter options metadata = bindR (AccAddress_String A voter) (\<lambda>str.
     Inr \<lparr>vote_ProposalId = proposalID, Voter = str, Options = options, vote_Metadata = metadata\<rparr>)"

definition NewDeposit :: "addr_ops \<Rightarrow> int \<Rightarrow> string \<Rightarrow> coins \<Rightarrow> deposit res" where
  "NewDeposit A proposalID depositor amount = bindR (AccAddress_String A depositor) (\<lambda>str.
     Inr \<lparr>dep_ProposalId = proposalID, Depositor = str, dep_Amount = amount\<rparr>)"

definition ValidWeightedVoteOption :: "text_ops \<Rightarrow> weighted_vote_option \<Rightarrow> bool" where
  "ValidWeightedVoteOption X w = (case LegacyNewDecFromStr X (Weight w) of None \<Rightarrow> False
     | Some weight \<Rightarrow> if \<not> weight > 0 \<or> weight > precision then False else ValidVoteOption (Option w))"

definition WeightedVoteOption_IsValid :: "text_ops \<Rightarrow> weighted_vote_option \<Rightarrow> bool" where
  "WeightedVoteOption_IsValid X w = (case LegacyNewDecFromStr X (Weight w) of None \<Rightarrow> False
     | Some weight \<Rightarrow> if \<not> weight > 0 \<or> weight > precision then False else ValidVoteOption (Option w))"

definition NewWeightedVoteOption :: "text_ops \<Rightarrow> vote_option \<Rightarrow> dec \<Rightarrow> weighted_vote_option" where
  "NewWeightedVoteOption X opt weight = \<lparr>Option = opt, Weight = LegacyDec_String X weight\<rparr>"

definition NewNonSplitVoteOption :: "text_ops \<Rightarrow> vote_option \<Rightarrow> weighted_vote_options" where
  "NewNonSplitVoteOption X opt = [\<lparr>Option = opt, Weight = LegacyDec_String X precision\<rparr>]"

text \<open>
  The power of an option. A weight that does not parse is ignored by the source and leaves a nil
  \<^verbatim>\<open>LegacyDec\<close>, whose use in \<^verbatim>\<open>Mul\<close> panics.
\<close>

definition WeightedVoteOption_Power :: "math_ops \<Rightarrow> text_ops \<Rightarrow> weighted_vote_option \<Rightarrow> dec \<Rightarrow> dec res" where
  "WeightedVoteOption_Power M X w totalPower =
     (if Weight w = LegacyDec_String X precision then Inr totalPower
      else case LegacyNewDecFromStr X (Weight w) of None \<Rightarrow> Inl (Panic ''nil pointer dereference'')
        | Some weight \<Rightarrow> dec_Mul M totalPower weight)"

definition NewTallyResult :: "text_ops \<Rightarrow> int \<Rightarrow> int \<Rightarrow> int \<Rightarrow> tally_result" where
  "NewTallyResult X yes abstain no = \<lparr>YesCount = Int_String X yes, AbstainCount = Int_String X abstain, NoCount = Int_String X no\<rparr>"

definition EmptyTallyResult :: "text_ops \<Rightarrow> tally_result" where
  "EmptyTallyResult X = NewTallyResult X 0 0 0"

definition NewQuorumCheckQueueEntry :: "time \<Rightarrow> int \<Rightarrow> quorum_check_queue_entry" where
  "NewQuorumCheckQueueEntry quorumTimeoutTime quorumCheckCount =
     \<lparr>QuorumTimeoutTime = quorumTimeoutTime, entry_QuorumCheckCount = quorumCheckCount, QuorumChecksDone = 0\<rparr>"

definition NewProposal ::
  "addr_ops \<Rightarrow> text_ops \<Rightarrow> any list \<Rightarrow> int \<Rightarrow> time \<Rightarrow> time \<Rightarrow> string \<Rightarrow> string \<Rightarrow> string \<Rightarrow> string \<Rightarrow> proposal res" where
  "NewProposal A X messages i submitTime depositEndTime metadata title summary proposer =
     bindR (AccAddress_String A proposer) (\<lambda>str. Inr
       \<lparr>Id = i, Messages = messages, Status = StatusDepositPeriod, FinalTallyResult = EmptyTallyResult X,
        SubmitTime = Some submitTime, DepositEndTime = Some depositEndTime, TotalDeposit = [],
        VotingStartTime = None, VotingEndTime = None, Metadata = metadata, Title = title, Summary = summary,
        Proposer = str, FailedReason = [], Endorsed = False, Annotation = [], TimesVotingPeriodExtended = 0\<rparr>)"

text \<open>The kinds of a proposal, a bit mask in the source.\<close>

record proposal_kinds =
  HasKindAny :: bool
  HasKindLaw :: bool
  HasKindConstitutionAmendment :: bool

section \<open>Governors\<close>

datatype governor_status = Unspecified | Active | Inactive

definition GovernorStatus_IsValid :: "governor_status \<Rightarrow> bool" where
  "GovernorStatus_IsValid s \<longleftrightarrow> s = Active \<or> s = Inactive"

record governor_description =
  Moniker :: string
  Identity :: string
  Website :: string
  SecurityContact :: string
  Details :: string

record governor =
  gvn_Address :: string
  gvn_Status :: governor_status
  gvn_Description :: governor_description
  LastStatusChangeTime :: "time option"

record governor_val_shares =
  gvs_Governor :: string
  gvs_Validator :: string
  Shares :: dec

record governance_delegation =
  gd_Delegator :: string
  gd_Governor :: string

definition NewGovernor :: "string \<Rightarrow> governor_description \<Rightarrow> time \<Rightarrow> governor" where
  "NewGovernor address description creationTime =
     \<lparr>gvn_Address = address, gvn_Status = Active, gvn_Description = description, LastStatusChangeTime = Some creationTime\<rparr>"

definition Governor_IsActive :: "governor \<Rightarrow> bool" where
  "Governor_IsActive g \<longleftrightarrow> gvn_Status g = Active"

definition GovernorDescription_EnsureLength :: "governor_description \<Rightarrow> governor_description res" where
  "GovernorDescription_EnsureLength d =
     (if length (Moniker d) > 70 then Inl (Err ''invalid moniker length'')
      else if length (Identity d) > 3000 then Inl (Err ''invalid identity length'')
      else if length (Website d) > 140 then Inl (Err ''invalid website length'')
      else if length (SecurityContact d) > 140 then Inl (Err ''invalid security contact length'')
      else if length (Details d) > 280 then Inl (Err ''invalid details length'') else Inr d)"

definition DoNotModifyDesc :: string where "DoNotModifyDesc = ''[do-not-modify]''"

definition keep_field :: "string \<Rightarrow> string \<Rightarrow> string" where
  "keep_field old new = (if new = DoNotModifyDesc then old else new)"

definition GovernorDescription_UpdateDescription ::
  "governor_description \<Rightarrow> governor_description \<Rightarrow> governor_description res" where
  "GovernorDescription_UpdateDescription d d2 = GovernorDescription_EnsureLength
     \<lparr>Moniker = keep_field (Moniker d) (Moniker d2), Identity = keep_field (Identity d) (Identity d2),
      Website = keep_field (Website d) (Website d2), SecurityContact = keep_field (SecurityContact d) (SecurityContact d2),
      Details = keep_field (Details d) (Details d2)\<rparr>"

end
