(* ===== verification/GovKeeper.thy ===== *)
theory GovKeeper
  imports GovTypes Bank
begin

text \<open>
  The state of the governance keeper (\<^verbatim>\<open>x/gov/keeper/keeper.go\<close>) and the two mechanisms that adapt it
  to activity: the deposit throttlers (\<^verbatim>\<open>min_deposit.go\<close>, \<^verbatim>\<open>min_initial_deposit.go\<close> and
  \<^verbatim>\<open>GetNewMinDeposit\<close> of \<^verbatim>\<open>types/v1/min_deposit.go\<close>) and the participation averages with the quorums computed from
  them (\<^verbatim>\<open>participation_ema.go\<close>).

  The collections of the keeper are stores; an item that may be unset is an \<open>option\<close>. The staking
  module is seen through the interface \<^verbatim>\<open>StakingKeeper\<close> of \<^verbatim>\<open>x/gov/types/expected_keepers.go\<close>, the
  record \<open>staking_view\<close>. The message codec, the message router, the hooks, and the reader of proposal
  metadata are fields of the keeper.
\<close>

section \<open>The staking interface\<close>

record validator =
  val_Operator :: string
  BondedTokens :: int
  DelegatorShares :: dec

record delegation =
  del_Validator :: string
  del_Shares :: dec

record staking_view =
  TotalBondedTokens :: "int res"
  BondedValidatorsByPower :: "validator list res"
  DelegationsOf :: "string \<Rightarrow> delegation list res"
  GetValidator :: "string \<Rightarrow> validator res"
  GetDelegation :: "string \<Rightarrow> string \<Rightarrow> delegation res"

section \<open>State and configuration\<close>

record gov_store =
  Constitution :: "string option"
  gov_Params :: "gov_params option"
  Deposits :: "(int \<times> acc_key, deposit) store"
  Votes :: "(int \<times> acc_key, vote) store"
  ProposalID :: "int option"
  Proposals :: "(int, proposal) store"
  ActiveProposalsQueue :: "(time \<times> int, int) store"
  InactiveProposalsQueue :: "(time \<times> int, int) store"
  VotingPeriodProposals :: "(int, unit) store"
  LastMinDeposit :: "last_min_deposit option"
  LastMinInitialDeposit :: "last_min_deposit option"
  ParticipationEMA :: "dec option"
  ConstitutionAmendmentParticipationEMA :: "dec option"
  LawParticipationEMA :: "dec option"
  QuorumCheckQueue :: "(time \<times> int, quorum_check_queue_entry) store"
  Governors :: "(string, governor) store"
  GovernanceDelegations :: "(string, governance_delegation) store"
  GovernanceDelegationsByGovernor :: "(acc_key \<times> string, governance_delegation) store"
  ValidatorSharesByGovernor :: "(acc_key \<times> string, governor_val_shares) store"
  ActiveGovernorsByDelegatedValidator :: "(acc_key \<times> string, unit) store"
  bank :: bank_store
  staking :: staking_view

text \<open>
  What unpacking a message yields: the messages of \<^verbatim>\<open>x/authz\<close> that wrap others, the two kinds the
  module treats apart, legacy content, and any other message.
\<close>

datatype sdk_msg = MsgExec string "any list" | MsgConstitutionAmendment | MsgLaw | MsgLegacyContent | MsgOther

type_synonym handler = "time \<Rightarrow> gov_store \<Rightarrow> gov_store res"

record gov_hooks =
  AfterProposalSubmission :: "int \<Rightarrow> gov_store \<Rightarrow> gov_store res"
  AfterProposalDeposit :: "int \<Rightarrow> string \<Rightarrow> gov_store \<Rightarrow> gov_store res"
  AfterProposalVote :: "int \<Rightarrow> string \<Rightarrow> gov_store \<Rightarrow> gov_store res"
  AfterProposalFailedMinDeposit :: "int \<Rightarrow> gov_store \<Rightarrow> gov_store res"
  AfterProposalVotingPeriodEnded :: "int \<Rightarrow> gov_store \<Rightarrow> gov_store res"

record gov_keeper =
  mth :: math_ops
  numtext :: text_ops
  bankKeeper :: bank_keeper
  UnpackAny :: "any \<Rightarrow> sdk_msg option"
  MsgValidateBasic :: "any \<Rightarrow> unit res"
  GetMsgV1Signers :: "any \<Rightarrow> string list res"
  RouterHandler :: "any \<Rightarrow> handler option"
  hooks :: gov_hooks
  ParseProposalMetadata :: "string \<Rightarrow> (string \<times> string) option"
  authority :: string
  MaxMetadataLen :: nat
  Bech32ValidatorAddrPrefix :: string

abbreviation gov_codec :: "gov_keeper \<Rightarrow> addr_ops" where
  "gov_codec k \<equiv> addressCodec (ak (bankKeeper k))"

definition gov_ModuleName :: string where "gov_ModuleName = ''gov''"

definition Params_Get :: "gov_store \<Rightarrow> gov_params res" where
  "Params_Get s = not_nil ''collections: not found: gov params'' (gov_Params s)"

definition assertMetadataLength :: "gov_keeper \<Rightarrow> string \<Rightarrow> unit res" where
  "assertMetadataLength k metadata = (if metadata \<noteq> [] \<and> length metadata > MaxMetadataLen k
     then Inl (Err ''metadata too long'') else Inr ())"

definition assertSummaryLength :: "gov_keeper \<Rightarrow> string \<Rightarrow> unit res" where
  "assertSummaryLength k summary = (if summary \<noteq> [] \<and> int (length summary) > wrapu64 (40 * int (MaxMetadataLen k))
     then Inl (Err ''summary too long'') else Inr ())"

text \<open>
  The governance account: reading it creates it when it is missing, so the state is returned
  with its address. A missing module permission gives a nil account, whose use panics.
\<close>

definition GetGovernanceAccount :: "gov_keeper \<Rightarrow> gov_store \<Rightarrow> (gov_store \<times> string) res" where
  "GetGovernanceAccount k s =
     bindR (GetModuleAccount (ak (bankKeeper k)) (ak_store (bank s)) gov_ModuleName) (\<lambda>(as, acc).
     bindR (deref acc) (\<lambda>a. Inr (s\<lparr>bank := (bank s)\<lparr>ak_store := as\<rparr>\<rparr>, BaseAccount_GetAddress (gov_codec k) a)))"

section \<open>Minimum deposits\<close>

definition maxSafePercChangeProduct :: dec where
  "maxSafePercChangeProduct = dec_of_int (10 ^ 70)"

definition clampPercChange :: "math_ops \<Rightarrow> int \<Rightarrow> dec \<Rightarrow> dec res" where
  "clampPercChange M amount percChange =
     (let amtAbs = \<bar>amount\<bar> in
      if amtAbs = 0 then Inr percChange
      else bindR (dec_Quo M maxSafePercChangeProduct (dec_of_int amtAbs)) (\<lambda>maxPerc.
        if \<bar>percChange\<bar> \<le> maxPerc then Inr percChange
        else if percChange < 0 then Inr (- maxPerc) else Inr maxPerc))"

definition changed_amount :: "math_ops \<Rightarrow> int \<Rightarrow> dec \<Rightarrow> int res" where
  "changed_amount M amount percChange = bindR (clampPercChange M amount percChange) (\<lambda>perc.
     bindR (dec_Mul M (dec_of_int amount) perc) (dec_TruncateInt M))"

definition keep_denom :: "math_ops \<Rightarrow> coins \<Rightarrow> dec \<Rightarrow> coin \<Rightarrow> coins \<Rightarrow> coins res" where
  "keep_denom M minDepositFloor percChange c new =
     bindR (Coins_AmountOf minDepositFloor (Denom c)) (\<lambda>floorAmt.
       if floorAmt = 0 then Inr new
       else bindR (changed_amount M (Amount c) percChange) (\<lambda>amt.
         bindR (NewCoin (Denom c) (if amt < floorAmt then floorAmt else amt)) (\<lambda>n. Inr (new @ [n]))))"

definition floor_denoms_seen :: "coins \<Rightarrow> coins \<Rightarrow> string list res" where
  "floor_denoms_seen minDepositFloor lastMinDeposit = foldR (\<lambda>c seen.
     bindR (Coins_AmountOf minDepositFloor (Denom c)) (\<lambda>a. Inr (if a = 0 then seen else Denom c # seen))) lastMinDeposit []"

definition add_denom :: "math_ops \<Rightarrow> string list \<Rightarrow> dec \<Rightarrow> coin \<Rightarrow> coins \<Rightarrow> coins res" where
  "add_denom M seen percChange c new = (if Denom c \<in> set seen then Inr new
     else bindR (changed_amount M (Amount c) percChange) (\<lambda>amt.
       if amt < Amount c then Inr (new @ [c])
       else bindR (NewCoin (Denom c) amt) (\<lambda>n. Inr (new @ [n]))))"

definition GetNewMinDeposit :: "math_ops \<Rightarrow> coins \<Rightarrow> coins \<Rightarrow> dec \<Rightarrow> coins res" where
  "GetNewMinDeposit M minDepositFloor lastMinDeposit percChange =
     bindR (foldR (keep_denom M minDepositFloor percChange) lastMinDeposit []) (\<lambda>kept.
     bindR (floor_denoms_seen minDepositFloor lastMinDeposit) (\<lambda>seen.
     bindR (foldR (add_denom M seen percChange) minDepositFloor kept) NewCoins))"

text \<open>
  The factor of one update: \<open>None\<close> where the source returns without a change. An error of
  \<^verbatim>\<open>ApproxRoot\<close> is logged and the root replaced by its argument.
\<close>

definition throttler_percChange ::
  "math_ops \<Rightarrow> text_ops \<Rightarrow> int \<Rightarrow> int \<Rightarrow> int \<Rightarrow> string \<Rightarrow> string \<Rightarrow> bool \<Rightarrow> dec option res" where
  "throttler_percChange M X num target k increase decrease checkElapsedTime =
     (if num \<ge> target then
        (if checkElapsedTime then Inr None
         else bindR (LegacyMustNewDecFromStr X increase) (\<lambda>alpha.
           bindR (dec_Add M precision alpha) (\<lambda>p. Inr (Some p))))
      else bindR (int_Sub M num target) (\<lambda>distance.
        if \<not> checkElapsedTime then Inr None
        else bindR (LegacyMustNewDecFromStr X decrease) (\<lambda>alpha.
          bindR (case dec_ApproxRoot M (dec_of_int distance) k of Inr b \<Rightarrow> Inr b
                 | Inl (Err _) \<Rightarrow> Inr (dec_of_int distance) | Inl (Panic e) \<Rightarrow> Inl (Panic e)) (\<lambda>b.
          bindR (dec_Mul M alpha b) (\<lambda>change.
          bindR (dec_Add M precision change) (\<lambda>p. Inr (Some p)))))))"

definition getMinDeposit :: "gov_store \<Rightarrow> last_min_deposit res" where
  "getMinDeposit s = (case LastMinDeposit s of Some l \<Rightarrow> Inr l
     | None \<Rightarrow> bindR (Params_Get s) (\<lambda>params. Inr
         \<lparr>Value = (case MinDepositThrottler params of None \<Rightarrow> [] | Some t \<Rightarrow> FloorValue t), LTime = Some Time_zero\<rparr>))"

definition GetMinDeposit :: "gov_store \<Rightarrow> coins" where
  "GetMinDeposit s = (case getMinDeposit s of Inl _ \<Rightarrow> [] | Inr l \<Rightarrow> Value l)"

definition UpdateMinDeposit :: "gov_keeper \<Rightarrow> time \<Rightarrow> bool \<Rightarrow> gov_store \<Rightarrow> gov_store res" where
  "UpdateMinDeposit k blockTime checkElapsedTime s = (case (gov_Params s, getMinDeposit s) of
     (Some params, Inr lastMinDeposit) \<Rightarrow>
       bindR (deref (MinDepositThrottler params)) (\<lambda>t.
       bindR (if checkElapsedTime then bindR (deref (LTime lastMinDeposit)) (\<lambda>last.
           bindR (deref (UpdatePeriod t)) (\<lambda>tick. Inr (Time_Sub blockTime last < tick))) else Inr False) (\<lambda>tooEarly.
       if tooEarly then Inr s
       else bindR (throttler_percChange (mth k) (numtext k) (int (length (store_walk (ActiveProposalsQueue s))))
           (TargetActiveProposals t) (DecreaseSensitivityTargetDistance t) (IncreaseRatio t) (DecreaseRatio t)
           checkElapsedTime) (\<lambda>change.
         case change of None \<Rightarrow> Inr s
         | Some percChange \<Rightarrow>
             bindR (GetNewMinDeposit (mth k) (FloorValue t) (Value lastMinDeposit) percChange) (\<lambda>new.
             Inr (s\<lparr>LastMinDeposit := Some \<lparr>Value = new, LTime = Some blockTime\<rparr>\<rparr>)))))
     | _ \<Rightarrow> Inr s)"

definition getMinInitialDeposit :: "gov_store \<Rightarrow> last_min_deposit res" where
  "getMinInitialDeposit s = (case LastMinInitialDeposit s of Some l \<Rightarrow> Inr l
     | None \<Rightarrow> bindR (Params_Get s) (\<lambda>params. Inr
         \<lparr>Value = (case MinInitialDepositThrottler params of None \<Rightarrow> [] | Some t \<Rightarrow> init_FloorValue t),
          LTime = Some Time_zero\<rparr>))"

definition GetMinInitialDeposit :: "gov_store \<Rightarrow> coins" where
  "GetMinInitialDeposit s = (case getMinInitialDeposit s of Inl _ \<Rightarrow> [] | Inr l \<Rightarrow> Value l)"

definition UpdateMinInitialDeposit :: "gov_keeper \<Rightarrow> time \<Rightarrow> bool \<Rightarrow> gov_store \<Rightarrow> gov_store res" where
  "UpdateMinInitialDeposit k blockTime checkElapsedTime s = (case (gov_Params s, getMinInitialDeposit s) of
     (Some params, Inr lastMinInitialDeposit) \<Rightarrow>
       bindR (deref (MinInitialDepositThrottler params)) (\<lambda>t.
       bindR (if checkElapsedTime then bindR (deref (LTime lastMinInitialDeposit)) (\<lambda>last.
           bindR (deref (init_UpdatePeriod t)) (\<lambda>tick. Inr (Time_Sub blockTime last < tick))) else Inr False) (\<lambda>tooEarly.
       if tooEarly then Inr s
       else bindR (throttler_percChange (mth k) (numtext k) (int (length (store_walk (InactiveProposalsQueue s))))
           (TargetProposals t) (init_DecreaseSensitivityTargetDistance t) (init_IncreaseRatio t) (init_DecreaseRatio t)
           checkElapsedTime) (\<lambda>change.
         case change of None \<Rightarrow> Inr s
         | Some percChange \<Rightarrow>
             bindR (GetNewMinDeposit (mth k) (init_FloorValue t) (Value lastMinInitialDeposit) percChange) (\<lambda>new.
             Inr (s\<lparr>LastMinInitialDeposit := Some \<lparr>Value = new, LTime = Some blockTime\<rparr>\<rparr>)))))
     | _ \<Rightarrow> Inr s)"

section \<open>Participation and quorums\<close>

definition ProposalKinds :: "gov_keeper \<Rightarrow> proposal \<Rightarrow> proposal_kinds" where
  "ProposalKinds k p = (if Messages p = [] then \<lparr>HasKindAny = True, HasKindLaw = False, HasKindConstitutionAmendment = False\<rparr>
     else \<lparr>HasKindAny = (\<exists>m \<in> set (Messages p). case UnpackAny k m of None \<Rightarrow> True
             | Some msg \<Rightarrow> msg \<noteq> MsgConstitutionAmendment \<and> msg \<noteq> MsgLaw),
           HasKindLaw = (\<exists>m \<in> set (Messages p). UnpackAny k m = Some MsgLaw),
           HasKindConstitutionAmendment = (\<exists>m \<in> set (Messages p). UnpackAny k m = Some MsgConstitutionAmendment)\<rparr>)"

text \<open>An unset average reads as a nil \<^verbatim>\<open>LegacyDec\<close>, which panics in the product.\<close>

definition computeQuorum :: "math_ops \<Rightarrow> dec option \<Rightarrow> dec \<Rightarrow> dec \<Rightarrow> dec res" where
  "computeQuorum M participationEma minQuorum maxQuorum =
     bindR (dec_Sub M maxQuorum minQuorum) (\<lambda>span. bindR (deref participationEma) (\<lambda>ema.
     bindR (dec_Mul M span ema) (\<lambda>part. dec_Add M minQuorum part)))"

definition quorum_in_range :: "gov_keeper \<Rightarrow> dec option \<Rightarrow> quorum_range option \<Rightarrow> dec res" where
  "quorum_in_range k participation qr = bindR (deref qr) (\<lambda>r.
     bindR (LegacyMustNewDecFromStr (numtext k) (QMin r)) (\<lambda>minQuorum.
     bindR (LegacyMustNewDecFromStr (numtext k) (QMax r)) (\<lambda>maxQuorum.
     computeQuorum (mth k) participation minQuorum maxQuorum)))"

definition GetQuorum :: "gov_keeper \<Rightarrow> gov_store \<Rightarrow> dec res" where
  "GetQuorum k s = bindR (must (Params_Get s)) (\<lambda>params. quorum_in_range k (ParticipationEMA s) (QuorumRange params))"

definition GetConstitutionAmendmentQuorum :: "gov_keeper \<Rightarrow> gov_store \<Rightarrow> dec res" where
  "GetConstitutionAmendmentQuorum k s = bindR (must (Params_Get s)) (\<lambda>params.
     quorum_in_range k (ConstitutionAmendmentParticipationEMA s) (ConstitutionAmendmentQuorumRange params))"

definition GetLawQuorum :: "gov_keeper \<Rightarrow> gov_store \<Rightarrow> dec res" where
  "GetLawQuorum k s = bindR (must (Params_Get s)) (\<lambda>params.
     quorum_in_range k (LawParticipationEMA s) (LawQuorumRange params))"

definition ema_formula :: "math_ops \<Rightarrow> dec \<Rightarrow> dec \<Rightarrow> dec res" where
  "ema_formula M oldValue newValue = bindR (dec_Mul M oldValue (LegacyNewDecWithPrec 8 1)) (\<lambda>a.
     bindR (dec_Mul M newValue (LegacyNewDecWithPrec 2 1)) (\<lambda>b. dec_Add M a b))"

definition next_ema :: "math_ops \<Rightarrow> dec option \<Rightarrow> dec \<Rightarrow> dec res" where
  "next_ema M current participation = bindR (must (not_nil ''collections: not found'' current)) (\<lambda>c. ema_formula M c participation)"

definition UpdateParticipationEMA :: "gov_keeper \<Rightarrow> proposal \<Rightarrow> dec \<Rightarrow> gov_store \<Rightarrow> gov_store res" where
  "UpdateParticipationEMA k proposal participation s = (let kinds = ProposalKinds k proposal in
     bindR (if HasKindConstitutionAmendment kinds
       then bindR (next_ema (mth k) (ConstitutionAmendmentParticipationEMA s) participation)
              (\<lambda>v. Inr (s\<lparr>ConstitutionAmendmentParticipationEMA := Some v\<rparr>)) else Inr s) (\<lambda>s.
     bindR (if HasKindLaw kinds
       then bindR (next_ema (mth k) (LawParticipationEMA s) participation)
              (\<lambda>v. Inr (s\<lparr>LawParticipationEMA := Some v\<rparr>)) else Inr s) (\<lambda>s.
     if HasKindAny kinds
       then bindR (next_ema (mth k) (ParticipationEMA s) participation)
              (\<lambda>v. Inr (s\<lparr>ParticipationEMA := Some v\<rparr>)) else Inr s)))"

end
