(* ===== verification/GovThrottle.thy ===== *)
theory GovThrottle
  imports GovKeeper
begin

text \<open>
  What the deposit throttlers and the dynamic quorums guarantee: for validated parameters an
  update of a minimum deposit never panics and its result stays valid coins at or above the
  floor, moving in the announced direction; a participation average stays between zero and one
  and the quorum computed from it within its configured range.
\<close>

section \<open>Facts from validated parameters\<close>

definition range_ok :: "text_ops \<Rightarrow> quorum_range option \<Rightarrow> bool" where
  "range_ok X qr \<longleftrightarrow> (\<exists>r mn mx. qr = Some r \<and> LegacyNewDecFromStr X (QMin r) = Some mn \<and>
     LegacyNewDecFromStr X (QMax r) = Some mx \<and> 0 \<le> mn \<and> mn \<le> mx \<and> mx \<le> precision)"

definition ratio_ok :: "text_ops \<Rightarrow> string \<Rightarrow> bool" where
  "ratio_ok X s \<longleftrightarrow> (\<exists>r. LegacyNewDecFromStr X s = Some r \<and> 0 < r \<and> r < precision)"

definition floor_ok :: "coins \<Rightarrow> bool" where
  "floor_ok cs \<longleftrightarrow> cs \<noteq> [] \<and> Coins_IsValid cs \<and> (\<forall>c \<in> set cs. Amount c \<le> 10 ^ 30)"

definition throttlers_ok :: "text_ops \<Rightarrow> gov_params \<Rightarrow> bool" where
  "throttlers_ok X p \<longleftrightarrow>
     (\<exists>t. MinDepositThrottler p = Some t \<and> floor_ok (FloorValue t) \<and> UpdatePeriod t \<noteq> None \<and>
        ratio_ok X (IncreaseRatio t) \<and> ratio_ok X (DecreaseRatio t) \<and> 0 < TargetActiveProposals t) \<and>
     (\<exists>u. MinInitialDepositThrottler p = Some u \<and> floor_ok (init_FloorValue u) \<and> init_UpdatePeriod u \<noteq> None \<and>
        ratio_ok X (init_IncreaseRatio u) \<and> ratio_ok X (init_DecreaseRatio u) \<and> 0 < TargetProposals u)"

lemma validateFloor_ok: "validateDepositThrottlerFloor l cs = Inr u \<Longrightarrow> floor_ok cs"
  by (auto simp: validateDepositThrottlerFloor_def floor_ok_def MaxDepositThrottlerFloorAmount_def not_le split: if_splits)

lemma validRatio_ok: "validRatio X l s = Inr u \<Longrightarrow> ratio_ok X s"
  by (auto simp: validRatio_def ratio_ok_def bindR_eq_Inr split: if_splits)

lemma validate_throttlerD:
  assumes "validate_throttler X l vp fl up tgt ds inc dcr = Inr u"
  shows "floor_ok fl" and "up \<noteq> None" and "0 < tgt" and "ratio_ok X inc" and "ratio_ok X dcr"
  using assms by (auto simp: validate_throttler_def bindR_eq_Inr dest: validateFloor_ok validRatio_ok)

lemma validate_thresholdsD:
  assumes "validate_thresholds X p = Inr r"
  shows "range_ok X (QuorumRange p)" and "range_ok X (ConstitutionAmendmentQuorumRange p)" and "range_ok X (LawQuorumRange p)"
  using assms
  by (auto simp: validate_thresholds_def range_ok_def bindR_eq_Inr validQuorumBound_def validQuorumOrder_def split: if_splits)

lemma validated_thresholds:
  assumes "validate_thresholds X p = Inr (t, a, l)"
  shows "LegacyNewDecFromStr X (Threshold p) = Some t" and "LegacyNewDecFromStr X (ConstitutionAmendmentThreshold p) = Some a"
    and "LegacyNewDecFromStr X (LawThreshold p) = Some l" and "0 < t" and "t \<le> l" and "l \<le> a" and "a \<le> precision"
  using assms by (auto simp: validate_thresholds_def bindR_eq_Inr validThreshold_def split: if_splits)

lemma Gov_ValidateBasicD:
  assumes "Gov_Params_ValidateBasic M X p = Inr u"
  shows "throttlers_ok X p" and "\<exists>r. validate_thresholds X p = Inr r" and "\<exists>v. validate_periods X p = Inr v"
    and "MaxDepositPeriod p \<noteq> None"
  using assms by (auto simp: Gov_Params_ValidateBasic_def bindR_eq_Inr throttlers_ok_def dest: validate_throttlerD)

lemma validate_periodsD:
  assumes "validate_periods X p = Inr v"
  shows "VotingPeriod p = Some v" and "minVotingPeriod \<le> v" and "\<exists>q. QuorumTimeout p = Some q \<and> 0 \<le> q \<and> q < v"
    and "MaxVotingPeriodExtension p \<noteq> None" and "QuorumCheckCount p \<le> MaxQuorumCheckCount"
    and "\<exists>d. LegacyNewDecFromStr X (MinDepositRatio p) = Some d \<and> 0 \<le> d \<and> d \<le> precision"
  using assms by (auto simp: validate_periods_def bindR_eq_Inr)

section \<open>Changing an amount\<close>

lemma sdiv_precision_le: "w \<le> a * precision \<Longrightarrow> 0 \<le> a \<Longrightarrow> w sdiv precision \<le> a"
proof (cases "0 \<le> w")
  case True
  assume "w \<le> a * precision"
  with True show ?thesis using zdiv_mono1 [of w "a * precision" precision] by (simp add: sdiv_nonneg)
next
  case False
  assume "0 \<le> a"
  moreover have "w sdiv precision \<le> 0" using False by (simp add: signed_divide_int_def precision_def)
  ultimately show ?thesis by linarith
qed

lemma sdiv_precision_ge: "a * precision \<le> w \<Longrightarrow> 0 \<le> a \<Longrightarrow> a \<le> w sdiv precision"
  using zdiv_mono1 [of "a * precision" w precision] by (simp add: sdiv_nonneg zero_le_mult_iff order_trans [of 0 "a * precision" w])

lemma clamp_gap: "\<bar>P - 10 ^ 106\<bar> \<le> (q::int) \<Longrightarrow> P \<le> 10 ^ 105 \<Longrightarrow> q \<le> 10 ^ 87 \<Longrightarrow> False"
  by simp

context sdk_math
begin

lemma clamp_cases:
  assumes "int_ok a" and "0 < a"
  obtains z perc where "clampPercChange M a pc = Inr perc" and "\<bar>perc\<bar> \<le> z" and "0 \<le> z"
    and "\<bar>z * (a * precision) - 10 ^ 106\<bar> \<le> a * precision"
    and "perc = pc \<or> (perc = - z \<and> pc < 0) \<or> (perc = z \<and> z < pc)"
proof -
  let ?x = "maxSafePercChangeProduct" and ?y = "a * precision"
  have y: "precision \<le> ?y" using assms(2) by (simp add: precision_def)
  have "\<bar>?x\<bar> * precision \<le> dec_max * precision"
    by (simp add: maxSafePercChangeProduct_def dec_of_int_def precision_def dec_max_def)
  also have "\<dots> \<le> dec_max * \<bar>?y\<bar>" using y by (intro mult_left_mono) auto
  finally obtain z where z: "dec_Quo M ?x ?y = Inr z"
    using op_spec_total [OF dec_Quo_spec [of ?x ?y]] assms(2) by auto
  have c: "\<bar>z * ?y - 10 ^ 106\<bar> \<le> ?y"
    using dec_Quo_close [OF z] assms(2) by (simp add: maxSafePercChangeProduct_def dec_of_int_def precision_def)
  have n: "0 \<le> z" by (rule dec_Quo_nonneg [OF z]) (use assms(2) in \<open>simp_all add: maxSafePercChangeProduct_def dec_of_int_def\<close>)
  have r: "clampPercChange M a pc = Inr (if \<bar>pc\<bar> \<le> z then pc else if pc < 0 then - z else z)"
    using assms(2) z by (simp add: clampPercChange_def dec_of_int_def)
  show ?thesis by (rule that [OF r _ n c]) (use n in auto)
qed

lemma changed_amount_total:
  assumes "int_ok a" and "0 < a"
  shows "\<exists>v. changed_amount M a pc = Inr v \<and> int_ok v \<and> (pc \<le> precision \<longrightarrow> v \<le> a) \<and>
    (precision \<le> pc \<longrightarrow> a \<le> 10 ^ 69 \<longrightarrow> a \<le> v)"
proof -
  obtain z perc where c: "clampPercChange M a pc = Inr perc" "\<bar>perc\<bar> \<le> z" "0 \<le> z"
    "\<bar>z * (a * precision) - 10 ^ 106\<bar> \<le> a * precision" "perc = pc \<or> (perc = - z \<and> pc < 0) \<or> (perc = z \<and> z < pc)"
    using clamp_cases [OF assms] by metis
  have ab: "a * precision \<le> 2 ^ 256 * precision" using assms(1) by (simp add: int_ok_def)
  have "\<bar>a * precision * perc\<bar> \<le> z * (a * precision)"
    using c(2) assms(2) mult_left_mono [of "\<bar>perc\<bar>" z "a * precision"] by (simp add: abs_mult mult.commute)
  then have p: "\<bar>a * precision * perc\<bar> < 10 ^ 107" using c(4) ab by (simp add: precision_def)
  then have "\<bar>a * precision * perc\<bar> \<le> dec_max * precision" by (simp add: dec_max_def precision_def)
  then obtain w where w: "dec_Mul M (dec_of_int a) perc = Inr w"
    using op_spec_total [OF dec_Mul_spec] by (auto simp: dec_of_int_def)
  have "\<bar>w\<bar> < 10 ^ 89 + 1" by (rule dec_Mul_bound [OF w]) (use p in \<open>simp add: dec_of_int_def precision_def\<close>)
  then have "\<bar>w sdiv precision\<bar> < 2 ^ 256"
    unfolding sdiv_abs by (intro le_less_trans [OF zdiv_mono1 [of "\<bar>w\<bar>" "10 ^ 90"]]) (simp_all add: precision_def)
  then have io: "int_ok (w sdiv precision)" by (simp add: int_ok_def)
  then have r: "changed_amount M a pc = Inr (w sdiv precision)"
    by (simp add: changed_amount_def c(1) w dec_TruncateInt_Inr)
  have a0: "0 \<le> dec_of_int a" using assms(2) by (simp add: dec_of_int_def)
  show ?thesis
  proof (intro exI conjI impI)
    show "changed_amount M a pc = Inr (w sdiv precision)" "int_ok (w sdiv precision)" by (fact r, fact io)
  next
    assume "pc \<le> precision"
    then have "perc \<le> precision" using c(3,5) precision_pos by linarith
    then show "w sdiv precision \<le> a"
      using dec_Mul_le_any [OF w a0] assms(2) by (intro sdiv_precision_le) (auto simp: dec_of_int_def)
  next
    assume g: "precision \<le> pc" "a \<le> 10 ^ 69"
    have "perc = pc \<or> perc = z" using c(2,3,5) g(1) precision_pos by auto
    moreover have "precision \<le> z"
    proof (rule ccontr)
      assume "\<not> precision \<le> z"
      then have "z * (a * precision) \<le> precision * (10 ^ 69 * precision)"
        using g(2) assms(2) c(3) by (intro mult_mono) auto
      also have "\<dots> = 10 ^ 105" by (simp add: precision_def)
      finally show False by (rule clamp_gap [OF c(4)]) (use g(2) in \<open>simp add: precision_def\<close>)
    qed
    ultimately have "precision \<le> perc" using g(1) by auto
    then show "a \<le> w sdiv precision"
      using dec_Mul_ge [OF w a0] assms(2) by (intro sdiv_precision_ge) (auto simp: dec_of_int_def)
  qed
qed

end

section \<open>The new minimum deposit\<close>

lemma foldR_collect:
  assumes "\<And>x acc. x \<in> set xs \<Longrightarrow> f x acc = Inr (if P x then acc @ [g x] else acc)"
  shows "foldR f xs acc = Inr (acc @ map g (filter P xs))"
  using assms by (induction xs arbitrary: acc) auto

lemma foldR_push:
  assumes "\<And>x acc. x \<in> set xs \<Longrightarrow> f x acc = Inr (if P x then g x # acc else acc)"
  shows "foldR f xs acc = Inr (rev (map g (filter P xs)) @ acc)"
  using assms by (induction xs arbitrary: acc) auto

lemma NewCoins_distinct:
  assumes "distinct (map Denom cs)" and "\<And>c. c \<in> set cs \<Longrightarrow> reDnm_MatchString (Denom c) \<and> 0 < Amount c"
  shows "\<exists>r. NewCoins cs = Inr r \<and> Coins_IsValid r \<and> set r = set cs \<and> (\<forall>d. amt r d = amt cs d)"
proof -
  have "removeZeroCoins cs = cs"
    using assms(2) by (fastforce simp: removeZeroCoins_def Coin_IsZero_def filter_id_conv)
  then have s: "sanitizeCoins cs = sort_key Denom cs" by (simp add: sanitizeCoins_eq)
  then have "Coins_IsValid (sanitizeCoins cs)"
    using assms sort_key_strict [OF assms(1)] by (simp add: Coins_IsValid_alt)
  then show ?thesis by (simp add: NewCoins_Inr s)
qed

text \<open>The coins before sorting: one per denomination of the floor.\<close>

definition new_coin :: "(int \<Rightarrow> int) \<Rightarrow> coins \<Rightarrow> coin \<Rightarrow> coin" where
  "new_coin chg fl c = \<lparr>Denom = Denom c, Amount = max (chg (Amount c)) (amt fl (Denom c))\<rparr>"

definition new_coins :: "(int \<Rightarrow> int) \<Rightarrow> coins \<Rightarrow> coins \<Rightarrow> coins" where
  "new_coins chg fl cur = map (new_coin chg fl) (filter (\<lambda>c. amt fl (Denom c) \<noteq> 0) cur @ filter (\<lambda>c. amt cur (Denom c) = 0) fl)"

lemma new_coins_denoms:
  assumes "Coins_IsValid fl" and "Coins_IsValid cur"
  shows "distinct (map Denom (new_coins chg fl cur))" and "Denom ` set (new_coins chg fl cur) = {d. amt fl d \<noteq> 0}"
    and "\<And>c. c \<in> set (new_coins chg fl cur) \<Longrightarrow> reDnm_MatchString (Denom c) \<and> 0 < Amount c"
proof -
  note cf = valid_canonical [OF assms(1)] and cl = valid_canonical [OF assms(2)]
  have df: "distinct (map Denom fl)" and dl: "distinct (map Denom cur)" using canonicalD(2) cf cl by blast+
  have nz: "amt cur (Denom c) \<noteq> 0" if "c \<in> set cur" for c
    using canonical_denoms [OF cl] that by blast
  have nf: "amt fl (Denom c) \<noteq> 0" if "c \<in> set fl" for c
    using canonical_denoms [OF cf] that by blast
  have f: "Denom ` set (filter (\<lambda>c. P (Denom c)) cs) = {d \<in> Denom ` set cs. P d}" for P cs by auto
  have mn: "map Denom (new_coins chg fl cur) = map Denom (filter (\<lambda>c. amt fl (Denom c) \<noteq> 0) cur)
      @ map Denom (filter (\<lambda>c. amt cur (Denom c) = 0) fl)"
    by (simp add: new_coins_def new_coin_def)
  have s: "set (map Denom (filter (\<lambda>c. amt fl (Denom c) \<noteq> 0) cur)) = {d. amt cur d \<noteq> 0 \<and> amt fl d \<noteq> 0}"
    "set (map Denom (filter (\<lambda>c. amt cur (Denom c) = 0) fl)) = {d. amt fl d \<noteq> 0 \<and> amt cur d = 0}"
    using f [of "\<lambda>d. amt fl d \<noteq> 0" cur] f [of "\<lambda>d. amt cur d = 0" fl]
    by (simp_all only: set_map canonical_denoms [OF cf] canonical_denoms [OF cl] mem_Collect_eq)
  show "distinct (map Denom (new_coins chg fl cur))"
    unfolding mn distinct_append s using distinct_map_filter [OF df] distinct_map_filter [OF dl] by blast
  have "Denom ` set (new_coins chg fl cur) = set (map Denom (new_coins chg fl cur))" by simp
  also have "\<dots> = {d. amt fl d \<noteq> 0}" unfolding mn set_append s by blast
  finally show "Denom ` set (new_coins chg fl cur) = {d. amt fl d \<noteq> 0}" .
  show "reDnm_MatchString (Denom c) \<and> 0 < Amount c" if "c \<in> set (new_coins chg fl cur)" for c
  proof -
    have "amt fl (Denom c) \<noteq> 0" "amt fl (Denom c) \<le> Amount c"
      using that nf by (auto simp: new_coins_def new_coin_def)
    then show ?thesis using valid_denom [OF assms(1)] valid_amt_nonneg [OF assms(1), of "Denom c"] by auto
  qed
qed

lemma new_coins_amt:
  assumes "Coins_IsValid fl" and "Coins_IsValid cur"
  shows "amt (new_coins chg fl cur) d = (if amt fl d = 0 then 0
     else max (chg (if amt cur d = 0 then amt fl d else amt cur d)) (amt fl d))"
proof (cases "amt fl d = 0")
  case True
  then show ?thesis using new_coins_denoms(2) [OF assms, of chg] by (intro trans [OF amt_notin]) auto
next
  case False
  note cf = valid_canonical [OF assms(1)] and cl = valid_canonical [OF assms(2)]
  have "d \<in> Denom ` set (if amt cur d = 0 then fl else cur)"
    using False canonical_denoms [OF cf] canonical_denoms [OF cl] by simp
  then obtain c where c: "Denom c = d" "c \<in> set (if amt cur d = 0 then fl else cur)"
    by (metis imageE)
  then have "new_coin chg fl c \<in> set (new_coins chg fl cur)"
    using False by (auto simp: new_coins_def split: if_splits)
  then have "amt (new_coins chg fl cur) d = Amount (new_coin chg fl c)"
    using amt_in [OF new_coins_denoms(1) [OF assms]] c(1) by (metis coin.select_convs(1) new_coin_def)
  moreover have "Amount c = (if amt cur d = 0 then amt fl d else amt cur d)"
    using c amt_in [OF canonicalD(2) [OF cf]] amt_in [OF canonicalD(2) [OF cl]] by (auto split: if_splits)
  ultimately show ?thesis using False c(1) by (simp add: new_coin_def)
qed

context sdk_math
begin

lemma GetNewMinDeposit_eq:
  assumes fl: "Coins_IsValid fl" and la: "Coins_IsValid cur"
    and chg: "\<And>c. c \<in> set fl \<union> set cur \<Longrightarrow> changed_amount M (Amount c) pc = Inr (chg (Amount c))"
  shows "GetNewMinDeposit M fl cur pc = NewCoins (new_coins chg fl cur)"
proof -
  note cf = valid_canonical [OF fl] and cl = valid_canonical [OF la]
  have de: "reDnm_MatchString (Denom c)" "0 < Amount c" if "c \<in> set fl \<union> set cur" for c
    using that fl la by (auto simp: Coins_IsValid_alt)
  have af: "amt fl (Denom c) = Amount c" if "c \<in> set fl" for c
    using amt_in [OF canonicalD(2) [OF cf] that] .
  have nn: "0 \<le> amt fl d" for d by (rule valid_amt_nonneg [OF fl])
  have k: "foldR (keep_denom M fl pc) cur [] = Inr ([] @ map (new_coin chg fl) (filter (\<lambda>c. amt fl (Denom c) \<noteq> 0) cur))"
  proof (rule foldR_collect)
    fix c acc assume "c \<in> set cur"
    then show "keep_denom M fl pc c acc = Inr (if amt fl (Denom c) \<noteq> 0 then acc @ [new_coin chg fl c] else acc)"
      using de [of c] chg [of c] nn [of "Denom c"]
      by (auto simp: keep_denom_def Coins_AmountOf_eq [OF cf] new_coin_def max_def)
  qed
  have s: "floor_denoms_seen fl cur = Inr (rev (map Denom (filter (\<lambda>c. amt fl (Denom c) \<noteq> 0) cur)) @ [])"
    unfolding floor_denoms_seen_def
    by (rule foldR_push) (use de in \<open>auto simp: Coins_AmountOf_eq [OF cf]\<close>)
  define seen where "seen = rev (map Denom (filter (\<lambda>c. amt fl (Denom c) \<noteq> 0) cur)) @ []"
  have seen: "Denom c \<in> set seen \<longleftrightarrow> amt cur (Denom c) \<noteq> 0" if "c \<in> set fl" for c
  proof -
    have "set seen = {d \<in> Denom ` set cur. amt fl d \<noteq> 0}" by (auto simp: seen_def)
    moreover have "amt fl (Denom c) \<noteq> 0" using af that de(2) by force
    ultimately show ?thesis unfolding canonical_denoms [OF cl] by simp
  qed
  have a: "foldR (add_denom M seen pc) fl acc = Inr (acc @ map (new_coin chg fl) (filter (\<lambda>c. amt cur (Denom c) = 0) fl))" for acc
  proof (rule foldR_collect)
    fix c acc assume "c \<in> set fl"
    then show "add_denom M seen pc c acc = Inr (if amt cur (Denom c) = 0 then acc @ [new_coin chg fl c] else acc)"
      using de [of c] chg [of c] seen [of c] af [of c]
      by (auto simp: add_denom_def new_coin_def max_def)
  qed
  show ?thesis
    unfolding GetNewMinDeposit_def k s seen_def [symmetric] by (simp add: a new_coins_def)
qed

lemma GetNewMinDeposit_total:
  assumes fl: "Coins_IsValid fl" "fits fl" and la: "Coins_IsValid cur" "fits cur"
  obtains new where "GetNewMinDeposit M fl cur pc = Inr new" and "Coins_IsValid new" and "fits new"
    and "\<forall>d. (amt fl d = 0 \<longrightarrow> amt new d = 0) \<and> amt fl d \<le> amt new d \<and>
       (pc \<le> precision \<longrightarrow> amt new d \<le> max (amt cur d) (amt fl d)) \<and>
       (precision \<le> pc \<longrightarrow> amt fl d \<noteq> 0 \<longrightarrow> amt cur d \<le> 10 ^ 69 \<longrightarrow> amt cur d \<le> amt new d)"
proof -
  define chg where "chg a = (case changed_amount M a pc of Inr v \<Rightarrow> v | Inl _ \<Rightarrow> 0)" for a
  have chg: "changed_amount M a pc = Inr (chg a)" "int_ok (chg a)" "pc \<le> precision \<Longrightarrow> chg a \<le> a"
    "precision \<le> pc \<Longrightarrow> a \<le> 10 ^ 69 \<Longrightarrow> a \<le> chg a" if ia: "int_ok a" "0 < a" for a
  proof -
    obtain v where v: "changed_amount M a pc = Inr v" "int_ok v" "pc \<le> precision \<longrightarrow> v \<le> a"
      "precision \<le> pc \<longrightarrow> a \<le> 10 ^ 69 \<longrightarrow> a \<le> v" using changed_amount_total [OF ia] by blast
    have "chg a = v" by (simp add: chg_def v(1))
    with v show "changed_amount M a pc = Inr (chg a)" "int_ok (chg a)" "pc \<le> precision \<Longrightarrow> chg a \<le> a"
      "precision \<le> pc \<Longrightarrow> a \<le> 10 ^ 69 \<Longrightarrow> a \<le> chg a" by simp_all
  qed
  have am: "int_ok (Amount c)" "0 < Amount c" if "c \<in> set fl \<union> set cur" for c
    using that assms by (auto simp: fits_def Coins_IsValid_alt)
  have e: "GetNewMinDeposit M fl cur pc = NewCoins (new_coins chg fl cur)"
    by (rule GetNewMinDeposit_eq [OF fl(1) la(1)]) (rule chg(1) [OF am])
  obtain new where n: "NewCoins (new_coins chg fl cur) = Inr new" "Coins_IsValid new" "set new = set (new_coins chg fl cur)"
    "\<forall>d. amt new d = amt (new_coins chg fl cur) d"
    using NewCoins_distinct [of "new_coins chg fl cur"] new_coins_denoms [OF fl(1) la(1), where chg = chg] by auto
  have io: "int_ok (amt fl d)" "int_ok (amt cur d)" for d
    using fits_amt valid_canonical fl la by blast+
  have nn: "0 \<le> amt fl d" "0 \<le> amt cur d" for d using valid_amt_nonneg fl la by blast+
  have "fits new"
    unfolding fits_def n(3) using chg(2) am io
    by (auto simp: new_coins_def new_coin_def max_def)
  moreover have "(amt fl d = 0 \<longrightarrow> amt new d = 0) \<and> amt fl d \<le> amt new d \<and>
       (pc \<le> precision \<longrightarrow> amt new d \<le> max (amt cur d) (amt fl d)) \<and>
       (precision \<le> pc \<longrightarrow> amt fl d \<noteq> 0 \<longrightarrow> amt cur d \<le> 10 ^ 69 \<longrightarrow> amt cur d \<le> amt new d)" for d
    using chg(3,4) [OF io(1), of d] chg(3,4) [OF io(2), of d] nn [of d]
    by (auto simp: n(4) new_coins_amt [OF fl(1) la(1)] max_def)
  ultimately show ?thesis using that e n(1,2) by simp
qed

end

end
