(* ===== verification/GovDelegation.thy ===== *)
theory GovDelegation
  imports GovKeeper
begin

text \<open>
  Governors and governance delegations (\<^verbatim>\<open>x/gov/keeper/governor.go\<close>, \<^verbatim>\<open>delegation.go\<close>) and the hooks by
  which the staking module keeps the shares of the governors up to date (\<^verbatim>\<open>staking_hooks.go\<close>). A
  governor is an account that votes with the staked tokens of the accounts that delegated their
  voting power to it; for every governor and validator the store holds the sum of the shares
  of those accounts.
\<close>

section \<open>Addresses\<close>

definition AddressFromBech32 :: "addr_ops \<Rightarrow> string \<Rightarrow> string \<Rightarrow> string res" where
  "AddressFromBech32 A prefix address =
     (if TrimSpace address = [] then Inl (Err ''empty address string is not allowed'')
      else bindR (GetFromBech32 A address prefix) (\<lambda>bz. bindR (VerifyAddressFormat bz) (\<lambda>_. Inr bz)))"

definition AddressString :: "addr_ops \<Rightarrow> string \<Rightarrow> string \<Rightarrow> string res" where
  "AddressString A prefix bz = (if bz = [] then Inr [] else must (ConvertAndEncode A prefix bz))"

definition PrefixGovernor :: string where "PrefixGovernor = ''gov''"

definition govPrefix :: "gov_keeper \<Rightarrow> string" where
  "govPrefix k = Bech32AccountAddrPrefix (gov_codec k) @ PrefixGovernor"

definition GovernorAddressFromBech32 :: "gov_keeper \<Rightarrow> string \<Rightarrow> string res" where
  "GovernorAddressFromBech32 k address = AddressFromBech32 (gov_codec k) (govPrefix k) address"

definition MustGovernorAddressFromBech32 :: "gov_keeper \<Rightarrow> string \<Rightarrow> string res" where
  "MustGovernorAddressFromBech32 k address = must (GovernorAddressFromBech32 k address)"

definition GovernorAddress_String :: "gov_keeper \<Rightarrow> string \<Rightarrow> string res" where
  "GovernorAddress_String k ga = AddressString (gov_codec k) (govPrefix k) ga"

definition ValAddressFromBech32 :: "gov_keeper \<Rightarrow> string \<Rightarrow> string res" where
  "ValAddressFromBech32 k address = AddressFromBech32 (gov_codec k) (Bech32ValidatorAddrPrefix k) address"

definition ValAddress_String :: "gov_keeper \<Rightarrow> string \<Rightarrow> string res" where
  "ValAddress_String k va = AddressString (gov_codec k) (Bech32ValidatorAddrPrefix k) va"

definition Governor_GetAddress :: "gov_keeper \<Rightarrow> governor \<Rightarrow> string res" where
  "Governor_GetAddress k g = MustGovernorAddressFromBech32 k (gvn_Address g)"

section \<open>Self-delegation of a governor\<close>

text \<open>The exclusions are a set of validator addresses in the source; here the list of its elements.\<close>

definition getGovernorBondedTokensWithExclusions :: "gov_keeper \<Rightarrow> gov_store \<Rightarrow> string \<Rightarrow> string list \<Rightarrow> int res" where
  "getGovernorBondedTokensWithExclusions k s govAddr excludeValAddrs =
     (case DelegationsOf (staking s) govAddr of Inl (Err _) \<Rightarrow> Inl (Err ''failed to iterate delegations'')
      | Inl (Panic e) \<Rightarrow> Inl (Panic e)
      | Inr delegations \<Rightarrow> foldR (\<lambda>d bondedTokens.
          bindR (must (ValAddressFromBech32 k (del_Validator d))) (\<lambda>validatorAddr.
          bindR (ValAddress_String k validatorAddr) (\<lambda>str.
          if str \<in> set excludeValAddrs then Inr bondedTokens
          else bindR (must (GetValidator (staking s) validatorAddr)) (\<lambda>validator.
            bindR (dec_MulInt (mth k) (del_Shares d) (BondedTokens validator)) (\<lambda>x.
            bindR (dec_Quo (mth k) x (DelegatorShares validator)) (\<lambda>q.
            bindR (dec_TruncateInt (mth k) q) (\<lambda>bt. int_Add (mth k) bondedTokens bt))))))) delegations 0)"

definition GetGovernorBondedTokens :: "gov_keeper \<Rightarrow> gov_store \<Rightarrow> string \<Rightarrow> int res" where
  "GetGovernorBondedTokens k s govAddr = getGovernorBondedTokensWithExclusions k s govAddr []"

definition validateGovernorMinSelfDelegationWithTotalBonded :: "gov_keeper \<Rightarrow> gov_store \<Rightarrow> governor \<Rightarrow> int \<Rightarrow> bool res" where
  "validateGovernorMinSelfDelegationWithTotalBonded k s g totalBonded =
     (if \<not> Governor_IsActive g then Inr False
      else bindR (must (Params_Get s)) (\<lambda>params.
        bindR (case NewIntFromString (numtext k) (MinGovernorSelfDelegation params) of
            None \<Rightarrow> Inl (Panic ''invalid min governor self delegation'') | Some v \<Rightarrow> Inr v) (\<lambda>minSelf.
        bindR (Governor_GetAddress k g) (\<lambda>delAddr.
        case store_get (GovernanceDelegations s) delAddr of
          None \<Rightarrow> Inl (Panic ''active governor without governance self-delegation'')
        | Some del \<Rightarrow> if gvn_Address g \<noteq> gd_Governor del
            then Inl (Panic ''active governor without governance self-delegation'')
            else Inr (\<not> totalBonded < minSelf)))))"

definition validateGovernorMinSelfDelegationWithExclusions :: "gov_keeper \<Rightarrow> gov_store \<Rightarrow> governor \<Rightarrow> string list \<Rightarrow> bool res" where
  "validateGovernorMinSelfDelegationWithExclusions k s g excludeValAddrs =
     (if \<not> Governor_IsActive g then Inr False
      else bindR (Governor_GetAddress k g) (\<lambda>addr.
        case getGovernorBondedTokensWithExclusions k s addr excludeValAddrs of
          Inl (Err _) \<Rightarrow> Inr False
        | Inl (Panic e) \<Rightarrow> Inl (Panic e)
        | Inr bondedTokens \<Rightarrow> validateGovernorMinSelfDelegationWithTotalBonded k s g bondedTokens))"

definition ValidateGovernorMinSelfDelegation :: "gov_keeper \<Rightarrow> gov_store \<Rightarrow> governor \<Rightarrow> bool res" where
  "ValidateGovernorMinSelfDelegation k s g = validateGovernorMinSelfDelegationWithExclusions k s g []"

section \<open>Delegations\<close>

definition NewGovernanceDelegation :: "gov_keeper \<Rightarrow> string \<Rightarrow> string \<Rightarrow> governance_delegation res" where
  "NewGovernanceDelegation k delegatorAddr governorAddr =
     bindR (AccAddress_String (gov_codec k) delegatorAddr) (\<lambda>d. bindR (GovernorAddress_String k governorAddr) (\<lambda>g.
     Inr \<lparr>gd_Delegator = d, gd_Governor = g\<rparr>))"

definition NewGovernorValShares :: "gov_keeper \<Rightarrow> string \<Rightarrow> string \<Rightarrow> dec \<Rightarrow> governor_val_shares res" where
  "NewGovernorValShares k governorAddr validatorAddress shares =
     (if shares < 0 then Inl (Panic ''invalid governor val shares'')
      else bindR (GovernorAddress_String k governorAddr) (\<lambda>g. bindR (ValAddress_String k validatorAddress) (\<lambda>v.
        Inr \<lparr>gvs_Governor = g, gvs_Validator = v, Shares = shares\<rparr>)))"

definition SetGovernanceDelegation :: "gov_keeper \<Rightarrow> governance_delegation \<Rightarrow> gov_store \<Rightarrow> gov_store res" where
  "SetGovernanceDelegation k gd s =
     bindR (MustAccAddressFromBech32 (gov_codec k) (gd_Delegator gd)) (\<lambda>delAddr.
     bindR (MustGovernorAddressFromBech32 k (gd_Governor gd)) (\<lambda>govAddr.
     Inr (s\<lparr>GovernanceDelegations := store_put (GovernanceDelegations s) delAddr gd,
            GovernanceDelegationsByGovernor :=
              store_put (GovernanceDelegationsByGovernor s) (AccKey govAddr, delAddr) gd\<rparr>)))"

definition RemoveGovernanceDelegation :: "gov_keeper \<Rightarrow> string \<Rightarrow> gov_store \<Rightarrow> gov_store res" where
  "RemoveGovernanceDelegation k delegatorAddr s = (case store_get (GovernanceDelegations s) delegatorAddr of
     None \<Rightarrow> Inr s
   | Some gd \<Rightarrow> bindR (MustGovernorAddressFromBech32 k (gd_Governor gd)) (\<lambda>govAddr.
       Inr (s\<lparr>GovernanceDelegations := store_rem (GovernanceDelegations s) delegatorAddr,
              GovernanceDelegationsByGovernor :=
                store_rem (GovernanceDelegationsByGovernor s) (AccKey govAddr, delegatorAddr)\<rparr>)))"

definition IncreaseGovernorShares :: "gov_keeper \<Rightarrow> string \<Rightarrow> string \<Rightarrow> dec \<Rightarrow> gov_store \<Rightarrow> gov_store res" where
  "IncreaseGovernorShares k governorAddr validatorAddr shares s =
     bindR (case store_get (ValidatorSharesByGovernor s) (AccKey governorAddr, validatorAddr) of
         None \<Rightarrow> NewGovernorValShares k governorAddr validatorAddr shares
       | Some vs \<Rightarrow> bindR (dec_Add (mth k) (Shares vs) shares) (\<lambda>x. Inr (vs\<lparr>Shares := x\<rparr>))) (\<lambda>valShares.
     Inr (s\<lparr>ValidatorSharesByGovernor :=
       store_put (ValidatorSharesByGovernor s) (AccKey governorAddr, validatorAddr) valShares\<rparr>))"

definition DecreaseGovernorShares :: "gov_keeper \<Rightarrow> string \<Rightarrow> string \<Rightarrow> dec \<Rightarrow> gov_store \<Rightarrow> gov_store res" where
  "DecreaseGovernorShares k governorAddr validatorAddr shares s =
     (case store_get (ValidatorSharesByGovernor s) (AccKey governorAddr, validatorAddr) of
        None \<Rightarrow> Inl (Panic ''cannot decrease shares for a non-existent governor delegation'')
      | Some vs \<Rightarrow> bindR (dec_Sub (mth k) (Shares vs) shares) (\<lambda>x.
          if x < 0 then Inl (Panic ''negative shares'')
          else if x = 0 then Inr (s\<lparr>ValidatorSharesByGovernor :=
            store_rem (ValidatorSharesByGovernor s) (AccKey governorAddr, validatorAddr)\<rparr>)
          else Inr (s\<lparr>ValidatorSharesByGovernor :=
            store_put (ValidatorSharesByGovernor s) (AccKey governorAddr, validatorAddr) (vs\<lparr>Shares := x\<rparr>)\<rparr>)))"

definition iterate_delegations ::
  "gov_keeper \<Rightarrow> string \<Rightarrow> (string \<Rightarrow> delegation \<Rightarrow> gov_store \<Rightarrow> gov_store res) \<Rightarrow> gov_store \<Rightarrow> gov_store res" where
  "iterate_delegations k delegatorAddr body s = (case DelegationsOf (staking s) delegatorAddr of
     Inl (Err e) \<Rightarrow> Inl (Err e) | Inl (Panic e) \<Rightarrow> Inl (Panic e)
   | Inr ds \<Rightarrow> foldR (\<lambda>d s. bindR (must (ValAddressFromBech32 k (del_Validator d))) (\<lambda>valAddr. body valAddr d s)) ds s)"

definition UndelegateFromGovernor :: "gov_keeper \<Rightarrow> string \<Rightarrow> gov_store \<Rightarrow> gov_store res" where
  "UndelegateFromGovernor k delegatorAddr s = (case store_get (GovernanceDelegations s) delegatorAddr of
     None \<Rightarrow> Inl (Err ''governance delegation does not exist'')
   | Some gd \<Rightarrow> bindR (MustGovernorAddressFromBech32 k (gd_Governor gd)) (\<lambda>govAddr.
       bindR (iterate_delegations k delegatorAddr (\<lambda>valAddr d s.
         bindR (DecreaseGovernorShares k govAddr valAddr (del_Shares d) s) (\<lambda>s.
         Inr (if delegatorAddr = govAddr then s\<lparr>ActiveGovernorsByDelegatedValidator :=
           store_rem (ActiveGovernorsByDelegatedValidator s) (AccKey valAddr, govAddr)\<rparr> else s))) s) (\<lambda>s.
       RemoveGovernanceDelegation k delegatorAddr s)))"

definition DelegateToGovernor :: "gov_keeper \<Rightarrow> string \<Rightarrow> string \<Rightarrow> gov_store \<Rightarrow> gov_store res" where
  "DelegateToGovernor k delegatorAddr governorAddr s =
     bindR (NewGovernanceDelegation k delegatorAddr governorAddr) (\<lambda>gd.
     bindR (SetGovernanceDelegation k gd s) (\<lambda>s.
     iterate_delegations k delegatorAddr (\<lambda>valAddr d s.
       bindR (IncreaseGovernorShares k governorAddr valAddr (del_Shares d) s) (\<lambda>s.
       Inr (if delegatorAddr = governorAddr then s\<lparr>ActiveGovernorsByDelegatedValidator :=
         store_put (ActiveGovernorsByDelegatedValidator s) (AccKey valAddr, governorAddr) ()\<rparr> else s))) s))"

definition RedelegateToGovernor :: "gov_keeper \<Rightarrow> string \<Rightarrow> string \<Rightarrow> gov_store \<Rightarrow> gov_store res" where
  "RedelegateToGovernor k delegatorAddr dstGovernorAddr s =
     bindR (UndelegateFromGovernor k delegatorAddr s) (DelegateToGovernor k delegatorAddr dstGovernorAddr)"

definition setActiveGovernorIndexEntries :: "gov_keeper \<Rightarrow> string \<Rightarrow> gov_store \<Rightarrow> gov_store res" where
  "setActiveGovernorIndexEntries k govAddr s = iterate_delegations k govAddr (\<lambda>valAddr d s.
     Inr (s\<lparr>ActiveGovernorsByDelegatedValidator :=
       store_put (ActiveGovernorsByDelegatedValidator s) (AccKey valAddr, govAddr) ()\<rparr>)) s"

definition removeActiveGovernorIndexEntries :: "gov_keeper \<Rightarrow> string \<Rightarrow> gov_store \<Rightarrow> gov_store res" where
  "removeActiveGovernorIndexEntries k govAddr s = iterate_delegations k govAddr (\<lambda>valAddr d s.
     Inr (s\<lparr>ActiveGovernorsByDelegatedValidator :=
       store_rem (ActiveGovernorsByDelegatedValidator s) (AccKey valAddr, govAddr)\<rparr>)) s"

section \<open>Staking hooks\<close>

definition setGovernorInactive :: "gov_keeper \<Rightarrow> time \<Rightarrow> governor \<Rightarrow> gov_store \<Rightarrow> gov_store res" where
  "setGovernorInactive k blockTime g s =
     bindR (Governor_GetAddress k g) (\<lambda>addr.
     removeActiveGovernorIndexEntries k addr
       (s\<lparr>Governors := store_put (Governors s) addr
          (g\<lparr>gvn_Status := Inactive, LastStatusChangeTime := Some blockTime\<rparr>)\<rparr>))"

text \<open>A delegation that is not found is the zero value in the first hook: its nil shares panic in the subtraction.\<close>

definition BeforeDelegationSharesModified :: "gov_keeper \<Rightarrow> string \<Rightarrow> string \<Rightarrow> gov_store \<Rightarrow> gov_store res" where
  "BeforeDelegationSharesModified k delAddr valAddr s = (case store_get (GovernanceDelegations s) delAddr of
     None \<Rightarrow> Inr s
   | Some gd \<Rightarrow> bindR (MustGovernorAddressFromBech32 k (gd_Governor gd)) (\<lambda>govAddr.
       case GetDelegation (staking s) delAddr valAddr of
         Inr d \<Rightarrow> DecreaseGovernorShares k govAddr valAddr (del_Shares d) s
       | Inl (Panic e) \<Rightarrow> Inl (Panic e)
       | Inl (Err _) \<Rightarrow> (case store_get (ValidatorSharesByGovernor s) (AccKey govAddr, valAddr) of
           None \<Rightarrow> Inl (Panic ''cannot decrease shares for a non-existent governor delegation'')
         | Some _ \<Rightarrow> Inl (Panic ''nil pointer dereference''))))"

definition AfterDelegationModified :: "gov_keeper \<Rightarrow> time \<Rightarrow> string \<Rightarrow> string \<Rightarrow> gov_store \<Rightarrow> gov_store res" where
  "AfterDelegationModified k blockTime delAddr valAddr s = (case store_get (GovernanceDelegations s) delAddr of
     None \<Rightarrow> Inr s
   | Some gd \<Rightarrow> bindR (GetDelegation (staking s) delAddr valAddr) (\<lambda>d.
       bindR (MustGovernorAddressFromBech32 k (gd_Governor gd)) (\<lambda>govAddr.
       bindR (IncreaseGovernorShares k govAddr valAddr (del_Shares d) s) (\<lambda>s.
       if delAddr \<noteq> govAddr then Inr s
       else bindR (not_nil ''collections: not found: governor'' (store_get (Governors s) delAddr)) (\<lambda>g.
         if \<not> Governor_IsActive g then Inr s
         else if gvn_Address g \<noteq> gd_Governor gd then Inl (Panic ''active governor delegating to another governor'')
         else bindR (ValidateGovernorMinSelfDelegation k s g) (\<lambda>ok.
           if \<not> ok then setGovernorInactive k blockTime g s
           else Inr (s\<lparr>ActiveGovernorsByDelegatedValidator :=
             store_put (ActiveGovernorsByDelegatedValidator s) (AccKey valAddr, delAddr) ()\<rparr>)))))))"

definition BeforeDelegationRemoved :: "gov_keeper \<Rightarrow> time \<Rightarrow> string \<Rightarrow> string \<Rightarrow> gov_store \<Rightarrow> gov_store res" where
  "BeforeDelegationRemoved k blockTime delAddr valAddr s = (case store_get (Governors s) delAddr of
     None \<Rightarrow> Inr s
   | Some g \<Rightarrow> (let s = s\<lparr>ActiveGovernorsByDelegatedValidator :=
         store_rem (ActiveGovernorsByDelegatedValidator s) (AccKey valAddr, delAddr)\<rparr> in
       if \<not> Governor_IsActive g then Inr s
       else case store_get (GovernanceDelegations s) delAddr of
         None \<Rightarrow> Inl (Panic ''active governor without governance self-delegation'')
       | Some gd \<Rightarrow> if gvn_Address g \<noteq> gd_Governor gd then Inl (Panic ''active governor delegating to another governor'')
           else bindR (ValAddress_String k valAddr) (\<lambda>str.
             bindR (validateGovernorMinSelfDelegationWithExclusions k s g [str]) (\<lambda>ok.
             if \<not> ok then setGovernorInactive k blockTime g s else Inr s))))"

definition walkGovernorsForValidator ::
  "gov_store \<Rightarrow> string \<Rightarrow> (governor \<Rightarrow> governor list \<Rightarrow> governor list res) \<Rightarrow> governor list res" where
  "walkGovernorsForValidator s valAddr body = foldR (\<lambda>((v, govAddr), _) acc.
     case store_get (Governors s) govAddr of
       None \<Rightarrow> Inl (Panic ''ActiveGovernorsByDelegatedValidator references a non-existent governor'')
     | Some g \<Rightarrow> if \<not> Governor_IsActive g then Inr acc else body g acc)
     (filter (\<lambda>((v, _), _). v = AccKey valAddr) (store_walk (ActiveGovernorsByDelegatedValidator s))) []"

definition BeforeValidatorSlashed :: "gov_keeper \<Rightarrow> time \<Rightarrow> string \<Rightarrow> dec \<Rightarrow> gov_store \<Rightarrow> gov_store res" where
  "BeforeValidatorSlashed k blockTime valAddr fraction s = (case GetValidator (staking s) valAddr of
     Inl (Err _) \<Rightarrow> Inr s | Inl (Panic e) \<Rightarrow> Inl (Panic e)
   | Inr validator \<Rightarrow> if DelegatorShares validator = 0 then Inr s
       else bindR (walkGovernorsForValidator s valAddr (\<lambda>g toDeactivate.
           bindR (Governor_GetAddress k g) (\<lambda>govAddr.
           case GetDelegation (staking s) govAddr valAddr of
             Inl _ \<Rightarrow> Inl (Panic ''active governor to validator index out of sync with staking delegation'')
           | Inr d \<Rightarrow> bindR (GetGovernorBondedTokens k s govAddr) (\<lambda>totalBonded.
               bindR (dec_MulInt (mth k) (del_Shares d) (BondedTokens validator)) (\<lambda>x.
               bindR (dec_Quo (mth k) x (DelegatorShares validator)) (\<lambda>delBonded.
               bindR (dec_Mul (mth k) delBonded fraction) (\<lambda>y. bindR (dec_TruncateInt (mth k) y) (\<lambda>slashImpact.
               bindR (int_Sub (mth k) totalBonded slashImpact) (\<lambda>postSlashBonded.
               bindR (validateGovernorMinSelfDelegationWithTotalBonded k s g postSlashBonded) (\<lambda>ok.
               Inr (if ok then toDeactivate else toDeactivate @ [g]))))))))))) (\<lambda>toDeactivate.
         foldR (setGovernorInactive k blockTime) toDeactivate s))"

definition AfterValidatorBeginUnbonding :: "gov_keeper \<Rightarrow> time \<Rightarrow> string \<Rightarrow> gov_store \<Rightarrow> gov_store res" where
  "AfterValidatorBeginUnbonding k blockTime valAddr s =
     bindR (walkGovernorsForValidator s valAddr (\<lambda>g toDeactivate.
       bindR (ValidateGovernorMinSelfDelegation k s g) (\<lambda>ok. Inr (if ok then toDeactivate else toDeactivate @ [g])))) (\<lambda>toDeactivate.
     foldR (setGovernorInactive k blockTime) toDeactivate s)"

end
