(* ===== verification/GovTally.thy ===== *)
theory GovTally
  imports GovDelegation
begin

text \<open>
  Counting the votes of a proposal (\<^verbatim>\<open>x/gov/keeper/tally.go\<close>): every vote counts with the staked
  tokens of the voter, a governor who voted counts in addition with the shares of its
  delegators, less the shares of those delegators who voted themselves.

  The Go maps of the source (bonded validators, governors seen, shares and deductions of a
  governor) are stores in the order of their keys; the results are a partial function from
  options. Where the source ranges over such a map the sums do not depend on the order, since
  \<^verbatim>\<open>LegacyDec.Add\<close> is exact.
\<close>

record governor_gov_info =
  gi_Address :: string
  ValShares :: "(string, dec) store"
  ValSharesDeductions :: "(string, dec) store"
  gi_Vote :: weighted_vote_options

type_synonym tally_map = "vote_option \<rightharpoonup> dec"

definition NewGovernorGovInfo :: "string \<Rightarrow> governor_val_shares list \<Rightarrow> weighted_vote_options \<Rightarrow> governor_gov_info" where
  "NewGovernorGovInfo address valShares options =
     \<lparr>gi_Address = address,
      ValShares = foldl (\<lambda>m vs. store_put m (gvs_Validator vs) (Shares vs)) [] valShares,
      ValSharesDeductions = foldl (\<lambda>m vs. store_put m (gvs_Validator vs) 0) [] valShares,
      gi_Vote = options\<rparr>"

definition ToLower :: "string \<Rightarrow> string" where
  "ToLower s = map (\<lambda>c. if 65 \<le> (of_char c :: nat) \<and> (of_char c :: nat) \<le> 90 then char_of ((of_char c :: nat) + 32) else c) s"

definition canonicalValAddr :: "string \<Rightarrow> string" where
  "canonicalValAddr addr = ToLower addr"

definition getBondedValidatorsByAddress :: "gov_store \<Rightarrow> (string, validator) store res" where
  "getBondedValidatorsByAddress s = bindR (BondedValidatorsByPower (staking s)) (\<lambda>vs.
     Inr (foldl (\<lambda>m v. store_put m (canonicalValAddr (val_Operator v)) v) [] vs))"

text \<open>The voting power of shares on a validator: shares times bonded tokens over all shares.\<close>

definition share_power :: "math_ops \<Rightarrow> dec \<Rightarrow> validator \<Rightarrow> dec res" where
  "share_power M shares val = bindR (dec_MulInt M shares (BondedTokens val)) (\<lambda>x. dec_Quo M x (DelegatorShares val))"

text \<open>Adding the power of a vote to the results; an option without an entry is a nil number, which panics in \<^verbatim>\<open>Add\<close>.\<close>

definition addResults :: "gov_keeper \<Rightarrow> bool \<Rightarrow> weighted_vote_options \<Rightarrow> dec \<Rightarrow> tally_map \<Rightarrow> tally_map res" where
  "addResults k isFinal options votingPower results = (if \<not> isFinal then Inr results
     else foldR (\<lambda>w r. bindR (WeightedVoteOption_Power (mth k) (numtext k) w votingPower) (\<lambda>subPower.
       bindR (deref (r (Option w))) (\<lambda>old. bindR (dec_Add (mth k) old subPower) (\<lambda>new. Inr (r(Option w \<mapsto> new)))))) options results)"

definition tallyDelegation ::
  "gov_keeper \<Rightarrow> (string, validator) store \<Rightarrow> bool \<Rightarrow> weighted_vote_options \<Rightarrow> bool \<Rightarrow> delegation \<Rightarrow>
   (string, dec) store \<times> dec \<times> tally_map \<Rightarrow> ((string, dec) store \<times> dec \<times> tally_map) res" where
  "tallyDelegation k currValidators isFinal options hasGovernor d = (\<lambda>(deductions, total, results).
     let valAddrStr = canonicalValAddr (del_Validator d) in
     bindR (case store_get currValidators valAddrStr of
         None \<Rightarrow> Inr (0, deductions)
       | Some val \<Rightarrow> bindR (share_power (mth k) (del_Shares d) val) (\<lambda>p. bindR (dec_Add (mth k) 0 p) (\<lambda>votingPower.
           if hasGovernor then (case store_get deductions valAddrStr of
               None \<Rightarrow> Inr (votingPower, deductions)
             | Some deduction \<Rightarrow> bindR (dec_Add (mth k) deduction (del_Shares d)) (\<lambda>x.
                 Inr (votingPower, store_put deductions valAddrStr x)))
           else Inr (votingPower, deductions)))) (\<lambda>(votingPower, deductions).
     bindR (dec_Add (mth k) total votingPower) (\<lambda>total.
     bindR (addResults k isFinal options votingPower results) (\<lambda>results. Inr (deductions, total, results)))))"

record tally_state =
  ts_store :: gov_store
  allGovernors :: "(string, governor_gov_info) store"
  totalVotingPower :: dec
  results :: tally_map

definition governor_shares :: "gov_store \<Rightarrow> string \<Rightarrow> governor_val_shares list" where
  "governor_shares s govAddr = map snd (filter (\<lambda>((g, _), _). g = AccKey govAddr) (store_walk (ValidatorSharesByGovernor s)))"

definition lookupGovernor :: "gov_keeper \<Rightarrow> gov_store \<Rightarrow> (string, governor_gov_info) store \<Rightarrow> string \<Rightarrow> governor_gov_info res" where
  "lookupGovernor k s governors address = (case store_get governors address of Some gi \<Rightarrow> Inr gi
     | None \<Rightarrow> bindR (MustGovernorAddressFromBech32 k address) (\<lambda>govAddr.
         Inr (NewGovernorGovInfo govAddr (governor_shares s govAddr) [])))"

definition tallyVote ::
  "gov_keeper \<Rightarrow> (string, validator) store \<Rightarrow> bool \<Rightarrow> (int \<times> acc_key) \<times> vote \<Rightarrow> tally_state \<Rightarrow> tally_state res" where
  "tallyVote k currValidators isFinal = (\<lambda>(_, vote) ts. let s = ts_store ts in
     bindR (StringToBytes (gov_codec k) (Voter vote)) (\<lambda>voter.
     bindR (case store_get (GovernanceDelegations s) voter of None \<Rightarrow> Inr None
       | Some gd \<Rightarrow> bindR (lookupGovernor k s (allGovernors ts) (gd_Governor gd)) (\<lambda>gi.
           bindR (GovernorAddress_String k voter) (\<lambda>own.
           Inr (Some (gd_Governor gd, if gd_Governor gd = own then gi\<lparr>gi_Vote := Options vote\<rparr> else gi))))) (\<lambda>gov.
     bindR (DelegationsOf (staking s) voter) (\<lambda>delegations.
     bindR (foldR (tallyDelegation k currValidators isFinal (Options vote) (gov \<noteq> None)) delegations
         (case gov of None \<Rightarrow> [] | Some (_, gi) \<Rightarrow> ValSharesDeductions gi, totalVotingPower ts, results ts))
       (\<lambda>(deductions, total, res).
     Inr (ts\<lparr>allGovernors := (case gov of None \<Rightarrow> allGovernors ts
            | Some (address, gi) \<Rightarrow> store_put (allGovernors ts) address (gi\<lparr>ValSharesDeductions := deductions\<rparr>)),
          totalVotingPower := total, results := res,
          ts_store := (if isFinal
            then s\<lparr>Votes := store_rem (Votes s) (vote_ProposalId vote, AccKey voter)\<rparr> else s)\<rparr>))))))"

definition getGovernorVotingPower :: "math_ops \<Rightarrow> governor_gov_info \<Rightarrow> (string, validator) store \<Rightarrow> dec res" where
  "getGovernorVotingPower M gi currValidators = foldR (\<lambda>(valAddrStr, shares) votingPower.
     case store_get currValidators valAddrStr of None \<Rightarrow> Inr votingPower
     | Some val \<Rightarrow> bindR (deref (store_get (ValSharesDeductions gi) valAddrStr)) (\<lambda>deduction.
         bindR (dec_Sub M shares deduction) (\<lambda>sharesAfterDeductions.
         bindR (share_power M sharesAfterDeductions val) (\<lambda>p. dec_Add M votingPower p))))
     (store_walk (ValShares gi)) 0"

text \<open>A governor that is not in the store is the zero value, which is not active.\<close>

definition is_voting_governor :: "gov_keeper \<Rightarrow> gov_store \<Rightarrow> governor_gov_info \<Rightarrow> bool res" where
  "is_voting_governor k s gi = (case store_get (Governors s) (gi_Address gi) of None \<Rightarrow> Inr False
     | Some g \<Rightarrow> bindR (ValidateGovernorMinSelfDelegation k s g) (\<lambda>ok. Inr (ok \<and> gi_Vote gi \<noteq> [])))"

definition getCurrGovernors :: "gov_keeper \<Rightarrow> gov_store \<Rightarrow> (string, governor_gov_info) store \<Rightarrow> governor_gov_info list res" where
  "getCurrGovernors k s governors = foldR (\<lambda>(_, gi) acc. bindR (is_voting_governor k s gi) (\<lambda>ok.
     Inr (if ok then acc @ [gi] else acc))) (store_walk governors) []"

definition tallyGovernor ::
  "gov_keeper \<Rightarrow> (string, validator) store \<Rightarrow> bool \<Rightarrow> governor_gov_info \<Rightarrow> dec \<times> tally_map \<Rightarrow> (dec \<times> tally_map) res" where
  "tallyGovernor k currValidators isFinal gi = (\<lambda>(total, results).
     bindR (getGovernorVotingPower (mth k) gi currValidators) (\<lambda>votingPower.
     bindR (addResults k isFinal (gi_Vote gi) votingPower results) (\<lambda>results.
     bindR (dec_Add (mth k) total votingPower) (\<lambda>total. Inr (total, results)))))"

definition votes_of :: "gov_store \<Rightarrow> int \<Rightarrow> ((int \<times> acc_key) \<times> vote) list" where
  "votes_of s proposalID = filter (\<lambda>((i, _), _). i = proposalID) (store_walk (Votes s))"

definition tallyVotes ::
  "gov_keeper \<Rightarrow> gov_store \<Rightarrow> proposal \<Rightarrow> (string, validator) store \<Rightarrow> bool \<Rightarrow> (gov_store \<times> dec \<times> tally_map) res" where
  "tallyVotes k s p currValidators isFinal =
     bindR (foldR (tallyVote k currValidators isFinal) (votes_of s (Id p))
       \<lparr>ts_store = s, allGovernors = [], totalVotingPower = 0,
        results = (if isFinal then [OptionYes \<mapsto> 0, OptionAbstain \<mapsto> 0, OptionNo \<mapsto> 0] else Map.empty)\<rparr>) (\<lambda>ts.
     bindR (getCurrGovernors k (ts_store ts) (allGovernors ts)) (\<lambda>currGovernors.
     bindR (foldR (tallyGovernor k currValidators isFinal) currGovernors (totalVotingPower ts, results ts)) (\<lambda>(total, res).
     Inr (ts_store ts, total, res))))"

definition getQuorumAndThreshold :: "gov_keeper \<Rightarrow> gov_store \<Rightarrow> proposal \<Rightarrow> (dec \<times> dec) res" where
  "getQuorumAndThreshold k s p = (case gov_Params s of None \<Rightarrow> Inr (0, 0)
     | Some params \<Rightarrow> let kinds = ProposalKinds k p; parse = LegacyMustNewDecFromStr (numtext k) in
         bindR (GetQuorum k s) (\<lambda>quorum. bindR (parse (Threshold params)) (\<lambda>threshold.
         bindR (if HasKindConstitutionAmendment kinds
           then bindR (GetConstitutionAmendmentQuorum k s) (\<lambda>q. bindR (parse (ConstitutionAmendmentThreshold params)) (\<lambda>t.
             Inr (if q > quorum then q else quorum, if t > threshold then t else threshold)))
           else Inr (quorum, threshold)) (\<lambda>(quorum, threshold).
         if HasKindLaw kinds
           then bindR (GetLawQuorum k s) (\<lambda>q. bindR (parse (LawThreshold params)) (\<lambda>law.
             bindR (if Endorsed p then parse (Threshold params) else Inr law) (\<lambda>t.
             Inr (if q > quorum then q else quorum, if t > threshold then t else threshold))))
           else Inr (quorum, threshold)))))"

definition NewTallyResultFromMap :: "gov_keeper \<Rightarrow> tally_map \<Rightarrow> tally_result res" where
  "NewTallyResultFromMap k r =
     bindR (bindR (deref (r OptionYes)) (dec_TruncateInt (mth k))) (\<lambda>yes.
     bindR (bindR (deref (r OptionAbstain)) (dec_TruncateInt (mth k))) (\<lambda>abstain.
     bindR (bindR (deref (r OptionNo)) (dec_TruncateInt (mth k))) (\<lambda>no.
     Inr (NewTallyResult (numtext k) yes abstain no))))"

text \<open>The outcome of a tally: passes, whether deposits are burned, the participation and the counts.\<close>

record tally_outcome =
  passes :: bool
  burnDeposits :: bool
  participation :: dec
  tallyResults :: tally_result

definition Tally :: "gov_keeper \<Rightarrow> gov_store \<Rightarrow> proposal \<Rightarrow> (gov_store \<times> tally_outcome) res" where
  "Tally k s p =
     bindR (getBondedValidatorsByAddress s) (\<lambda>currValidators.
     bindR (tallyVotes k s p currValidators True) (\<lambda>(s, total, r).
     bindR (Params_Get s) (\<lambda>params.
     bindR (NewTallyResultFromMap k r) (\<lambda>counts.
     bindR (TotalBondedTokens (staking s)) (\<lambda>totalBonded.
     if totalBonded = 0
       then Inr (s, \<lparr>passes = False, burnDeposits = False, participation = 0, tallyResults = counts\<rparr>)
     else bindR (dec_Quo (mth k) total (dec_of_int totalBonded)) (\<lambda>percentVoting.
     bindR (getQuorumAndThreshold k s p) (\<lambda>(quorum, threshold).
     if percentVoting < quorum
       then Inr (s, \<lparr>passes = False, burnDeposits = BurnVoteQuorum params, participation = percentVoting, tallyResults = counts\<rparr>)
     else bindR (deref (r OptionAbstain)) (\<lambda>abstain.
     bindR (dec_Sub (mth k) total abstain) (\<lambda>activeVotingPower.
     if activeVotingPower = 0
       then Inr (s, \<lparr>passes = False, burnDeposits = False, participation = percentVoting, tallyResults = counts\<rparr>)
     else bindR (deref (r OptionYes)) (\<lambda>yes.
     bindR (dec_Quo (mth k) yes activeVotingPower) (\<lambda>yesPercent.
     if yesPercent > threshold
       then Inr (s, \<lparr>passes = True, burnDeposits = False, participation = percentVoting, tallyResults = counts\<rparr>)
     else bindR (LegacyMustNewDecFromStr (numtext k) (BurnDepositNoThreshold params)) (\<lambda>burnDepositNoThreshold.
     bindR (deref (r OptionNo)) (\<lambda>no.
     bindR (dec_Quo (mth k) no activeVotingPower) (\<lambda>noPercent.
     Inr (s, \<lparr>passes = False, burnDeposits = noPercent > burnDepositNoThreshold, participation = percentVoting,
              tallyResults = counts\<rparr>)))))))))))))))"

definition HasReachedQuorum :: "gov_keeper \<Rightarrow> gov_store \<Rightarrow> proposal \<Rightarrow> bool res" where
  "HasReachedQuorum k s p =
     bindR (TotalBondedTokens (staking s)) (\<lambda>totalBonded.
     if totalBonded = 0 then Inr False
     else bindR (getBondedValidatorsByAddress s) (\<lambda>currValidators.
       bindR (tallyVotes k s p currValidators False) (\<lambda>(_, total, _).
       bindR (dec_Quo (mth k) total (dec_of_int totalBonded)) (\<lambda>percentVoting.
       bindR (getQuorumAndThreshold k s p) (\<lambda>(quorum, _). Inr (percentVoting \<ge> quorum))))))"

end
