(* ===== verification/UnifiedDiff.thy ===== *)
theory UnifiedDiff
  imports GovTypes
begin

text \<open>
  The patch tool of the constitution (\<^verbatim>\<open>x/gov/types/unified_diff.go\<close>): the parser of unified
  diffs and the application of their hunks. A string is its list of bytes. What the code uses of
  \<^verbatim>\<open>strings\<close> and \<^verbatim>\<open>strconv\<close> is written out first; numbers are 64 bits wide and \<^verbatim>\<open>Atoi\<close> refuses
  larger ones. Error texts are shortened and carry no line numbers.

  The specification \<open>patched\<close> says what a list of hunks does to a list of lines: the text is cut into
  unchanged parts and the old sides of the hunks, each at the line its header names, and every old
  side is replaced by the new one. Applying hunks succeeds exactly when the text can be cut in
  this way, and then gives that result.
\<close>

section \<open>Strings\<close>

fun Split :: "char \<Rightarrow> string \<Rightarrow> string list" where
  "Split sep [] = [[]]"
| "Split sep (c # s) = (if c = sep then [] # Split sep s
     else case Split sep s of [] \<Rightarrow> [[c]] | w # ws \<Rightarrow> (c # w) # ws)"

fun Join :: "string list \<Rightarrow> string \<Rightarrow> string" where
  "Join [] sep = []"
| "Join [w] sep = w"
| "Join (w # v # ws) sep = w @ sep @ Join (v # ws) sep"

definition HasPrefix :: "string \<Rightarrow> string \<Rightarrow> bool" where
  "HasPrefix s p \<longleftrightarrow> take (length p) s = p"

definition TrimPrefix :: "string \<Rightarrow> string \<Rightarrow> string" where
  "TrimPrefix s p = (if HasPrefix s p then drop (length p) s else s)"

definition TrimSuffix :: "string \<Rightarrow> string \<Rightarrow> string" where
  "TrimSuffix s p = rev (TrimPrefix (rev s) (rev p))"

text \<open>The number of bytes of the white space at the head of a string: \<^verbatim>\<open>unicode.IsSpace\<close> on its UTF-8 form.\<close>

definition space_width :: "string \<Rightarrow> nat" where
  "space_width s = (case map (of_char :: char \<Rightarrow> nat) (take 3 s) of [] \<Rightarrow> 0
     | b # bs \<Rightarrow>
         if b = 32 \<or> 9 \<le> b \<and> b \<le> 13 then 1
         else if b = 194 \<and> bs \<noteq> [] \<and> (hd bs = 133 \<or> hd bs = 160) then 2
         else if bs = [154, 128] \<and> b = 225 \<or> bs = [128, 128] \<and> b = 227 \<or> bs = [129, 159] \<and> b = 226
           \<or> b = 226 \<and> length bs = 2 \<and> hd bs = 128
             \<and> (128 \<le> last bs \<and> last bs \<le> 138 \<or> last bs = 168 \<or> last bs = 169 \<or> last bs = 175)
         then 3 else 0)"

fun fields :: "nat \<Rightarrow> string \<Rightarrow> string \<Rightarrow> string list" where
  "fields skip cur [] = (if cur = [] then [] else [cur])"
| "fields (Suc n) cur (c # s) = fields n cur s"
| "fields 0 cur (c # s) = (case space_width (c # s) of 0 \<Rightarrow> fields 0 (cur @ [c]) s
     | Suc n \<Rightarrow> (if cur = [] then [] else [cur]) @ fields n [] s)"

definition Fields :: "string \<Rightarrow> string list" where
  "Fields s = fields 0 [] s"

definition Atoi :: "string \<Rightarrow> int option" where
  "Atoi s = (let neg = (s \<noteq> [] \<and> hd s = CHR ''-''); digits = (if s \<noteq> [] \<and> (neg \<or> hd s = CHR ''+'') then tl s else s) in
     case read_nat digits of None \<Rightarrow> None
     | Some n \<Rightarrow> let i = (if neg then - int n else int n) in if - (2 ^ 63) \<le> i \<and> i < 2 ^ 63 then Some i else None)"

section \<open>Parsing\<close>

record hunk =
  SrcLine :: int
  SrcSpan :: int
  DstLine :: int
  DstSpan :: int
  Lines :: "string list"

definition parseHunkRange :: "string \<Rightarrow> (int \<times> int) res" where
  "parseHunkRange rangeStr =
     (if rangeStr = [] then Inl (Err ''empty range string'')
      else if hd rangeStr \<noteq> CHR ''-'' \<and> hd rangeStr \<noteq> CHR ''+'' then Inl (Err ''invalid range prefix'')
      else let rest = tl rangeStr in
        bindR (if CHR '','' \<in> set rest then
            (let parts = Split (CHR '','') rest in
             if length parts \<noteq> 2 then Inl (Err ''invalid range format'')
             else bindR (not_nil ''invalid line number'' (Atoi (parts ! 0))) (\<lambda>line.
               bindR (not_nil ''invalid span number'' (Atoi (parts ! 1))) (\<lambda>span. Inr (line, span))))
          else bindR (not_nil ''invalid line number'' (Atoi rest)) (\<lambda>line. Inr (line, 1))) (\<lambda>(line, span).
        if span < 0 then Inl (Err ''negative span'') else Inr (wrap64 (line - 1), span)))"

text \<open>\<^verbatim>\<open>Fields\<close> drops the white space that \<^verbatim>\<open>TrimSpace\<close> removes before it.\<close>

definition parseHunkHeader :: "string \<Rightarrow> hunk res" where
  "parseHunkHeader header = (let parts = Fields (TrimSuffix (TrimPrefix header ''@@'') ''@@'') in
     if length parts < 2 then Inl (Err ''invalid hunk header format'')
     else bindR (parseHunkRange (parts ! 0)) (\<lambda>(srcLine, srcSpan).
       bindR (parseHunkRange (parts ! 1)) (\<lambda>(dstLine, dstSpan).
       Inr \<lparr>SrcLine = srcLine, SrcSpan = srcSpan, DstLine = dstLine, DstSpan = dstSpan, Lines = []\<rparr>)))"

definition count_line :: "string \<Rightarrow> int \<times> int \<Rightarrow> (int \<times> int) res" where
  "count_line line = (\<lambda>(srcCount, dstCount).
     if line = [] then Inr (srcCount, dstCount)
     else if hd line = CHR '' '' then Inr (srcCount + 1, dstCount + 1)
     else if hd line = CHR ''-'' then Inr (srcCount + 1, dstCount)
     else if hd line = CHR ''+'' then Inr (srcCount, dstCount + 1)
     else Inl (Err ''invalid line prefix''))"

definition validateHunk :: "hunk \<Rightarrow> unit res" where
  "validateHunk h = bindR (foldR count_line (Lines h) (0, 0)) (\<lambda>(srcCount, dstCount).
     if srcCount \<noteq> SrcSpan h then Inl (Err ''source line count does not match SrcSpan'')
     else if dstCount \<noteq> DstSpan h then Inl (Err ''destination line count does not match DstSpan'')
     else Inr ())"

text \<open>One turn of the loop over the lines: the finished hunks and the open one.\<close>

definition close_hunk :: "hunk list \<Rightarrow> hunk option \<Rightarrow> hunk list res" where
  "close_hunk hunks open = (case open of None \<Rightarrow> Inr hunks
     | Some h \<Rightarrow> bindR (validateHunk h) (\<lambda>_. Inr (hunks @ [h])))"

definition parse_line :: "string \<Rightarrow> hunk list \<times> hunk option \<Rightarrow> (hunk list \<times> hunk option) res" where
  "parse_line line = (\<lambda>(hunks, open).
     if HasPrefix line ''@@'' then
       bindR (parseHunkHeader line) (\<lambda>h. bindR (close_hunk hunks open) (\<lambda>hunks. Inr (hunks, Some h)))
     else case open of
       Some h \<Rightarrow> if line \<noteq> [] \<and> hd line \<noteq> CHR '' '' \<and> hd line \<noteq> CHR ''-'' \<and> hd line \<noteq> CHR ''+''
         then Inl (Err ''invalid line prefix'') else Inr (hunks, Some (h\<lparr>Lines := Lines h @ [line]\<rparr>))
     | None \<Rightarrow> if Fields line \<noteq> [] \<and> \<not> HasPrefix line ''---'' \<and> \<not> HasPrefix line ''+++''
         then Inl (Err ''unexpected content outside of hunks'') else Inr (hunks, None))"

definition ParseUnifiedDiff :: "string \<Rightarrow> hunk list res" where
  "ParseUnifiedDiff diffStr =
     (let diffLines = rev (dropWhile (\<lambda>l. l = []) (rev (Split (CHR 0x0A) diffStr))) in
      bindR (foldR parse_line diffLines ([], None)) (\<lambda>(hunks, open).
      bindR (close_hunk hunks open) (\<lambda>hunks.
      if hunks = [] then Inl (Err ''no valid hunks found in the diff'') else Inr hunks)))"

section \<open>Application\<close>

definition control_char :: "char \<Rightarrow> bool" where
  "control_char c \<longleftrightarrow> (of_char c :: nat) < 32 \<and> (of_char c :: nat) \<noteq> 9 \<or> (of_char c :: nat) = 127"

definition validateLineContent :: "string \<Rightarrow> unit res" where
  "validateLineContent line = (if list_ex control_char line then Inl (Err ''invalid control character'') else Inr ())"

definition match_line :: "string list \<Rightarrow> nat \<Rightarrow> string \<Rightarrow> unit res" where
  "match_line srcLines srcIndex content =
     (if srcIndex \<ge> length srcLines then Inl (Err ''line at hunk position exceeds source length'')
      else if srcLines ! srcIndex \<noteq> content then Inl (Err ''line mismatch'') else Inr ())"

definition apply_line :: "string list \<Rightarrow> string \<Rightarrow> string list \<times> nat \<Rightarrow> (string list \<times> nat) res" where
  "apply_line srcLines line = (\<lambda>(res, srcIndex).
     if line = [] then Inr (res, srcIndex)
     else let content = tl line in
       if hd line = CHR '' '' then bindR (match_line srcLines srcIndex content) (\<lambda>_. Inr (res @ [content], srcIndex + 1))
       else if hd line = CHR ''-'' then bindR (match_line srcLines srcIndex content) (\<lambda>_. Inr (res, srcIndex + 1))
       else if hd line = CHR ''+'' then bindR (validateLineContent content) (\<lambda>_. Inr (res @ [content], srcIndex))
       else Inl (Err ''invalid diff line''))"

definition copy_line :: "string list \<Rightarrow> nat \<Rightarrow> string list \<Rightarrow> string list res" where
  "copy_line srcLines i res = (if i \<ge> length srcLines then Inl (Err ''source index exceeds source length'')
     else Inr (res @ [srcLines ! i]))"

definition apply_hunk :: "string list \<Rightarrow> hunk \<Rightarrow> string list \<times> nat \<Rightarrow> (string list \<times> nat) res" where
  "apply_hunk srcLines h = (\<lambda>(res, srcIndex).
     if SrcLine h > int (length srcLines) then Inl (Err ''hunk starts after the last line'')
     else if SrcLine h < int srcIndex then Inl (Err ''hunk out of order'')
     else bindR (foldR (copy_line srcLines) [srcIndex..<nat (SrcLine h)] res) (\<lambda>res.
       foldR (apply_line srcLines) (Lines h) (res, nat (SrcLine h))))"

definition applyHunks :: "string \<Rightarrow> hunk list \<Rightarrow> string list res" where
  "applyHunks srcStr hunks = (let srcLines = Split (CHR 0x0A) srcStr in
     bindR (foldR (apply_hunk srcLines) hunks ([], 0)) (\<lambda>(res, srcIndex). Inr (res @ drop srcIndex srcLines)))"

definition ApplyUnifiedDiff :: "string \<Rightarrow> string \<Rightarrow> string res" where
  "ApplyUnifiedDiff src diffStr = bindR (ParseUnifiedDiff diffStr) (\<lambda>hunks.
     bindR (applyHunks src hunks) (\<lambda>resultLines. Inr (Join resultLines [CHR 0x0A])))"

section \<open>What a patch does\<close>

text \<open>The two sides of a hunk, without the marks of its lines, and the lines a hunk may have.\<close>

definition old_side :: "string list \<Rightarrow> string list" where
  "old_side ls = map tl (filter (\<lambda>l. l \<noteq> [] \<and> (hd l = CHR '' '' \<or> hd l = CHR ''-'')) ls)"

definition new_side :: "string list \<Rightarrow> string list" where
  "new_side ls = map tl (filter (\<lambda>l. l \<noteq> [] \<and> (hd l = CHR '' '' \<or> hd l = CHR ''+'')) ls)"

definition line_ok :: "string \<Rightarrow> bool" where
  "line_ok l \<longleftrightarrow> l = [] \<or> hd l = CHR '' '' \<or> hd l = CHR ''-'' \<or> hd l = CHR ''+'' \<and> \<not> list_ex control_char (tl l)"

inductive patched :: "nat \<Rightarrow> hunk list \<Rightarrow> string list \<Rightarrow> string list \<Rightarrow> bool" where
  patched_rest: "patched i [] rest rest"
| patched_hunk: "\<lbrakk>SrcLine h = int (i + length unchanged); list_all line_ok (Lines h);
     patched (i + length unchanged + length (old_side (Lines h))) hs src dst\<rbrakk>
   \<Longrightarrow> patched i (h # hs) (unchanged @ old_side (Lines h) @ src) (unchanged @ new_side (Lines h) @ dst)"

inductive_cases patched_NilE: "patched i [] src dst"
inductive_cases patched_ConsE: "patched i (h # hs) src dst"

lemma side_simps [simp]:
  "old_side [] = []" "new_side [] = []"
  "old_side (l # ls) = (if l \<noteq> [] \<and> (hd l = CHR '' '' \<or> hd l = CHR ''-'') then tl l # old_side ls else old_side ls)"
  "new_side (l # ls) = (if l \<noteq> [] \<and> (hd l = CHR '' '' \<or> hd l = CHR ''+'') then tl l # new_side ls else new_side ls)"
  by (simp_all add: old_side_def new_side_def)

lemma match_line_Inr: "match_line src i c = Inr () \<longleftrightarrow> i < length src \<and> src ! i = c"
  by (auto simp: match_line_def)

lemma take_Suc_drop: "take (Suc n) (drop i xs) = c # ys \<longleftrightarrow> i < length xs \<and> xs ! i = c \<and> take n (drop (Suc i) xs) = ys"
  by (cases "i < length xs") (auto simp: Cons_nth_drop_Suc [symmetric])

lemma apply_line_Inr:
  "apply_line src l (r, i) = Inr (r', i') \<longleftrightarrow> line_ok l \<and>
     (l \<noteq> [] \<and> hd l \<noteq> CHR ''+'' \<longrightarrow> i < length src \<and> src ! i = tl l) \<and>
     r' = r @ new_side [l] \<and> i' = i + length (old_side [l])"
  by (auto simp: apply_line_def line_ok_def bindR_eq_Inr match_line_Inr validateLineContent_def Let_def split: if_splits)

lemma apply_lines:
  "foldR (apply_line src) ls (r, i) = Inr (r', i') \<longleftrightarrow>
     list_all line_ok ls \<and> take (length (old_side ls)) (drop i src) = old_side ls \<and>
     r' = r @ new_side ls \<and> i' = i + length (old_side ls)"
proof (induction ls arbitrary: r i)
  case (Cons l ls)
  have "foldR (apply_line src) (l # ls) (r, i) = Inr (r', i') \<longleftrightarrow>
      (\<exists>r1 i1. apply_line src l (r, i) = Inr (r1, i1) \<and> foldR (apply_line src) ls (r1, i1) = Inr (r', i'))"
    by (cases "apply_line src l (r, i)") auto
  also have "\<dots> \<longleftrightarrow> line_ok l \<and> (l \<noteq> [] \<and> hd l \<noteq> CHR ''+'' \<longrightarrow> i < length src \<and> src ! i = tl l) \<and> list_all line_ok ls \<and>
      take (length (old_side ls)) (drop (i + length (old_side [l])) src) = old_side ls \<and>
      r' = (r @ new_side [l]) @ new_side ls \<and> i' = i + length (old_side [l]) + length (old_side ls)"
    unfolding apply_line_Inr Cons.IH by blast
  also have "\<dots> \<longleftrightarrow> list_all line_ok (l # ls) \<and> take (length (old_side (l # ls))) (drop i src) = old_side (l # ls) \<and>
      r' = r @ new_side (l # ls) \<and> i' = i + length (old_side (l # ls))"
  proof (cases "line_ok l")
    case True
    then consider "l = []" | "l \<noteq> []" "hd l = CHR '' ''" | "l \<noteq> []" "hd l = CHR ''-''" | "l \<noteq> []" "hd l = CHR ''+''"
      unfolding line_ok_def by blast
    then show ?thesis by cases (simp_all add: True take_Suc_drop conj_ac)
  qed simp
  finally show ?case .
qed auto

lemma copy_lines:
  assumes "j \<le> length src"
  shows "foldR (copy_line src) [i..<j] r = Inr (r @ take (j - i) (drop i src))"
  using assms
proof (induction "j - i" arbitrary: i r)
  case (Suc n)
  then have ij: "i < j" "i < length src" by auto
  have "foldR (copy_line src) [Suc i..<j] (r @ [src ! i]) = Inr ((r @ [src ! i]) @ take (j - Suc i) (drop (Suc i) src))"
    using Suc.hyps Suc.prems by (intro Suc.hyps(1)) auto
  then show ?case
    using ij by (simp add: upt_conv_Cons copy_line_def Cons_nth_drop_Suc [symmetric] take_Cons' Suc_diff_Suc)
qed simp

lemma apply_hunk_Inr:
  assumes "i \<le> length src"
  shows "apply_hunk src h (r, i) = Inr (r', i') \<longleftrightarrow> (\<exists>unchanged rest. drop i src = unchanged @ old_side (Lines h) @ rest \<and>
     SrcLine h = int (i + length unchanged) \<and> list_all line_ok (Lines h) \<and>
     r' = r @ unchanged @ new_side (Lines h) \<and> i' = i + length unchanged + length (old_side (Lines h)) \<and> drop i' src = rest \<and> i' \<le> length src)"
  (is "?l \<longleftrightarrow> ?r")
proof
  assume l: ?l
  then have b: "int i \<le> SrcLine h" "SrcLine h \<le> int (length src)" by (auto simp: apply_hunk_def split: if_splits)
  define j where "j = nat (SrcLine h)"
  have j: "SrcLine h = int j" "i \<le> j" "j \<le> length src" using b by (auto simp: j_def)
  have a: "foldR (apply_line src) (Lines h) (r @ take (j - i) (drop i src), j) = Inr (r', i')"
    using l j by (simp add: apply_hunk_def copy_lines)
  have t: "take (length (old_side (Lines h))) (drop j src) = old_side (Lines h)" using a by (simp add: apply_lines)
  have "drop i src = take (j - i) (drop i src) @ drop j src"
    using append_take_drop_id [of "j - i" "drop i src"] j(2) by (simp add: drop_drop)
  also have "drop j src = old_side (Lines h) @ drop (j + length (old_side (Lines h))) src"
    using append_take_drop_id [of "length (old_side (Lines h))" "drop j src"] t by (simp add: drop_drop add.commute)
  finally have "drop i src = take (j - i) (drop i src) @ old_side (Lines h) @ drop (j + length (old_side (Lines h))) src" .
  moreover have "j + length (old_side (Lines h)) \<le> length src"
    using arg_cong [OF t, of length] j(3) by simp
  ultimately show ?r
    using a j by (intro exI [of _ "take (j - i) (drop i src)"] exI [of _ "drop i' src"] conjI) (simp_all add: apply_lines)
next
  assume ?r
  then obtain unchanged rest where e: "drop i src = unchanged @ old_side (Lines h) @ rest" "SrcLine h = int (i + length unchanged)"
    "list_all line_ok (Lines h)" "r' = r @ unchanged @ new_side (Lines h)"
    "i' = i + length unchanged + length (old_side (Lines h))" by blast
  have len: "i + length unchanged \<le> length src" using arg_cong [OF e(1), of length] assms by simp
  have "drop (i + length unchanged) src = old_side (Lines h) @ rest"
    using arg_cong [OF e(1), of "drop (length unchanged)"] by (simp add: drop_drop add.commute)
  then have "foldR (apply_line src) (Lines h) (r @ unchanged, i + length unchanged) = Inr (r', i')"
    using e by (simp add: apply_lines)
  then show ?l using e(1,2) len by (simp add: apply_hunk_def copy_lines nat_int_add)
qed

lemma apply_hunks:
  assumes "i \<le> length src"
  shows "bindR (foldR (apply_hunk src) hs (r, i)) (\<lambda>(r, i). Inr (r @ drop i src)) = Inr out \<longleftrightarrow>
     (\<exists>dst. out = r @ dst \<and> patched i hs (drop i src) dst)"
  using assms
proof (induction hs arbitrary: r i)
  case Nil
  show ?case by (auto intro: patched_rest elim: patched_NilE)
next
  case (Cons h hs)
  have "bindR (foldR (apply_hunk src) (h # hs) (r, i)) (\<lambda>(r, i). Inr (r @ drop i src)) = Inr out \<longleftrightarrow>
    (\<exists>r' i'. apply_hunk src h (r, i) = Inr (r', i') \<and>
       bindR (foldR (apply_hunk src) hs (r', i')) (\<lambda>(r, i). Inr (r @ drop i src)) = Inr out)"
    by (cases "apply_hunk src h (r, i)") auto
  also have "\<dots> \<longleftrightarrow> (\<exists>dst. out = r @ dst \<and> patched i (h # hs) (drop i src) dst)" (is "?l \<longleftrightarrow> ?r")
  proof
    assume ?l
    then obtain r' i' where a: "apply_hunk src h (r, i) = Inr (r', i')"
      "bindR (foldR (apply_hunk src) hs (r', i')) (\<lambda>(r, i). Inr (r @ drop i src)) = Inr out" by blast
    then have i': "i' \<le> length src" using apply_hunk_Inr [OF Cons.prems] by blast
    obtain dst where d: "out = r' @ dst" "patched i' hs (drop i' src) dst" using a(2) Cons.IH [OF i'] by blast
    from a(1) apply_hunk_Inr [OF Cons.prems] obtain unchanged where
      u: "drop i src = unchanged @ old_side (Lines h) @ drop i' src" "SrcLine h = int (i + length unchanged)"
      "list_all line_ok (Lines h)" "r' = r @ unchanged @ new_side (Lines h)"
      "i' = i + length unchanged + length (old_side (Lines h))" by blast
    have "patched i (h # hs) (drop i src) (unchanged @ new_side (Lines h) @ dst)"
      unfolding u(1) by (rule patched_hunk [OF u(2,3)]) (use d(2) u(5) in simp)
    then show ?r using d(1) u(4) by auto
  next
    assume ?r
    then obtain dst where o: "out = r @ dst" and pt: "patched i (h # hs) (drop i src) dst" by blast
    from pt obtain unchanged src' dst' where
      u: "drop i src = unchanged @ old_side (Lines h) @ src'" "dst = unchanged @ new_side (Lines h) @ dst'"
        "SrcLine h = int (i + length unchanged)" "list_all line_ok (Lines h)"
        "patched (i + length unchanged + length (old_side (Lines h))) hs src' dst'" by (elim patched_ConsE) (rule that, simp_all)
    define i' where "i' = i + length unchanged + length (old_side (Lines h))"
    have d: "drop i' src = src'"
      using arg_cong [OF u(1), of "drop (length unchanged + length (old_side (Lines h)))"]
      by (simp add: i'_def drop_drop ac_simps)
    have len: "i' \<le> length src" using arg_cong [OF u(1), of length] Cons.prems by (simp add: i'_def)
    have "apply_hunk src h (r, i) = Inr (r @ unchanged @ new_side (Lines h), i')"
      unfolding apply_hunk_Inr [OF Cons.prems] using u d len by (auto simp: i'_def)
    moreover have "bindR (foldR (apply_hunk src) hs (r @ unchanged @ new_side (Lines h), i')) (\<lambda>(r, i). Inr (r @ drop i src)) = Inr out"
      unfolding Cons.IH [OF len] using o u(2,5) d by (auto simp: i'_def)
    ultimately show ?l by blast
  qed
  finally show ?case .
qed

lemma applyHunks_iff: "applyHunks src hunks = Inr out \<longleftrightarrow> patched 0 hunks (Split (CHR 0x0A) src) out"
  using apply_hunks [of 0 "Split (CHR 0x0A) src" hunks "[]" out] by (simp add: applyHunks_def Let_def)

text \<open>The hunks of a parsed diff have the number of lines their headers announce.\<close>

lemma count_lines:
  "foldR count_line ls (a, b) = Inr (a', b') \<Longrightarrow> a' = a + int (length (old_side ls)) \<and> b' = b + int (length (new_side ls))"
proof (induction ls arbitrary: a b)
  case (Cons l ls)
  then obtain a1 b1 where "count_line l (a, b) = Inr (a1, b1)" "foldR count_line ls (a1, b1) = Inr (a', b')"
    by (auto simp: bindR_eq_Inr)
  with Cons.IH [OF this(2)] show ?case by (simp add: count_line_def split: if_splits)
qed simp

lemma validateHunk_spans:
  assumes "validateHunk h = Inr ()"
  shows "int (length (old_side (Lines h))) = SrcSpan h" and "int (length (new_side (Lines h))) = DstSpan h"
  using assms count_lines [of "Lines h" 0 0] by (auto simp: validateHunk_def bindR_eq_Inr split: if_splits)

lemma ParseUnifiedDiff_valid:
  assumes "ParseUnifiedDiff d = Inr hs"
  shows "hs \<noteq> []" and "\<And>h. h \<in> set hs \<Longrightarrow> validateHunk h = Inr ()"
proof -
  have close: "list_all (\<lambda>h. validateHunk h = Inr ()) hs'"
    if "close_hunk hunks o' = Inr hs'" "list_all (\<lambda>h. validateHunk h = Inr ()) hunks" for hunks o' hs'
    using that by (auto simp: close_hunk_def bindR_eq_Inr split: option.splits)
  from assms obtain hunks o' where
    f: "foldR parse_line (rev (dropWhile (\<lambda>l. l = []) (rev (Split (CHR 0x0A) d)))) ([], None) = Inr (hunks, o')"
    and c: "close_hunk hunks o' = Inr hs" "hs \<noteq> []"
    by (auto simp: ParseUnifiedDiff_def bindR_eq_Inr Let_def split: if_splits)
  have "list_all (\<lambda>h. validateHunk h = Inr ()) (fst (hunks, o'))"
  proof (rule foldR_invariant [OF f, where I = "\<lambda>st. list_all (\<lambda>h. validateHunk h = Inr ()) (fst st)"])
    fix l st st' assume st: "list_all (\<lambda>h. validateHunk h = Inr ()) (fst st)" and e: "parse_line l st = Inr st'"
    obtain hu op where [simp]: "st = (hu, op)" by (cases st)
    show "list_all (\<lambda>h. validateHunk h = Inr ()) (fst st')"
      using e st close [of hu op] by (auto simp: parse_line_def bindR_eq_Inr split: if_splits option.splits)
  qed simp
  then show "\<And>h. h \<in> set hs \<Longrightarrow> validateHunk h = Inr ()" using close [OF c(1)] by (auto simp: list_all_iff)
  show "hs \<noteq> []" by (rule c(2))
qed

lemma patched_length:
  assumes "patched i hs src dst" and "\<And>h. h \<in> set hs \<Longrightarrow> validateHunk h = Inr ()"
  shows "int (length dst) = int (length src) + (\<Sum>h \<leftarrow> hs. DstSpan h - SrcSpan h)"
  using assms
proof induction
  case (patched_hunk h i unchanged hs src dst)
  then show ?case using validateHunk_spans [of h] by simp
qed simp

text \<open>C6: A diff is applied exactly when its hunks fit the text: the constitution can be cut into unchanged
  parts and the old sides of the hunks, each hunk at the line its header names and in order, every
  inserted line free of control characters; the result has the new sides in their place and
  every other line as it was, and its number of lines grows by the spans announced in the headers.
\<close>

theorem ApplyUnifiedDiff_correct:
  "ApplyUnifiedDiff src diffStr = Inr updated \<longleftrightarrow>
     (\<exists>hunks dst. ParseUnifiedDiff diffStr = Inr hunks \<and> hunks \<noteq> [] \<and>
        patched 0 hunks (Split (CHR 0x0A) src) dst \<and> updated = Join dst [CHR 0x0A] \<and>
        int (length dst) = int (length (Split (CHR 0x0A) src)) + (\<Sum>h \<leftarrow> hunks. DstSpan h - SrcSpan h))"
proof -
  have "int (length dst) = int (length (Split (CHR 0x0A) src)) + (\<Sum>h \<leftarrow> hunks. DstSpan h - SrcSpan h)" "hunks \<noteq> []"
    if "ParseUnifiedDiff diffStr = Inr hunks" "patched 0 hunks (Split (CHR 0x0A) src) dst" for hunks dst
    using patched_length [OF that(2)] ParseUnifiedDiff_valid [OF that(1)] by blast+
  moreover have "ApplyUnifiedDiff src diffStr = Inr updated \<longleftrightarrow> (\<exists>hunks dst. ParseUnifiedDiff diffStr = Inr hunks \<and>
      patched 0 hunks (Split (CHR 0x0A) src) dst \<and> updated = Join dst [CHR 0x0A])"
    by (auto simp: ApplyUnifiedDiff_def bindR_eq_Inr applyHunks_iff)
  ultimately show ?thesis by blast
qed

text \<open>
  A hunk whose source range is empty, such as \<^verbatim>\<open>-1,0\<close>, names in a unified diff the line after which
  the new lines come; the parser lowers every line number by one, so they are inserted before that
  line, and a hunk at \<^verbatim>\<open>-0,0\<close> (before the first line) never applies.
\<close>

lemma empty_range_inserts_before:
  "ApplyUnifiedDiff (Join [''a'', ''b''] [CHR 0x0A]) (Join [''@@ -1,0 +2 @@'', ''+x''] [CHR 0x0A])
     = Inr (Join [''x'', ''a'', ''b''] [CHR 0x0A])"
  by code_simp

lemma empty_range_at_start_fails:
  "ApplyUnifiedDiff ''a'' (Join [''@@ -0,0 +1 @@'', ''+x''] [CHR 0x0A]) = Inl (Err ''hunk out of order'')"
  by code_simp

end
