(* ===== verification/GovProposal.thy ===== *)
theory GovProposal
  imports GovTally UnifiedDiff
begin

text \<open>
  Proposals, deposits and votes: \<^verbatim>\<open>x/gov/keeper/proposal.go\<close>, \<^verbatim>\<open>deposit.go\<close>, \<^verbatim>\<open>vote.go\<close> and
  \<^verbatim>\<open>constitution.go\<close>, with the inspection of nested messages of \<^verbatim>\<open>types/v1/msgs.go\<close>. A call that fails
  returns no state, as the store is discarded. Events, logs and gas are left out. A message is kept
  packed; \<open>UnpackAny\<close> of the keeper gives what it holds, and \<open>None\<close> for a type that is not
  registered with the codec.
\<close>

section \<open>Reading and writing proposals\<close>

text \<open>
  Reading a proposal decodes its messages as well; a message whose type is not registered makes the
  read fail with an encoding error, beside which the decoded proposal is returned.
\<close>

datatype proposal_read = NotFound | Undecodable proposal | Found proposal

definition Proposals_Read :: "gov_keeper \<Rightarrow> gov_store \<Rightarrow> int \<Rightarrow> proposal_read" where
  "Proposals_Read k s proposalID = (case store_get (Proposals s) proposalID of None \<Rightarrow> NotFound
     | Some p \<Rightarrow> if \<forall>m \<in> set (Messages p). UnpackAny k m \<noteq> None then Found p else Undecodable p)"

definition Proposals_Get :: "gov_keeper \<Rightarrow> gov_store \<Rightarrow> int \<Rightarrow> proposal res" where
  "Proposals_Get k s proposalID = (case Proposals_Read k s proposalID of Found p \<Rightarrow> Inr p
     | NotFound \<Rightarrow> Inl (Err ''collections: not found'') | Undecodable _ \<Rightarrow> Inl (Err ''collections: encoding error''))"

definition SetProposal :: "proposal \<Rightarrow> gov_store \<Rightarrow> gov_store" where
  "SetProposal p s = s\<lparr>VotingPeriodProposals := (if Status p = StatusVotingPeriod
       then store_put (VotingPeriodProposals s) (Id p) () else store_rem (VotingPeriodProposals s) (Id p)),
     Proposals := store_put (Proposals s) (Id p) p\<rparr>"

text \<open>The walk over the quorum-check queue stops after the first entry of the proposal.\<close>

definition remove_quorum_check :: "int \<Rightarrow> gov_store \<Rightarrow> gov_store" where
  "remove_quorum_check proposalID s = (case find (\<lambda>((_, i), _). i = proposalID) (store_walk (QuorumCheckQueue s)) of
     None \<Rightarrow> s | Some (key, _) \<Rightarrow> s\<lparr>QuorumCheckQueue := store_rem (QuorumCheckQueue s) key\<rparr>)"

definition DeleteProposal :: "gov_keeper \<Rightarrow> int \<Rightarrow> gov_store \<Rightarrow> gov_store res" where
  "DeleteProposal k proposalID s = bindR (Proposals_Get k s proposalID) (\<lambda>p.
     let s1 = (case DepositEndTime p of None \<Rightarrow> s
           | Some t \<Rightarrow> s\<lparr>InactiveProposalsQueue := store_rem (InactiveProposalsQueue s) (t, proposalID)\<rparr>);
         s2 = (case VotingEndTime p of None \<Rightarrow> s1
           | Some t \<Rightarrow> remove_quorum_check proposalID
               (s1\<lparr>ActiveProposalsQueue := store_rem (ActiveProposalsQueue s1) (t, proposalID),
                   VotingPeriodProposals := store_rem (VotingPeriodProposals s1) proposalID\<rparr>))
     in Inr (s2\<lparr>Proposals := store_rem (Proposals s2) proposalID\<rparr>))"

definition ActivateVotingPeriod :: "gov_keeper \<Rightarrow> time \<Rightarrow> proposal \<Rightarrow> gov_store \<Rightarrow> gov_store res" where
  "ActivateVotingPeriod k blockTime proposal s = bindR (Params_Get s) (\<lambda>params.
     bindR (deref (VotingPeriod params)) (\<lambda>votingPeriod.
     let endTime = Time_Add blockTime votingPeriod;
         p = proposal\<lparr>VotingStartTime := Some blockTime, VotingEndTime := Some endTime, Status := StatusVotingPeriod\<rparr>;
         s1 = SetProposal p s in
     bindR (deref (DepositEndTime p)) (\<lambda>depositEnd.
     let s2 = s1\<lparr>InactiveProposalsQueue := store_rem (InactiveProposalsQueue s1) (depositEnd, Id p)\<rparr>;
         s3 = s2\<lparr>ActiveProposalsQueue := store_put (ActiveProposalsQueue s2) (endTime, Id p) (Id p)\<rparr> in
     bindR (UpdateMinDeposit k blockTime False s3) (\<lambda>s4.
     if QuorumCheckCount params > 0
     then bindR (deref (QuorumTimeout params)) (\<lambda>quorumTimeout.
       let quorumTimeoutTime = Time_Add blockTime quorumTimeout in
       Inr (s4\<lparr>QuorumCheckQueue := store_put (QuorumCheckQueue s4) (quorumTimeoutTime, Id p)
         (NewQuorumCheckQueueEntry quorumTimeoutTime (QuorumCheckCount params))\<rparr>))
     else Inr s4))))"

section \<open>Nested messages\<close>

definition maxAuthzNestingDepth :: nat where "maxAuthzNestingDepth = 8"

definition MaxProposalMessages :: int where "MaxProposalMessages = 200"

text \<open>The first argument is the number of layers that may still be opened; the source counts the depth upwards.\<close>

fun countExecMessages :: "nat \<Rightarrow> gov_keeper \<Rightarrow> any list \<Rightarrow> int res" where
  "countExecMessages 0 k msgs = Inl (Err ''authz nesting depth exceeded'')"
| "countExecMessages (Suc n) k msgs = foldR (\<lambda>m count. case UnpackAny k m of
     None \<Rightarrow> Inr count
   | Some (MsgExec _ inner) \<Rightarrow> bindR (countExecMessages n k inner) (\<lambda>nested. Inr (count + 1 + nested))
   | Some _ \<Rightarrow> Inr (count + 1)) msgs 0"

definition CountMessages :: "gov_keeper \<Rightarrow> any list \<Rightarrow> int res" where
  "CountMessages k msgs = foldR (\<lambda>m count. case UnpackAny k m of
     Some (MsgExec _ inner) \<Rightarrow> bindR (countExecMessages maxAuthzNestingDepth k inner) (\<lambda>nested. Inr (count + 1 + nested))
   | _ \<Rightarrow> Inr (count + 1)) msgs 0"

definition leafSignedBy :: "gov_keeper \<Rightarrow> string \<Rightarrow> any \<Rightarrow> bool res" where
  "leafSignedBy k govAuthority m = bindR (GetMsgV1Signers k m) (\<lambda>signers. Inr (signers = [govAuthority]))"

fun execReachesAuthority :: "nat \<Rightarrow> gov_keeper \<Rightarrow> string \<Rightarrow> string \<Rightarrow> any list \<Rightarrow> bool res" where
  "execReachesAuthority 0 k govAuthority grantee msgs = Inl (Err ''authz nesting depth exceeded'')"
| "execReachesAuthority (Suc n) k govAuthority grantee msgs =
     bindR (AccAddressFromBech32 (gov_codec k) grantee) (\<lambda>addr.
     if addr \<noteq> govAuthority then Inr False
     else foldR (\<lambda>m reaches. if reaches then Inr True
       else case UnpackAny k m of None \<Rightarrow> Inr False
         | Some (MsgExec innerGrantee inner) \<Rightarrow> execReachesAuthority n k govAuthority innerGrantee inner
         | Some _ \<Rightarrow> leafSignedBy k govAuthority m) msgs False)"

definition ContainsSelfExecAsAuthority :: "gov_keeper \<Rightarrow> any list \<Rightarrow> string \<Rightarrow> bool res" where
  "ContainsSelfExecAsAuthority k msgs govAuthority = foldR (\<lambda>m reaches. if reaches then Inr True
     else case UnpackAny k m of
       Some (MsgExec grantee inner) \<Rightarrow> execReachesAuthority maxAuthzNestingDepth k govAuthority grantee inner
     | _ \<Rightarrow> Inr False) msgs False"

section \<open>Submission\<close>

definition check_message :: "gov_keeper \<Rightarrow> time \<Rightarrow> any \<Rightarrow> gov_store \<Rightarrow> gov_store res" where
  "check_message k blockTime m s =
     bindR (MsgValidateBasic k m) (\<lambda>_.
     bindR (GetMsgV1Signers k m) (\<lambda>signers.
     bindR (guardR (length signers = 1) (Err ''expected gov account as only signer for proposal message'')) (\<lambda>_.
     bindR (GetGovernanceAccount k s) (\<lambda>(s, govAddr).
     bindR (guardR (hd signers = govAddr) (Err ''expected gov account as only signer for proposal message'')) (\<lambda>_.
     bindR (not_nil ''proposal message not recognized by router'' (RouterHandler k m)) (\<lambda>handler.
     if UnpackAny k m = Some MsgLegacyContent then bindR (handler blockTime s) (\<lambda>_. Inr s) else Inr s))))))"

definition SubmitProposal ::
  "gov_keeper \<Rightarrow> time \<Rightarrow> any list \<Rightarrow> string \<Rightarrow> string \<Rightarrow> string \<Rightarrow> string \<Rightarrow> gov_store \<Rightarrow> (gov_store \<times> proposal) res" where
  "SubmitProposal k blockTime messages metadata title summary proposer s =
     bindR (assertMetadataLength k metadata) (\<lambda>_.
     bindR (assertSummaryLength k summary) (\<lambda>_.
     bindR (assertMetadataLength k title) (\<lambda>_.
     bindR (CountMessages k messages) (\<lambda>msgCount.
     bindR (guardR (\<not> msgCount > MaxProposalMessages) (Err ''proposal contains too many messages'')) (\<lambda>_.
     bindR (GetGovernanceAccount k s) (\<lambda>(s, govAddr).
     bindR (ContainsSelfExecAsAuthority k messages govAddr) (\<lambda>selfExec.
     bindR (guardR (\<not> selfExec) (Err ''governance proposals may not contain a self-executing authz.MsgExec'')) (\<lambda>_.
     bindR (foldR (check_message k blockTime) messages s) (\<lambda>s.
     let proposalID = (case ProposalID s of None \<Rightarrow> 0 | Some i \<Rightarrow> i); s = s\<lparr>ProposalID := Some (wrapu64 (proposalID + 1))\<rparr> in
     bindR (Params_Get s) (\<lambda>params.
     bindR (deref (MaxDepositPeriod params)) (\<lambda>depositPeriod.
     let depositEnd = Time_Add blockTime depositPeriod in
     bindR (NewProposal (gov_codec k) (numtext k) messages proposalID blockTime depositEnd metadata title summary proposer) (\<lambda>p.
     let s = SetProposal p s; s = s\<lparr>InactiveProposalsQueue := store_put (InactiveProposalsQueue s) (depositEnd, proposalID) proposalID\<rparr> in
     bindR (UpdateMinInitialDeposit k blockTime False s) (\<lambda>s.
     bindR (AfterProposalSubmission (hooks k) proposalID s) (\<lambda>s. Inr (s, p)))))))))))))))"

section \<open>Deposits\<close>

definition SetDeposit :: "gov_keeper \<Rightarrow> deposit \<Rightarrow> gov_store \<Rightarrow> gov_store res" where
  "SetDeposit k d s = bindR (StringToBytes (gov_codec k) (Depositor d)) (\<lambda>depositor.
     Inr (s\<lparr>Deposits := store_put (Deposits s) (dep_ProposalId d, AccKey depositor) d\<rparr>))"

definition deposits_of :: "gov_store \<Rightarrow> int \<Rightarrow> ((int \<times> acc_key) \<times> deposit) list" where
  "deposits_of s proposalID = filter (\<lambda>((i, _), _). i = proposalID) (store_walk (Deposits s))"

definition GetDeposits :: "gov_store \<Rightarrow> int \<Rightarrow> deposit list" where
  "GetDeposits s proposalID = map snd (deposits_of s proposalID)"

definition DeleteAndBurnDeposits :: "gov_keeper \<Rightarrow> time \<Rightarrow> int \<Rightarrow> gov_store \<Rightarrow> gov_store res" where
  "DeleteAndBurnDeposits k blockTime proposalID s =
     bindR (foldR (\<lambda>(key, d) (s, coinsToBurn). bindR (Coins_Add (mth k) coinsToBurn (dep_Amount d)) (\<lambda>sum.
       Inr (s\<lparr>Deposits := store_rem (Deposits s) key\<rparr>, sum))) (deposits_of s proposalID) (s, [])) (\<lambda>(s, coinsToBurn).
     bindR (BurnCoins (mth k) (bankKeeper k) (bank s) (Time_Unix blockTime) gov_ModuleName coinsToBurn) (\<lambda>b.
     Inr (s\<lparr>bank := b\<rparr>)))"

definition refundDeposit :: "gov_keeper \<Rightarrow> time \<Rightarrow> (int \<times> acc_key) \<times> deposit \<Rightarrow> gov_store \<Rightarrow> gov_store res" where
  "refundDeposit k blockTime = (\<lambda>(key, d) s.
     bindR (SendCoinsFromModuleToAccount (mth k) (bankKeeper k) (bank s) (Time_Unix blockTime) gov_ModuleName
       (acc_bytes (snd key)) (dep_Amount d)) (\<lambda>b.
     Inr (s\<lparr>bank := b, Deposits := store_rem (Deposits s) key\<rparr>)))"

definition RefundAndDeleteDeposits :: "gov_keeper \<Rightarrow> time \<Rightarrow> int \<Rightarrow> gov_store \<Rightarrow> gov_store res" where
  "RefundAndDeleteDeposits k blockTime proposalID s = foldR (refundDeposit k blockTime) (deposits_of s proposalID) s"

definition validateInitialDeposit :: "gov_store \<Rightarrow> coins \<Rightarrow> unit res" where
  "validateInitialDeposit s initialDeposit =
     (if \<not> Coins_IsValid initialDeposit \<or> Coins_IsAnyNegative initialDeposit then Inl (Err ''invalid coins'')
      else bindR (Coins_IsAllGTE initialDeposit (GetMinInitialDeposit s)) (\<lambda>gte.
        guardR gte (Err ''minimum deposit is too small'')))"

definition validateDepositDenom :: "gov_params \<Rightarrow> coins \<Rightarrow> unit res" where
  "validateDepositDenom params depositAmount = bindR (deref (MinDepositThrottler params)) (\<lambda>t.
     let acceptedCoins = (if FloorValue t = [] then MinDeposit params else FloorValue t) in
     guardR (\<forall>c \<in> set depositAmount. Denom c \<in> Denom ` set acceptedCoins) (Err ''invalid deposit denom''))"

text \<open>Whether some coin of the deposit reaches its share of the minimum; the loop stops at the first one.\<close>

fun depositThresholdMet :: "math_ops \<Rightarrow> dec \<Rightarrow> coins \<Rightarrow> coins \<Rightarrow> bool res" where
  "depositThresholdMet M minDepositRatio depositAmount [] = Inr False"
| "depositThresholdMet M minDepositRatio depositAmount (minDep # rest) =
     bindR (dec_Mul M (dec_of_int (Amount minDep)) minDepositRatio) (\<lambda>x. bindR (dec_TruncateInt M x) (\<lambda>a.
     bindR (NewCoin (Denom minDep) a) (\<lambda>threshold.
     case Coins_Find depositAmount (Denom minDep) of
       None \<Rightarrow> depositThresholdMet M minDepositRatio depositAmount rest
     | Some d \<Rightarrow> bindR (Coin_IsGTE d threshold) (\<lambda>gte.
         if gte then Inr True else depositThresholdMet M minDepositRatio depositAmount rest))))"

definition enoughDeposit :: "proposal \<Rightarrow> coins \<Rightarrow> bool res" where
  "enoughDeposit p minDeposit = (if Status p \<noteq> StatusDepositPeriod then Inr False
     else bindR (NewCoins (TotalDeposit p)) (\<lambda>total. Coins_IsAllGTE total minDeposit))"

definition AddDeposit ::
  "gov_keeper \<Rightarrow> time \<Rightarrow> int \<Rightarrow> string \<Rightarrow> coins \<Rightarrow> bool \<Rightarrow> gov_store \<Rightarrow> (gov_store \<times> bool) res" where
  "AddDeposit k blockTime proposalID depositorAddr depositAmount skipMinDepositRatioCheck s =
     bindR (Proposals_Get k s proposalID) (\<lambda>p.
     bindR (guardR (Status p = StatusDepositPeriod \<or> Status p = StatusVotingPeriod) (Err ''inactive proposal'')) (\<lambda>_.
     bindR (Params_Get s) (\<lambda>params.
     bindR (validateDepositDenom params depositAmount) (\<lambda>_.
     let minDepositAmount = GetMinDeposit s in
     bindR (enoughDeposit p minDepositAmount) (\<lambda>alreadyEnough.
     bindR (parseDec (numtext k) ''invalid decimal string'' (MinDepositRatio params)) (\<lambda>minDepositRatio.
     bindR (if minDepositRatio \<noteq> 0 \<and> \<not> (skipMinDepositRatioCheck \<or> alreadyEnough)
       then bindR (depositThresholdMet (mth k) minDepositRatio depositAmount minDepositAmount) (\<lambda>met.
         guardR met (Err ''minimum deposit is too small'')) else Inr ()) (\<lambda>_.
     bindR (SendCoinsFromAccountToModule (mth k) (bankKeeper k) (bank s) (Time_Unix blockTime) depositorAddr
       gov_ModuleName depositAmount) (\<lambda>b.
     let s = s\<lparr>bank := b\<rparr> in
     bindR (bindR (NewCoins (TotalDeposit p)) (\<lambda>old. Coins_Add (mth k) old depositAmount)) (\<lambda>total.
     let p = p\<lparr>TotalDeposit := total\<rparr>; s = SetProposal p s in
     bindR (enoughDeposit p minDepositAmount) (\<lambda>activatedVotingPeriod.
     bindR (if activatedVotingPeriod then ActivateVotingPeriod k blockTime p s else Inr s) (\<lambda>s.
     bindR (case store_get (Deposits s) (proposalID, AccKey depositorAddr) of
         Some d \<Rightarrow> bindR (bindR (NewCoins (dep_Amount d)) (\<lambda>old. Coins_Add (mth k) old depositAmount)) (\<lambda>sum.
           Inr (d\<lparr>dep_Amount := sum\<rparr>))
       | None \<Rightarrow> NewDeposit (gov_codec k) proposalID depositorAddr depositAmount) (\<lambda>d.
     bindR (AfterProposalDeposit (hooks k) proposalID depositorAddr s) (\<lambda>s.
     bindR (SetDeposit k d s) (\<lambda>s. Inr (s, activatedVotingPeriod)))))))))))))))"

section \<open>Votes\<close>

definition AddVote ::
  "gov_keeper \<Rightarrow> int \<Rightarrow> string \<Rightarrow> weighted_vote_options \<Rightarrow> string \<Rightarrow> gov_store \<Rightarrow> gov_store res" where
  "AddVote k proposalID voterAddr options metadata s =
     (if \<not> store_has (VotingPeriodProposals s) proposalID then Inl (Err ''inactive proposal'')
      else bindR (assertMetadataLength k metadata) (\<lambda>_.
        bindR (guardR (\<forall>w \<in> set options. ValidWeightedVoteOption (numtext k) w) (Err ''invalid vote option'')) (\<lambda>_.
        bindR (NewVote (gov_codec k) proposalID voterAddr options metadata) (\<lambda>v.
        AfterProposalVote (hooks k) proposalID voterAddr
          (s\<lparr>Votes := store_put (Votes s) (proposalID, AccKey voterAddr) v\<rparr>)))))"

section \<open>The constitution\<close>

definition MaxConstitutionLength :: nat where "MaxConstitutionLength = 2 * 1024 * 1024"

definition ApplyConstitutionAmendment :: "gov_keeper \<Rightarrow> gov_store \<Rightarrow> string \<Rightarrow> string res" where
  "ApplyConstitutionAmendment k s amendment = (if amendment = [] then Inl (Err ''amendment cannot be empty'')
     else let currentConstitution = (case Constitution s of None \<Rightarrow> [] | Some c \<Rightarrow> c) in
       bindR (ApplyUnifiedDiff currentConstitution amendment) (\<lambda>updated.
       if length updated > MaxConstitutionLength \<and> length updated > length currentConstitution
       then Inl (Err ''resulting constitution exceeds maximum size'') else Inr updated))"

end
