(* ===== verification/GovMsgs.thy ===== *)
theory GovMsgs
  imports GovProposal
begin

text \<open>
  The message server of the governance module (\<^verbatim>\<open>x/gov/keeper/msg_server.go\<close>): submission, deposits,
  votes, parameter updates, laws and amendments, and the messages of governors and their
  delegators.
\<close>

section \<open>Proposals, deposits and votes\<close>

record msg_submit_proposal =
  sp_Messages :: "any list"
  InitialDeposit :: coins
  sp_Proposer :: string
  sp_Metadata :: string
  sp_Title :: string
  sp_Summary :: string

definition metadata_matches :: "gov_keeper \<Rightarrow> msg_submit_proposal \<Rightarrow> bool" where
  "metadata_matches k msg = (case ParseProposalMetadata k (sp_Metadata msg) of None \<Rightarrow> True
     | Some (title, summary) \<Rightarrow> title = sp_Title msg \<and> summary = sp_Summary msg)"

definition gov_msgServer_SubmitProposal ::
  "gov_keeper \<Rightarrow> time \<Rightarrow> msg_submit_proposal \<Rightarrow> gov_store \<Rightarrow> (gov_store \<times> int) res" where
  "gov_msgServer_SubmitProposal k blockTime msg s =
     bindR (guardR (sp_Title msg \<noteq> []) (Err ''proposal title cannot be empty'')) (\<lambda>_.
     bindR (guardR (sp_Summary msg \<noteq> []) (Err ''proposal summary cannot be empty'')) (\<lambda>_.
     bindR (StringToBytes (gov_codec k) (sp_Proposer msg)) (\<lambda>proposer.
     bindR (guardR (\<not> (sp_Messages msg = [] \<and> sp_Metadata msg = []))
       (Err ''either metadata or Msgs length must be non-nil'')) (\<lambda>_.
     bindR (guardR (sp_Metadata msg = [] \<or> metadata_matches k msg)
       (Err ''metadata title and summary must equal proposal title and summary'')) (\<lambda>_.
     bindR (guardR (\<forall>m \<in> set (sp_Messages msg). UnpackAny k m \<noteq> None) (Err ''any cached value is nil'')) (\<lambda>_.
     bindR (Params_Get s) (\<lambda>params.
     bindR (validateInitialDeposit s (InitialDeposit msg)) (\<lambda>_.
     bindR (validateDepositDenom params (InitialDeposit msg)) (\<lambda>_.
     bindR (SubmitProposal k blockTime (sp_Messages msg) (sp_Metadata msg) (sp_Title msg) (sp_Summary msg) proposer s) (\<lambda>(s, p).
     bindR (AddDeposit k blockTime (Id p) proposer (InitialDeposit msg) True s) (\<lambda>(s, _).
     Inr (s, Id p))))))))))))"

definition gov_msgServer_Vote ::
  "gov_keeper \<Rightarrow> int \<Rightarrow> string \<Rightarrow> vote_option \<Rightarrow> string \<Rightarrow> gov_store \<Rightarrow> gov_store res" where
  "gov_msgServer_Vote k proposalID voter opt metadata s =
     bindR (StringToBytes (gov_codec k) voter) (\<lambda>accAddr.
     bindR (guardR (ValidVoteOption opt) (Err ''invalid vote option'')) (\<lambda>_.
     AddVote k proposalID accAddr (NewNonSplitVoteOption (numtext k) opt) metadata s))"

definition sum_weights :: "gov_keeper \<Rightarrow> weighted_vote_options \<Rightarrow> (dec \<times> vote_option list) res" where
  "sum_weights k options = foldR (\<lambda>w (totalWeight, usedOptions).
     bindR (guardR (WeightedVoteOption_IsValid (numtext k) w) (Err ''invalid vote option'')) (\<lambda>_.
     bindR (parseDec (numtext k) ''invalid weight'' (Weight w)) (\<lambda>weight.
     bindR (dec_Add (mth k) totalWeight weight) (\<lambda>total.
     bindR (guardR (Option w \<notin> set usedOptions) (Err ''duplicated vote option'')) (\<lambda>_.
     Inr (total, Option w # usedOptions)))))) options (0, [])"

definition gov_msgServer_VoteWeighted ::
  "gov_keeper \<Rightarrow> int \<Rightarrow> string \<Rightarrow> weighted_vote_options \<Rightarrow> string \<Rightarrow> gov_store \<Rightarrow> gov_store res" where
  "gov_msgServer_VoteWeighted k proposalID voter options metadata s =
     bindR (StringToBytes (gov_codec k) voter) (\<lambda>accAddr.
     bindR (guardR (options \<noteq> []) (Err ''invalid request'')) (\<lambda>_.
     bindR (sum_weights k options) (\<lambda>(totalWeight, _).
     bindR (guardR (\<not> totalWeight > precision) (Err ''total weight overflow 1.00'')) (\<lambda>_.
     bindR (guardR (\<not> totalWeight < precision) (Err ''total weight lower than 1.00'')) (\<lambda>_.
     AddVote k proposalID accAddr options metadata s)))))"

definition gov_msgServer_Deposit ::
  "gov_keeper \<Rightarrow> time \<Rightarrow> int \<Rightarrow> string \<Rightarrow> coins \<Rightarrow> gov_store \<Rightarrow> gov_store res" where
  "gov_msgServer_Deposit k blockTime proposalID depositor amount s =
     bindR (StringToBytes (gov_codec k) depositor) (\<lambda>accAddr.
     bindR (guardR (Coins_IsValid amount \<and> Coins_IsAllPositive amount) (Err ''invalid coins'')) (\<lambda>_.
     bindR (AddDeposit k blockTime proposalID accAddr amount False s) (\<lambda>(s, _). Inr s)))"

section \<open>Messages of the authority\<close>

definition gov_msgServer_UpdateParams ::
  "gov_keeper \<Rightarrow> time \<Rightarrow> string \<Rightarrow> gov_params \<Rightarrow> gov_store \<Rightarrow> gov_store res" where
  "gov_msgServer_UpdateParams k blockTime msgAuthority params s =
     bindR (guardR (authority k = msgAuthority) (Err ''invalid authority'')) (\<lambda>_.
     let minDeposit = GetMinDeposit s in
     bindR (deref (MinDepositThrottler params)) (\<lambda>t.
     bindR (GetNewMinDeposit (mth k) (FloorValue t) minDeposit precision) (\<lambda>newMinDeposit.
     let s = (if Coins_Equal minDeposit newMinDeposit then s
       else s\<lparr>LastMinDeposit := Some \<lparr>Value = newMinDeposit, LTime = Some blockTime\<rparr>\<rparr>);
         minInitialDeposit = GetMinInitialDeposit s in
     bindR (deref (MinInitialDepositThrottler params)) (\<lambda>u.
     bindR (GetNewMinDeposit (mth k) (init_FloorValue u) minInitialDeposit precision) (\<lambda>newMinInitialDeposit.
     let s = (if Coins_Equal minInitialDeposit newMinInitialDeposit then s
       else s\<lparr>LastMinInitialDeposit := Some \<lparr>Value = newMinInitialDeposit, LTime = Some blockTime\<rparr>\<rparr>) in
     bindR (Gov_Params_ValidateBasic (mth k) (numtext k) params) (\<lambda>_.
     Inr (s\<lparr>gov_Params := Some params\<rparr>)))))))"

definition gov_msgServer_ProposeLaw :: "gov_keeper \<Rightarrow> string \<Rightarrow> gov_store \<Rightarrow> gov_store res" where
  "gov_msgServer_ProposeLaw k msgAuthority s =
     bindR (guardR (authority k = msgAuthority) (Err ''invalid authority'')) (\<lambda>_. Inr s)"

definition gov_msgServer_ProposeConstitutionAmendment ::
  "gov_keeper \<Rightarrow> string \<Rightarrow> string \<Rightarrow> gov_store \<Rightarrow> gov_store res" where
  "gov_msgServer_ProposeConstitutionAmendment k msgAuthority amendment s =
     bindR (guardR (authority k = msgAuthority) (Err ''invalid authority'')) (\<lambda>_.
     bindR (guardR (amendment \<noteq> []) (Err ''amendment cannot be empty'')) (\<lambda>_.
     bindR (ApplyConstitutionAmendment k s amendment) (\<lambda>c. Inr (s\<lparr>Constitution := Some c\<rparr>))))"

section \<open>Governors\<close>

text \<open>A minimum that does not parse is a nil number, whose comparison panics.\<close>

definition enough_self_delegation :: "gov_keeper \<Rightarrow> gov_params \<Rightarrow> string \<Rightarrow> gov_store \<Rightarrow> unit res" where
  "enough_self_delegation k params govAddr s =
     bindR (GetGovernorBondedTokens k s govAddr) (\<lambda>bondedTokens.
     bindR (deref (NewIntFromString (numtext k) (MinGovernorSelfDelegation params))) (\<lambda>minSelfDelegation.
     guardR (\<not> bondedTokens < minSelfDelegation) (Err ''insufficient governor delegation'')))"

definition gov_msgServer_CreateGovernor ::
  "gov_keeper \<Rightarrow> time \<Rightarrow> string \<Rightarrow> governor_description \<Rightarrow> gov_store \<Rightarrow> gov_store res" where
  "gov_msgServer_CreateGovernor k blockTime address description s =
     bindR (MustAccAddressFromBech32 (gov_codec k) address) (\<lambda>addr.
     bindR (guardR (store_get (Governors s) addr = None) (Err ''governor already exists'')) (\<lambda>_.
     bindR (GovernorDescription_EnsureLength description) (\<lambda>_.
     bindR (GovernorAddress_String k addr) (\<lambda>str.
     let g = NewGovernor str description blockTime in
     bindR (Params_Get s) (\<lambda>params.
     bindR (enough_self_delegation k params addr s) (\<lambda>_.
     bindR (Governor_GetAddress k g) (\<lambda>key.
     let s = s\<lparr>Governors := store_put (Governors s) key g\<rparr> in
     if store_get (GovernanceDelegations s) addr = None then DelegateToGovernor k addr addr s
     else RedelegateToGovernor k addr addr s)))))))"

definition gov_msgServer_EditGovernor ::
  "gov_keeper \<Rightarrow> string \<Rightarrow> governor_description \<Rightarrow> gov_store \<Rightarrow> gov_store res" where
  "gov_msgServer_EditGovernor k address description s =
     bindR (MustAccAddressFromBech32 (gov_codec k) address) (\<lambda>addr.
     bindR (not_nil ''governor not found'' (store_get (Governors s) addr)) (\<lambda>g.
     bindR (GovernorDescription_UpdateDescription (gvn_Description g) description) (\<lambda>d.
     let g = g\<lparr>gvn_Description := d\<rparr> in
     bindR (Governor_GetAddress k g) (\<lambda>key. Inr (s\<lparr>Governors := store_put (Governors s) key g\<rparr>)))))"

definition gov_msgServer_UpdateGovernorStatus ::
  "gov_keeper \<Rightarrow> time \<Rightarrow> string \<Rightarrow> governor_status \<Rightarrow> gov_store \<Rightarrow> gov_store res" where
  "gov_msgServer_UpdateGovernorStatus k blockTime address status s =
     bindR (MustAccAddressFromBech32 (gov_codec k) address) (\<lambda>addr.
     bindR (not_nil ''governor not found'' (store_get (Governors s) addr)) (\<lambda>g.
     bindR (guardR (GovernorStatus_IsValid status) (Err ''invalid governor status'')) (\<lambda>_.
     bindR (guardR (gvn_Status g \<noteq> status) (Err ''cannot change governor status to the same status'')) (\<lambda>_.
     bindR (Params_Get s) (\<lambda>params.
     bindR (deref (GovernorStatusChangePeriod params)) (\<lambda>period.
     bindR (deref (LastStatusChangeTime g)) (\<lambda>last.
     bindR (guardR (\<not> Time_Add last period > blockTime) (Err ''governor status change period not elapsed'')) (\<lambda>_.
     let g = g\<lparr>gvn_Status := status, LastStatusChangeTime := Some blockTime\<rparr> in
     bindR (if Governor_IsActive g then enough_self_delegation k params addr s else Inr ()) (\<lambda>_.
     bindR (Governor_GetAddress k g) (\<lambda>key.
     let s = s\<lparr>Governors := store_put (Governors s) key g\<rparr> in
     if Governor_IsActive g
     then bindR (case store_get (GovernanceDelegations s) addr of
           None \<Rightarrow> DelegateToGovernor k addr addr s
         | Some gd \<Rightarrow> bindR (GovernorAddress_String k addr) (\<lambda>str.
             if gd_Governor gd \<noteq> str then RedelegateToGovernor k addr addr s else Inr s)) (\<lambda>s.
       setActiveGovernorIndexEntries k addr s)
     else removeActiveGovernorIndexEntries k addr s))))))))))"

definition gov_msgServer_DelegateGovernor :: "gov_keeper \<Rightarrow> string \<Rightarrow> string \<Rightarrow> gov_store \<Rightarrow> gov_store res" where
  "gov_msgServer_DelegateGovernor k delegator governorAddress s =
     bindR (MustAccAddressFromBech32 (gov_codec k) delegator) (\<lambda>delAddr.
     bindR (MustGovernorAddressFromBech32 k governorAddress) (\<lambda>govAddr.
     bindR (guardR (case store_get (Governors s) delAddr of Some g \<Rightarrow> \<not> Governor_IsActive g | None \<Rightarrow> True)
       (Err ''delegator is governor'')) (\<lambda>_.
     bindR (not_nil ''governor not found'' (store_get (Governors s) govAddr)) (\<lambda>g.
     bindR (guardR (Governor_IsActive g) (Err ''inactive governor'')) (\<lambda>_.
     case store_get (GovernanceDelegations s) delAddr of
       None \<Rightarrow> DelegateToGovernor k delAddr govAddr s
     | Some gd \<Rightarrow> bindR (MustGovernorAddressFromBech32 k (gd_Governor gd)) (\<lambda>old.
         bindR (guardR (govAddr \<noteq> old) (Err ''governance delegation exists'')) (\<lambda>_.
         RedelegateToGovernor k delAddr govAddr s)))))))"

definition gov_msgServer_UndelegateGovernor :: "gov_keeper \<Rightarrow> string \<Rightarrow> gov_store \<Rightarrow> gov_store res" where
  "gov_msgServer_UndelegateGovernor k delegator s =
     bindR (MustAccAddressFromBech32 (gov_codec k) delegator) (\<lambda>delAddr.
     bindR (not_nil ''governance delegation not found'' (store_get (GovernanceDelegations s) delAddr)) (\<lambda>gd.
     bindR (case store_get (Governors s) delAddr of None \<Rightarrow> Inr ()
       | Some g \<Rightarrow> if \<not> Governor_IsActive g then Inr ()
           else bindR (GovernorAddress_String k delAddr) (\<lambda>str.
             if gd_Governor gd \<noteq> str
             then Inl (Panic ''inconsistent state: active governor has a governance delegation to another governor'')
             else Inl (Err ''delegator is governor''))) (\<lambda>_.
     bindR (UndelegateFromGovernor k delAddr s) (\<lambda>s.
     bindR (MustGovernorAddressFromBech32 k (gd_Governor gd)) (\<lambda>govAddr.
     case store_get (Governors s) govAddr of
       None \<Rightarrow> Inl (Panic ''inconsistent state: governance delegation to non-existing governor'')
     | Some g \<Rightarrow> if Governor_IsActive g then Inr s
         else bindR (Governor_GetAddress k g) (\<lambda>key.
           if filter (\<lambda>((a, _), _). a = AccKey key) (store_walk (GovernanceDelegationsByGovernor s)) = []
           then Inr (s\<lparr>Governors := store_rem (Governors s) key\<rparr>) else Inr s))))))"

end
