(* ===== verification/GovEndBlock.thy ===== *)
theory GovEndBlock
  imports GovMsgs
begin

text \<open>
  The end of a block (\<^verbatim>\<open>x/gov/abci.go\<close>), the registered invariants (\<^verbatim>\<open>x/gov/keeper/invariants.go\<close>) and the
  genesis of the module (\<^verbatim>\<open>x/gov/genesis.go\<close>). A walk over a queue visits the entries that were in
  the queue when it started. A hook or a message that runs on a cached context changes the
  state only when it returns without an error.
\<close>

section \<open>End of a block\<close>

definition due :: "time \<Rightarrow> (time \<times> int, 'v) store \<Rightarrow> ((time \<times> int) \<times> 'v) list" where
  "due blockTime q = filter (\<lambda>((t, _), _). t \<le> blockTime) (store_walk q)"

definition cached :: "(gov_store \<Rightarrow> gov_store res) \<Rightarrow> gov_store \<Rightarrow> gov_store res" where
  "cached f s = (case f s of Inl (Err _) \<Rightarrow> Inr s | r \<Rightarrow> r)"

definition failUnsupportedProposal :: "gov_keeper \<Rightarrow> time \<Rightarrow> proposal \<Rightarrow> gov_store \<Rightarrow> gov_store res" where
  "failUnsupportedProposal k blockTime proposal s =
     RefundAndDeleteDeposits k blockTime (Id proposal) (SetProposal (proposal\<lparr>Status := StatusFailed,
       FailedReason := ''proposal failed because it cannot be processed by gov'', Messages := []\<rparr>) s)"

definition endInactive :: "gov_keeper \<Rightarrow> gov_params \<Rightarrow> time \<Rightarrow> (time \<times> int) \<times> int \<Rightarrow> gov_store \<Rightarrow> gov_store res" where
  "endInactive k params blockTime = (\<lambda>((_, proposalID), _) s. case Proposals_Read k s proposalID of
     NotFound \<Rightarrow> Inl (Err ''collections: not found'')
   | Undecodable p \<Rightarrow> bindR (failUnsupportedProposal k blockTime (p\<lparr>Id := proposalID\<rparr>) s) (DeleteProposal k proposalID)
   | Found p \<Rightarrow> bindR (enoughDeposit p (GetMinDeposit s)) (\<lambda>enough.
       if enough then (case ActivateVotingPeriod k blockTime p s of Inl (Err _) \<Rightarrow> Inr s | r \<Rightarrow> r)
       else bindR (DeleteProposal k (Id p) s) (\<lambda>s.
         bindR (if \<not> BurnProposalDepositPrevote params then RefundAndDeleteDeposits k blockTime (Id p) s
           else DeleteAndBurnDeposits k blockTime (Id p) s) (\<lambda>s.
         cached (AfterProposalFailedMinDeposit (hooks k) (Id p)) s))))"

text \<open>The time of the next quorum check.\<close>

definition nextQuorumCheck :: "time \<Rightarrow> time \<Rightarrow> time \<Rightarrow> quorum_check_queue_entry \<Rightarrow> time" where
  "nextQuorumCheck blockTime key votingEndTime entry =
     (let quorumCheckPeriod = Time_Sub votingEndTime (QuorumTimeoutTime entry);
          t0 = quorumCheckPeriod sdiv wrap64 (entry_QuorumCheckCount entry);
          t = (if t0 \<le> 0 then Nanosecond else t0);
          next0 = Time_Add key t;
          next1 = (if \<not> next0 > blockTime
            then let d = Time_Sub blockTime next0; n = d sdiv t in Time_Add next0 (wrap64 (t * wrap64 (n + 1)))
            else next0)
      in if next1 > votingEndTime then votingEndTime else next1)"

definition endQuorumCheck ::
  "gov_keeper \<Rightarrow> gov_params \<Rightarrow> time \<Rightarrow> (time \<times> int) \<times> quorum_check_queue_entry \<Rightarrow> gov_store \<Rightarrow> gov_store res" where
  "endQuorumCheck k params blockTime = (\<lambda>((keyTime, proposalID), entry) s.
     let s = s\<lparr>QuorumCheckQueue := store_rem (QuorumCheckQueue s) (keyTime, proposalID)\<rparr> in
     bindR (Proposals_Get k s proposalID) (\<lambda>p.
     bindR (HasReachedQuorum k s p) (\<lambda>quorum.
     if quorum then
       (if QuorumChecksDone entry > 0 then
          bindR (deref (MaxVotingPeriodExtension params)) (\<lambda>extension.
          bindR (deref (VotingEndTime p)) (\<lambda>oldEnd.
          let endTime = Time_Add blockTime extension in
          if endTime > oldEnd then
            let s = s\<lparr>ActiveProposalsQueue := store_rem (ActiveProposalsQueue s) (oldEnd, Id p)\<rparr>;
                p = p\<lparr>VotingEndTime := Some endTime, TimesVotingPeriodExtended := (TimesVotingPeriodExtended p + 1) mod 2 ^ 32\<rparr>;
                s = s\<lparr>ActiveProposalsQueue := store_put (ActiveProposalsQueue s) (endTime, Id p) (Id p)\<rparr>
            in Inr (SetProposal p s)
          else Inr s))
        else Inr s)
     else if QuorumChecksDone entry < entry_QuorumCheckCount entry then
       bindR (deref (VotingEndTime p)) (\<lambda>votingEnd.
       if votingEnd > blockTime then
         Inr (s\<lparr>QuorumCheckQueue := store_put (QuorumCheckQueue s)
           (nextQuorumCheck blockTime keyTime votingEnd entry, Id p)
           (entry\<lparr>QuorumChecksDone := wrapu64 (QuorumChecksDone entry + 1)\<rparr>)\<rparr>)
       else Inr s)
     else Inr s)))"

definition safeExecuteHandler :: "gov_keeper \<Rightarrow> time \<Rightarrow> any \<Rightarrow> gov_store \<Rightarrow> gov_store res" where
  "safeExecuteHandler k blockTime m s = (case RouterHandler k m of
     None \<Rightarrow> Inl (Err ''handling x/gov proposal msg PANICKED'')
   | Some handler \<Rightarrow> (case handler blockTime s of
       Inl (Panic _) \<Rightarrow> Inl (Err ''handling x/gov proposal msg PANICKED'') | r \<Rightarrow> r))"

definition executeProposal :: "gov_keeper \<Rightarrow> time \<Rightarrow> proposal \<Rightarrow> gov_store \<Rightarrow> gov_store \<times> proposal" where
  "executeProposal k blockTime p s =
     (if \<exists>m \<in> set (Messages p). UnpackAny k m = None
      then (s, p\<lparr>Status := StatusFailed, FailedReason := ''any cached value is nil''\<rparr>)
      else case foldR (safeExecuteHandler k blockTime) (Messages p) s of
        Inr s' \<Rightarrow> (s', p\<lparr>Status := StatusPassed\<rparr>)
      | Inl (Err e) \<Rightarrow> (s, p\<lparr>Status := StatusFailed, FailedReason := e\<rparr>)
      | Inl (Panic e) \<Rightarrow> (s, p\<lparr>Status := StatusFailed, FailedReason := e\<rparr>))"

definition endActive :: "gov_keeper \<Rightarrow> time \<Rightarrow> (time \<times> int) \<times> int \<Rightarrow> gov_store \<Rightarrow> gov_store res" where
  "endActive k blockTime = (\<lambda>((_, proposalID), _) s. case Proposals_Read k s proposalID of
     NotFound \<Rightarrow> Inl (Err ''collections: not found'')
   | Undecodable p0 \<Rightarrow> let p = p0\<lparr>Id := proposalID\<rparr> in
       bindR (failUnsupportedProposal k blockTime p s) (\<lambda>s.
       bindR (deref (VotingEndTime p)) (\<lambda>t.
       Inr (s\<lparr>ActiveProposalsQueue := store_rem (ActiveProposalsQueue s) (t, Id p)\<rparr>)))
   | Found p \<Rightarrow> bindR (Tally k s p) (\<lambda>(s, tally).
       bindR (if burnDeposits tally then DeleteAndBurnDeposits k blockTime (Id p) s
         else RefundAndDeleteDeposits k blockTime (Id p) s) (\<lambda>s.
       bindR (deref (VotingEndTime p)) (\<lambda>t.
       let s = s\<lparr>ActiveProposalsQueue := store_rem (ActiveProposalsQueue s) (t, Id p)\<rparr>;
           (s, p) = (if passes tally then executeProposal k blockTime p s
             else (s, p\<lparr>Status := StatusRejected, FailedReason := ''proposal did not get enough votes to pass''\<rparr>));
           p = p\<lparr>FinalTallyResult := tallyResults tally\<rparr>;
           s = SetProposal p s in
       bindR (UpdateParticipationEMA k p (participation tally) s) (\<lambda>s.
       cached (AfterProposalVotingPeriodEnded (hooks k) (Id p)) s)))))"

definition EndBlocker :: "gov_keeper \<Rightarrow> time \<Rightarrow> gov_store \<Rightarrow> gov_store res" where
  "EndBlocker k blockTime s =
     bindR (Params_Get s) (\<lambda>params.
     bindR (foldR (endInactive k params blockTime) (due blockTime (InactiveProposalsQueue s)) s) (\<lambda>s.
     bindR (foldR (endQuorumCheck k params blockTime) (due blockTime (QuorumCheckQueue s)) s) (\<lambda>s.
     bindR (foldR (endActive k blockTime) (due blockTime (ActiveProposalsQueue s)) s) (\<lambda>s.
     bindR (UpdateMinInitialDeposit k blockTime True s) (\<lambda>s.
     UpdateMinDeposit k blockTime True s)))))"

section \<open>Invariants\<close>

definition ModuleAccountInvariant :: "gov_keeper \<Rightarrow> gov_store \<Rightarrow> bool res" where
  "ModuleAccountInvariant k s =
     bindR (foldR (\<lambda>(_, d) expected. Coins_Add (mth k) expected (dep_Amount d)) (store_walk (Deposits s)) []) (\<lambda>expectedDeposits.
     bindR (GetGovernanceAccount k s) (\<lambda>(s, macc).
     bindR (GetAllBalances (mth k) (bank s) macc) (\<lambda>balances.
     bindR (Coins_IsAllGTE balances expectedDeposits) (\<lambda>gte. Inr (\<not> gte)))))"

text \<open>The shares that the delegators of a governor hold on each validator, in the order of first use.\<close>

definition add_share :: "gov_keeper \<Rightarrow> delegation \<Rightarrow> (string \<times> dec) list \<Rightarrow> (string \<times> dec) list res" where
  "add_share k d valShares = (let v = canonicalValAddr (del_Validator d) in
     bindR (dec_Add (mth k) (case map_of valShares v of None \<Rightarrow> 0 | Some x \<Rightarrow> x) (del_Shares d)) (\<lambda>x.
     Inr (if v \<in> fst ` set valShares then map (\<lambda>(u, y). (u, if u = v then x else y)) valShares else valShares @ [(v, x)])))"

definition actual_shares :: "gov_keeper \<Rightarrow> gov_store \<Rightarrow> string \<Rightarrow> (string \<times> dec) list res" where
  "actual_shares k s govAddr = foldR (\<lambda>((_, _), gd) valShares.
     bindR (MustAccAddressFromBech32 (gov_codec k) (gd_Delegator gd)) (\<lambda>delAddr.
     bindR (DelegationsOf (staking s) delAddr) (\<lambda>ds. foldR (add_share k) ds valShares)))
     (filter (\<lambda>((g, _), _). g = AccKey govAddr) (store_walk (GovernanceDelegationsByGovernor s))) []"

definition stored_shares_match :: "gov_keeper \<Rightarrow> gov_store \<Rightarrow> string \<Rightarrow> string \<times> dec \<Rightarrow> bool" where
  "stored_shares_match k s govAddr = (\<lambda>(v, shares).
     let valAddr = (case ValAddressFromBech32 k v of Inr a \<Rightarrow> a | Inl _ \<Rightarrow> []) in
     case store_get (ValidatorSharesByGovernor s) (AccKey govAddr, valAddr) of None \<Rightarrow> False
     | Some vs \<Rightarrow> Shares vs = shares)"

definition self_delegation_broken :: "gov_keeper \<Rightarrow> gov_store \<Rightarrow> governor \<Rightarrow> string \<Rightarrow> bool res" where
  "self_delegation_broken k s g govAddr = (if \<not> Governor_IsActive g then Inr False
     else case store_get (GovernanceDelegations s) govAddr of None \<Rightarrow> Inr True
       | Some gd \<Rightarrow> bindR (MustGovernorAddressFromBech32 k (gd_Governor gd)) (\<lambda>a. Inr (govAddr \<noteq> a)))"

text \<open>An error of a walk counts as broken; a panic stays a panic.\<close>

definition governor_broken :: "gov_keeper \<Rightarrow> gov_store \<Rightarrow> governor \<Rightarrow> bool res" where
  "governor_broken k s g = bindR (Governor_GetAddress k g) (\<lambda>govAddr.
     bindR (self_delegation_broken k s g govAddr) (\<lambda>b.
     if b then Inr True
     else case actual_shares k s govAddr of Inl (Err _) \<Rightarrow> Inr True | Inl (Panic e) \<Rightarrow> Inl (Panic e)
       | Inr valShares \<Rightarrow> Inr (\<not> list_all (stored_shares_match k s govAddr) valShares \<or>
           (\<exists>(_, vs) \<in> set (store_walk (ValidatorSharesByGovernor s)). gvs_Validator vs \<notin> fst ` set valShares \<and> Shares vs > 0))))"

definition GovernorsDelegationsInvariant :: "gov_keeper \<Rightarrow> gov_store \<Rightarrow> bool res" where
  "GovernorsDelegationsInvariant k s = foldR (\<lambda>(_, g) broken. if broken then Inr True else governor_broken k s g)
     (store_walk (Governors s)) False"

section \<open>Genesis\<close>

record gov_genesis =
  StartingProposalId :: int
  gg_Deposits :: "deposit list"
  gg_Votes :: "vote list"
  gg_Proposals :: "proposal list"
  gg_Params :: "gov_params option"
  gg_Constitution :: string
  gg_LastMinDeposit :: "last_min_deposit option"
  gg_LastMinInitialDeposit :: "last_min_deposit option"
  gg_ParticipationEma :: string
  gg_ConstitutionAmendmentParticipationEma :: string
  gg_LawParticipationEma :: string
  gg_Governors :: "governor list"
  gg_GovernanceDelegations :: "governance_delegation list"

definition genesisQuorumCheck :: "gov_keeper \<Rightarrow> time \<Rightarrow> gov_params \<Rightarrow> proposal \<Rightarrow> gov_store \<Rightarrow> gov_store res" where
  "genesisQuorumCheck k blockTime params p s =
     (if QuorumCheckCount params > 0 \<and> Status p = StatusVotingPeriod then
        bindR (deref (VotingStartTime p)) (\<lambda>start. bindR (deref (QuorumTimeout params)) (\<lambda>timeout.
        let quorumTimeoutTime = Time_Add start timeout;
            entry = NewQuorumCheckQueueEntry quorumTimeoutTime (QuorumCheckCount params);
            late = blockTime > quorumTimeoutTime in
        bindR (if late then must (HasReachedQuorum k s p) else Inr False) (\<lambda>quorum.
        if quorum then Inr s
        else Inr (s\<lparr>QuorumCheckQueue := store_put (QuorumCheckQueue s) (quorumTimeoutTime, Id p)
          (if late then entry\<lparr>QuorumChecksDone := 1\<rparr> else entry)\<rparr>))))
      else Inr s)"

definition genesisProposal :: "gov_keeper \<Rightarrow> time \<Rightarrow> gov_params \<Rightarrow> proposal \<Rightarrow> gov_store \<Rightarrow> gov_store res" where
  "genesisProposal k blockTime params p s =
     bindR (case Status p of
         StatusDepositPeriod \<Rightarrow> bindR (deref (DepositEndTime p)) (\<lambda>t.
           Inr (s\<lparr>InactiveProposalsQueue := store_put (InactiveProposalsQueue s) (t, Id p) (Id p)\<rparr>))
       | StatusVotingPeriod \<Rightarrow> bindR (deref (VotingEndTime p)) (\<lambda>t.
           Inr (s\<lparr>ActiveProposalsQueue := store_put (ActiveProposalsQueue s) (t, Id p) (Id p)\<rparr>))
       | _ \<Rightarrow> Inr s) (\<lambda>s. genesisQuorumCheck k blockTime params p (SetProposal p s))"

definition genesisGovernor ::
  "gov_keeper \<Rightarrow> int \<Rightarrow> governor \<Rightarrow> gov_store \<times> string list \<Rightarrow> (gov_store \<times> string list) res" where
  "genesisGovernor k minSelfDelegation governor0 = (\<lambda>(s, activeGovernors).
     let g = governor0\<lparr>gvn_Address := ToLower (gvn_Address governor0)\<rparr> in
     bindR (Governor_GetAddress k g) (\<lambda>govAddr.
     bindR (guardR (GetAccount (ak_store (bank s)) govAddr \<noteq> None) (Panic ''account does not exist'')) (\<lambda>_.
     let s = s\<lparr>Governors := store_put (Governors s) govAddr g\<rparr> in
     if \<not> Governor_IsActive g then Inr (s, activeGovernors)
     else bindR (must (GetGovernorBondedTokens k s govAddr)) (\<lambda>bondedTokens.
       bindR (guardR (\<not> bondedTokens < minSelfDelegation) (Panic ''insufficient governor delegation'')) (\<lambda>_.
       bindR (must (DelegateToGovernor k govAddr govAddr s)) (\<lambda>s. Inr (s, gvn_Address g # activeGovernors)))))))"

definition genesisDelegation ::
  "gov_keeper \<Rightarrow> string list \<Rightarrow> governance_delegation \<Rightarrow> gov_store \<Rightarrow> gov_store res" where
  "genesisDelegation k activeGovernors gd s =
     bindR (MustAccAddressFromBech32 (gov_codec k) (gd_Delegator gd)) (\<lambda>delAddr.
     bindR (MustGovernorAddressFromBech32 k (gd_Governor gd)) (\<lambda>govAddr.
     if delAddr = govAddr \<and> gd_Governor gd \<in> set activeGovernors then Inr s
     else bindR (guardR (GetAccount (ak_store (bank s)) delAddr \<noteq> None) (Panic ''account does not exist'')) (\<lambda>_.
       bindR (guardR (store_get (Governors s) govAddr \<noteq> None) (Panic ''error getting governor'')) (\<lambda>_.
       bindR (GovernorAddress_String k delAddr) (\<lambda>str.
       bindR (guardR (\<not> (str \<in> set activeGovernors \<and> delAddr \<noteq> govAddr))
         (Panic ''account is an active governor and cannot delegate'')) (\<lambda>_.
       must (DelegateToGovernor k delAddr govAddr s)))))))"

definition Gov_InitGenesis :: "gov_keeper \<Rightarrow> time \<Rightarrow> gov_genesis \<Rightarrow> gov_store \<Rightarrow> gov_store res" where
  "Gov_InitGenesis k blockTime data s =
     bindR (deref (gg_Params data)) (\<lambda>params.
     bindR (LegacyMustNewDecFromStr (numtext k) (gg_ParticipationEma data)) (\<lambda>ema.
     bindR (LegacyMustNewDecFromStr (numtext k) (gg_ConstitutionAmendmentParticipationEma data)) (\<lambda>amendmentEma.
     bindR (LegacyMustNewDecFromStr (numtext k) (gg_LawParticipationEma data)) (\<lambda>lawEma.
     let s = s\<lparr>ProposalID := Some (StartingProposalId data), gov_Params := Some params, Constitution := Some (gg_Constitution data),
          ParticipationEMA := Some ema, ConstitutionAmendmentParticipationEMA := Some amendmentEma, LawParticipationEMA := Some lawEma\<rparr> in
     bindR (GetModuleAccount (ak (bankKeeper k)) (ak_store (bank s)) gov_ModuleName) (\<lambda>(as, acc).
     let s = s\<lparr>bank := (bank s)\<lparr>ak_store := as\<rparr>\<rparr> in
     bindR (case acc of None \<Rightarrow> Inl (Panic ''module account has not been set'') | Some macc \<Rightarrow> Inr macc) (\<lambda>moduleAcc.
     bindR (foldR (\<lambda>d (s, total). bindR (must (SetDeposit k d s)) (\<lambda>s.
       bindR (Coins_Add (mth k) total (dep_Amount d)) (\<lambda>total. Inr (s, total)))) (gg_Deposits data) (s, [])) (\<lambda>(s, totalDeposits).
     bindR (foldR (\<lambda>v s. bindR (must (StringToBytes (gov_codec k) (Voter v))) (\<lambda>addr.
       Inr (s\<lparr>Votes := store_put (Votes s) (vote_ProposalId v, AccKey addr) v\<rparr>))) (gg_Votes data) s) (\<lambda>s.
     bindR (foldR (genesisProposal k blockTime params) (gg_Proposals data) s) (\<lambda>s.
     bindR (GetAllBalances (mth k) (bank s) (BaseAccount_GetAddress (gov_codec k) moduleAcc)) (\<lambda>balance.
     bindR (if Coins_IsZero balance then bindR (SetAccount (ak (bankKeeper k)) (ak_store (bank s)) (Acc_Module moduleAcc)) (\<lambda>as.
         Inr (s\<lparr>bank := (bank s)\<lparr>ak_store := as\<rparr>\<rparr>)) else Inr s) (\<lambda>s.
     bindR (Coins_IsAllGTE balance totalDeposits) (\<lambda>covered.
     bindR (guardR covered (Panic ''expected module account balance to cover total deposits'')) (\<lambda>_.
     bindR (case gg_LastMinDeposit data of Some l \<Rightarrow> Inr l
       | None \<Rightarrow> bindR (deref (MinDepositThrottler params)) (\<lambda>t. Inr \<lparr>Value = FloorValue t, LTime = Some blockTime\<rparr>)) (\<lambda>lmd.
     bindR (case gg_LastMinInitialDeposit data of Some l \<Rightarrow> Inr l
       | None \<Rightarrow> bindR (deref (MinInitialDepositThrottler params)) (\<lambda>t. Inr \<lparr>Value = init_FloorValue t, LTime = Some blockTime\<rparr>)) (\<lambda>lmid.
     let s = s\<lparr>LastMinDeposit := Some lmd, LastMinInitialDeposit := Some lmid\<rparr> in
     bindR (case NewIntFromString (numtext k) (MinGovernorSelfDelegation params) of
         None \<Rightarrow> Inl (Panic ''invalid min governor self-delegation'') | Some v \<Rightarrow> Inr v) (\<lambda>minSelfDelegation.
     bindR (foldR (genesisGovernor k minSelfDelegation) (gg_Governors data) (s, [])) (\<lambda>(s, activeGovernors).
     foldR (genesisDelegation k activeGovernors) (gg_GovernanceDelegations data) s)))))))))))))))))"

definition Gov_ExportGenesis :: "gov_keeper \<Rightarrow> time \<Rightarrow> gov_store \<Rightarrow> gov_genesis res" where
  "Gov_ExportGenesis k blockTime s =
     bindR (guardR (\<forall>(_, p) \<in> set (store_walk (Proposals s)). \<forall>m \<in> set (Messages p). UnpackAny k m \<noteq> None)
       (Err ''collections: encoding error'')) (\<lambda>_.
     bindR (not_nil ''collections: not found: constitution'' (Constitution s)) (\<lambda>constitution.
     bindR (Params_Get s) (\<lambda>params.
     bindR (must (not_nil ''collections: not found'' (ParticipationEMA s))) (\<lambda>ema.
     bindR (must (not_nil ''collections: not found'' (ConstitutionAmendmentParticipationEMA s))) (\<lambda>amendmentEma.
     bindR (must (not_nil ''collections: not found'' (LawParticipationEMA s))) (\<lambda>lawEma.
     let governors = map snd (store_walk (Governors s)) in
     bindR (mapR (\<lambda>g. bindR (Governor_GetAddress k g) (\<lambda>addr.
       Inr (map snd (filter (\<lambda>((a, _), _). a = AccKey addr) (store_walk (GovernanceDelegationsByGovernor s)))))) governors) (\<lambda>delegations.
     Inr \<lparr>StartingProposalId = (case ProposalID s of None \<Rightarrow> 0 | Some i \<Rightarrow> i),
          gg_Deposits = map snd (store_walk (Deposits s)), gg_Votes = map snd (store_walk (Votes s)),
          gg_Proposals = map snd (store_walk (Proposals s)), gg_Params = Some params, gg_Constitution = constitution,
          gg_LastMinDeposit = Some \<lparr>Value = GetMinDeposit s, LTime = Some blockTime\<rparr>,
          gg_LastMinInitialDeposit = Some \<lparr>Value = GetMinInitialDeposit s, LTime = Some blockTime\<rparr>,
          gg_ParticipationEma = LegacyDec_String (numtext k) ema,
          gg_ConstitutionAmendmentParticipationEma = LegacyDec_String (numtext k) amendmentEma,
          gg_LawParticipationEma = LegacyDec_String (numtext k) lawEma,
          gg_Governors = governors, gg_GovernanceDelegations = concat delegations\<rparr>)))))))"

end
