(* ===== verification/GovDynamics.thy ===== *)
theory GovDynamics
  imports GovThrottle GovEndBlock BankProps
begin

text \<open>
  The parts of governance that adapt to activity, for validated parameters: an update of a minimum
  deposit always returns and keeps the deposit valid, at or above its floor and moving in the
  announced direction; participation averages stay between zero and one and quorums within their
  ranges; the checks of a quorum move forward in time, stay within the voting period and end.
\<close>

section \<open>Minimum deposits\<close>

text \<open>A stored minimum deposit: valid coins of amounts that fit their type, with a time.\<close>

definition min_deposit_ok :: "last_min_deposit option \<Rightarrow> bool" where
  "min_deposit_ok l \<longleftrightarrow> (\<forall>m. l = Some m \<longrightarrow> Coins_IsValid (Value m) \<and> fits (Value m) \<and> LTime m \<noteq> None)"

text \<open>The targets of the throttlers are unsigned 64-bit numbers.\<close>

definition targets_typed :: "gov_params \<Rightarrow> bool" where
  "targets_typed p \<longleftrightarrow> (\<forall>t. MinDepositThrottler p = Some t \<longrightarrow> TargetActiveProposals t < 2 ^ 64) \<and>
     (\<forall>u. MinInitialDepositThrottler p = Some u \<longrightarrow> TargetProposals u < 2 ^ 64)"

text \<open>How an update may move a minimum deposit: the denominations are those of the floor, no amount is below
  it, an update of the end of a block only lowers amounts, and one by a new proposal only raises them.\<close>

definition moved :: "bool \<Rightarrow> coins \<Rightarrow> coins \<Rightarrow> coins \<Rightarrow> bool" where
  "moved checkElapsedTime fl cur new \<longleftrightarrow> (\<forall>d. (amt fl d = 0 \<longrightarrow> amt new d = 0) \<and> amt fl d \<le> amt new d \<and>
     (checkElapsedTime \<longrightarrow> amt new d \<le> max (amt cur d) (amt fl d)) \<and>
     (\<not> checkElapsedTime \<longrightarrow> amt fl d \<noteq> 0 \<longrightarrow> amt cur d \<le> 10 ^ 69 \<longrightarrow> amt cur d \<le> amt new d))"

lemma floor_fits:
  assumes "floor_ok fl"
  shows "Coins_IsValid fl" and "fits fl"
proof -
  show v: "Coins_IsValid fl" using assms by (simp add: floor_ok_def)
  have "int_ok (Amount c)" if "c \<in> set fl" for c
  proof -
    have "0 < Amount c" "Amount c \<le> 10 ^ 30" using that v assms by (auto simp: floor_ok_def Coins_IsValid_alt)
    then show ?thesis by (simp add: int_ok_def)
  qed
  then show "fits fl" by (simp add: fits_def)
qed

context sdk_math
begin

lemma throttler_percChange_total:
  assumes "ratio_ok X inc" and "ratio_ok X dcr" and "0 \<le> num" and "num < 2 ^ 64" and "target < 2 ^ 64" and "0 < target"
  shows "\<exists>c. throttler_percChange M X num target k inc dcr chk = Inr c \<and>
     (\<forall>pc. c = Some pc \<longrightarrow> (if chk then pc \<le> precision else precision \<le> pc))"
proof -
  obtain ri rd where r: "LegacyNewDecFromStr X inc = Some ri" "0 < ri" "ri < precision"
    "LegacyNewDecFromStr X dcr = Some rd" "0 < rd" "rd < precision"
    using assms(1,2) by (auto simp: ratio_ok_def)
  then have parse: "LegacyMustNewDecFromStr X inc = Inr ri" "LegacyMustNewDecFromStr X dcr = Inr rd"
    by (simp_all add: LegacyMustNewDecFromStr_Inr)
  show ?thesis
  proof (cases "target \<le> num")
    case True
    have "dec_ok (precision + ri)" using r(2,3) by (simp add: dec_ok_def precision_def dec_max_def)
    then show ?thesis
      using True r(2) by (auto simp: throttler_percChange_def parse bindR_eq_Inr dec_ok_Add)
  next
    case False
    define dst where "dst = num - target"
    have d: "\<bar>dst\<bar> < 2 ^ 64" "dst < 0" using False assms(3,5) by (auto simp: dst_def)
    have s: "int_Sub M num target = Inr dst"
      unfolding dst_def using d by (intro int_ok_Sub) (simp add: int_ok_def dst_def)
    obtain b where b: "(case dec_ApproxRoot M (dec_of_int dst) k of Inr b \<Rightarrow> Inr b
        | Inl (Err _) \<Rightarrow> Inr (dec_of_int dst) | Inl (Panic e) \<Rightarrow> Inl (Panic e)) = Inr b"
      and bb: "b \<le> 0" "\<bar>b\<bar> \<le> 2 ^ 64 * precision"
    proof (cases "dec_ApproxRoot M (dec_of_int dst) k")
      case (Inl e)
      then have "\<exists>x. e = Err x" using dec_ApproxRoot_spec [of "dec_of_int dst" k] by (cases e) auto
      then show ?thesis using Inl d by (intro that [of "dec_of_int dst"]) (auto simp: dec_of_int_def precision_def abs_mult)
    next
      case (Inr b)
      have "dec_of_int dst \<le> 0" "\<bar>dec_of_int dst\<bar> \<le> 2 ^ 64 * precision" using d by (auto simp: dec_of_int_def precision_def)
      then show ?thesis
        using dec_ApproxRoot_spec [of "dec_of_int dst" k] Inr by (intro that [of b]) (auto simp: precision_def)
    qed
    have p: "\<bar>rd * b\<bar> \<le> precision * (2 ^ 64 * precision)"
      unfolding abs_mult using r(5,6) bb(2) by (intro mult_mono) auto
    then obtain c where c: "dec_Mul M rd b = Inr c"
      using dec_Mul_safe [of rd b] by (auto simp: precision_def)
    have "c \<le> 0" by (rule dec_Mul_nonpos [OF c]) (use r(5) bb(1) in \<open>simp add: mult_le_0_iff\<close>)
    moreover have "\<bar>c\<bar> < 2 ^ 65 * precision + 1"
      by (rule dec_Mul_bound [OF c]) (use p in \<open>simp add: precision_def\<close>)
    ultimately have "dec_ok (precision + c)" "precision + c \<le> precision"
      by (auto simp: dec_ok_def precision_def dec_max_def)
    then show ?thesis
      using False by (auto simp: throttler_percChange_def parse s b c dec_ok_Add)
  qed
qed

lemma GetNewMinDeposit_moved:
  assumes "floor_ok fl" and "Coins_IsValid cur" and "fits cur"
    and "if chk then pc \<le> precision else precision \<le> pc"
  shows "\<exists>new. GetNewMinDeposit M fl cur pc = Inr new \<and> Coins_IsValid new \<and> fits new \<and> moved chk fl cur new"
proof -
  obtain new where "GetNewMinDeposit M fl cur pc = Inr new" "Coins_IsValid new" "fits new"
    "\<forall>d. (amt fl d = 0 \<longrightarrow> amt new d = 0) \<and> amt fl d \<le> amt new d \<and>
       (pc \<le> precision \<longrightarrow> amt new d \<le> max (amt cur d) (amt fl d)) \<and>
       (precision \<le> pc \<longrightarrow> amt fl d \<noteq> 0 \<longrightarrow> amt cur d \<le> 10 ^ 69 \<longrightarrow> amt cur d \<le> amt new d)"
    using GetNewMinDeposit_total [OF floor_fits [OF assms(1)] assms(2,3)] by metis
  then show ?thesis using assms(4) unfolding moved_def by (intro exI [of _ new]) (cases chk; simp)
qed

lemma throttle_step:
  fixes s :: gov_store
  assumes "floor_ok fl" and "ratio_ok X inc" and "ratio_ok X dcr" and "num < 2 ^ 64" and "target < 2 ^ 64" and "0 < target"
    and "Coins_IsValid cur" and "fits cur"
  shows "\<exists>s'. (if early then Inr s else bindR (throttler_percChange M X (int num) target ds inc dcr chk) (\<lambda>change.
      case change of None \<Rightarrow> Inr s | Some pc \<Rightarrow> bindR (GetNewMinDeposit M fl cur pc) (\<lambda>new. Inr (upd new)))) = Inr s' \<and>
    (s' = s \<or> (\<exists>new. s' = upd new \<and> Coins_IsValid new \<and> fits new \<and> moved chk fl cur new))"
proof -
  obtain c where c: "throttler_percChange M X (int num) target ds inc dcr chk = Inr c"
    "\<forall>pc. c = Some pc \<longrightarrow> (if chk then pc \<le> precision else precision \<le> pc)"
    using throttler_percChange_total [OF assms(2,3) _ _ assms(5,6), of "int num" ds chk] assms(4) by auto
  show ?thesis
  proof (cases "early \<or> c = None")
    case False
    then obtain pc where pc: "c = Some pc" by auto
    then obtain new where "GetNewMinDeposit M fl cur pc = Inr new" "Coins_IsValid new" "fits new" "moved chk fl cur new"
      using GetNewMinDeposit_moved [OF assms(1,7,8), of chk pc] c(2) by blast
    then show ?thesis using c(1) pc by auto
  qed (use c(1) in auto)
qed

lemma UpdateMinDeposit_total:
  assumes "gov_Params s = Some p" and "throttlers_ok (numtext k) p" and "targets_typed p" and "mth k = M"
    and "min_deposit_ok (LastMinDeposit s)" and "length (ActiveProposalsQueue s) < 2 ^ 64"
  shows "\<exists>t cur s'. MinDepositThrottler p = Some t \<and> getMinDeposit s = Inr cur \<and> UpdateMinDeposit k bt chk s = Inr s' \<and>
     (s' = s \<or> (\<exists>new. s' = s\<lparr>LastMinDeposit := Some \<lparr>Value = new, LTime = Some bt\<rparr>\<rparr> \<and> Coins_IsValid new \<and> fits new \<and>
       moved chk (FloorValue t) (Value cur) new))"
proof -
  obtain t tick where t: "MinDepositThrottler p = Some t" "floor_ok (FloorValue t)" "UpdatePeriod t = Some tick"
    "ratio_ok (numtext k) (IncreaseRatio t)" "ratio_ok (numtext k) (DecreaseRatio t)" "0 < TargetActiveProposals t"
    using assms(2) by (auto simp: throttlers_ok_def)
  obtain cur ct where cur: "getMinDeposit s = Inr cur" "Coins_IsValid (Value cur)" "fits (Value cur)" "LTime cur = Some ct"
    using assms(1,5) t(1) floor_fits [OF t(2)]
    by (cases "LastMinDeposit s") (auto simp: getMinDeposit_def Params_Get_def min_deposit_ok_def)
  have tt: "TargetActiveProposals t < 2 ^ 64" using assms(3) t(1) by (simp add: targets_typed_def)
  have u: "UpdateMinDeposit k bt chk s = (if chk \<and> Time_Sub bt ct < tick then Inr s
      else bindR (throttler_percChange M (numtext k) (int (length (ActiveProposalsQueue s))) (TargetActiveProposals t)
        (DecreaseSensitivityTargetDistance t) (IncreaseRatio t) (DecreaseRatio t) chk) (\<lambda>change.
      case change of None \<Rightarrow> Inr s | Some pc \<Rightarrow> bindR (GetNewMinDeposit M (FloorValue t) (Value cur) pc) (\<lambda>new.
        Inr (s\<lparr>LastMinDeposit := Some \<lparr>Value = new, LTime = Some bt\<rparr>\<rparr>))))"
    by (simp add: UpdateMinDeposit_def assms(1,4) t(1,3) cur(1,4) store_walk_def)
  show ?thesis
    using throttle_step [OF t(2,4,5) assms(6) tt t(6) cur(2,3)] u t(1) cur(1) by auto
qed

lemma UpdateMinInitialDeposit_total:
  assumes "gov_Params s = Some p" and "throttlers_ok (numtext k) p" and "targets_typed p" and "mth k = M"
    and "min_deposit_ok (LastMinInitialDeposit s)" and "length (InactiveProposalsQueue s) < 2 ^ 64"
  shows "\<exists>t cur s'. MinInitialDepositThrottler p = Some t \<and> getMinInitialDeposit s = Inr cur \<and> UpdateMinInitialDeposit k bt chk s = Inr s' \<and>
     (s' = s \<or> (\<exists>new. s' = s\<lparr>LastMinInitialDeposit := Some \<lparr>Value = new, LTime = Some bt\<rparr>\<rparr> \<and> Coins_IsValid new \<and> fits new \<and>
       moved chk (init_FloorValue t) (Value cur) new))"
proof -
  obtain t tick where t: "MinInitialDepositThrottler p = Some t" "floor_ok (init_FloorValue t)" "init_UpdatePeriod t = Some tick"
    "ratio_ok (numtext k) (init_IncreaseRatio t)" "ratio_ok (numtext k) (init_DecreaseRatio t)" "0 < TargetProposals t"
    using assms(2) by (auto simp: throttlers_ok_def)
  obtain cur ct where cur: "getMinInitialDeposit s = Inr cur" "Coins_IsValid (Value cur)" "fits (Value cur)" "LTime cur = Some ct"
    using assms(1,5) t(1) floor_fits [OF t(2)]
    by (cases "LastMinInitialDeposit s") (auto simp: getMinInitialDeposit_def Params_Get_def min_deposit_ok_def)
  have tt: "TargetProposals t < 2 ^ 64" using assms(3) t(1) by (simp add: targets_typed_def)
  have u: "UpdateMinInitialDeposit k bt chk s = (if chk \<and> Time_Sub bt ct < tick then Inr s
      else bindR (throttler_percChange M (numtext k) (int (length (InactiveProposalsQueue s))) (TargetProposals t)
        (init_DecreaseSensitivityTargetDistance t) (init_IncreaseRatio t) (init_DecreaseRatio t) chk) (\<lambda>change.
      case change of None \<Rightarrow> Inr s | Some pc \<Rightarrow> bindR (GetNewMinDeposit M (init_FloorValue t) (Value cur) pc) (\<lambda>new.
        Inr (s\<lparr>LastMinInitialDeposit := Some \<lparr>Value = new, LTime = Some bt\<rparr>\<rparr>))))"
    by (simp add: UpdateMinInitialDeposit_def assms(1,4) t(1,3) cur(1,4) store_walk_def)
  show ?thesis
    using throttle_step [OF t(2,4,5) assms(6) tt t(6) cur(2,3)] u t(1) cur(1) by auto
qed

end

section \<open>Participation and quorums\<close>

definition ema_ok :: "dec option \<Rightarrow> bool" where
  "ema_ok e \<longleftrightarrow> (\<exists>x. e = Some x \<and> 0 \<le> x \<and> x \<le> precision)"

definition emas_ok :: "gov_store \<Rightarrow> bool" where
  "emas_ok s \<longleftrightarrow> ema_ok (ParticipationEMA s) \<and> ema_ok (ConstitutionAmendmentParticipationEMA s) \<and> ema_ok (LawParticipationEMA s)"

definition between :: "int \<Rightarrow> int \<Rightarrow> int \<Rightarrow> bool" where
  "between a b x \<longleftrightarrow> min a b \<le> x \<and> x \<le> max a b"

text \<open>An average after a proposal: unchanged when the proposal is not of its kind, else between the old one and the participation.\<close>

definition ema_moved :: "bool \<Rightarrow> dec \<Rightarrow> dec option \<Rightarrow> dec option \<Rightarrow> bool" where
  "ema_moved kind part old new \<longleftrightarrow> (if kind then \<exists>x y. old = Some x \<and> new = Some y \<and> between x part y else new = old)"

definition quorum_in :: "text_ops \<Rightarrow> quorum_range option \<Rightarrow> dec res \<Rightarrow> bool" where
  "quorum_in X qr r \<longleftrightarrow> (\<exists>g mn mx q. qr = Some g \<and> LegacyNewDecFromStr X (QMin g) = Some mn \<and> LegacyNewDecFromStr X (QMax g) = Some mx \<and>
     r = Inr q \<and> mn \<le> q \<and> q \<le> mx)"

lemma ema_arith:
  fixes a b x y :: int
  assumes "2 * \<bar>a * precision - x * (8 * 10 ^ 17)\<bar> \<le> precision" and "2 * \<bar>b * precision - y * (2 * 10 ^ 17)\<bar> \<le> precision"
  shows "between x y (a + b)"
proof -
  have "\<bar>10 * a - 8 * x\<bar> \<le> 5" "\<bar>10 * b - 2 * y\<bar> \<le> 5" using assms by (auto simp: precision_def)
  then have "\<bar>5 * a - 4 * x\<bar> \<le> 2" "\<bar>5 * b - y\<bar> \<le> 2" by presburger+
  then show ?thesis by (auto simp: between_def min_def max_def)
qed

context sdk_math
begin

lemma ema_formula_between:
  assumes "0 \<le> x" "x \<le> precision" "0 \<le> y" "y \<le> precision"
  shows "\<exists>z. ema_formula M x y = Inr z \<and> between x y z"
proof -
  have c: "LegacyNewDecWithPrec 8 1 = 8 * 10 ^ 17" "LegacyNewDecWithPrec 2 1 = 2 * 10 ^ 17" by (simp_all add: LegacyNewDecWithPrec_def)
  have "\<bar>x * (8 * 10 ^ 17)\<bar> < 2 ^ 256 * precision" "\<bar>y * (2 * 10 ^ 17)\<bar> < 2 ^ 256 * precision"
    using assms by (simp_all add: precision_def)
  then obtain a b where ab: "dec_Mul M x (8 * 10 ^ 17) = Inr a" "dec_Mul M y (2 * 10 ^ 17) = Inr b"
    using dec_Mul_safe by blast
  have r: "between x y (a + b)" using ema_arith dec_Mul_Inr [OF ab(1)] dec_Mul_Inr [OF ab(2)] by blast
  then have "dec_ok (a + b)" using assms by (auto simp: between_def dec_ok_def dec_max_def precision_def)
  then show ?thesis using ab c r by (simp add: ema_formula_def dec_ok_Add)
qed

lemma next_ema_between:
  assumes "ema_ok e" "0 \<le> y" "y \<le> precision"
  shows "\<exists>z. next_ema M e y = Inr z \<and> ema_ok (Some z) \<and> ema_moved True y e (Some z)"
proof -
  obtain x where x: "e = Some x" "0 \<le> x" "x \<le> precision" using assms(1) by (auto simp: ema_ok_def)
  then show ?thesis
    using ema_formula_between [OF x(2,3) assms(2,3)] assms(2,3)
    by (auto simp: next_ema_def ema_ok_def ema_moved_def between_def min_def max_def split: if_splits)
qed

lemma UpdateParticipationEMA_bounded:
  assumes "mth k = M" and "emas_ok s" and "0 \<le> y" and "y \<le> precision"
  shows "\<exists>s'. UpdateParticipationEMA k pr y s = Inr s' \<and> emas_ok s' \<and>
     ema_moved (HasKindAny (ProposalKinds k pr)) y (ParticipationEMA s) (ParticipationEMA s') \<and>
     ema_moved (HasKindConstitutionAmendment (ProposalKinds k pr)) y (ConstitutionAmendmentParticipationEMA s) (ConstitutionAmendmentParticipationEMA s') \<and>
     ema_moved (HasKindLaw (ProposalKinds k pr)) y (LawParticipationEMA s) (LawParticipationEMA s')"
proof -
  have e: "ema_ok (ParticipationEMA s)" "ema_ok (ConstitutionAmendmentParticipationEMA s)" "ema_ok (LawParticipationEMA s)"
    using assms(2) by (auto simp: emas_ok_def)
  obtain z1 z2 z3 where z: "next_ema M (ParticipationEMA s) y = Inr z1" "ema_ok (Some z1)" "ema_moved True y (ParticipationEMA s) (Some z1)"
    "next_ema M (ConstitutionAmendmentParticipationEMA s) y = Inr z2" "ema_ok (Some z2)"
    "ema_moved True y (ConstitutionAmendmentParticipationEMA s) (Some z2)"
    "next_ema M (LawParticipationEMA s) y = Inr z3" "ema_ok (Some z3)" "ema_moved True y (LawParticipationEMA s) (Some z3)"
    using next_ema_between e assms(3,4) by metis
  have u: "ema_moved False y o' o'" for o' by (simp add: ema_moved_def)
  show ?thesis
    using z e by (auto simp: UpdateParticipationEMA_def assms(1) emas_ok_def Let_def u)
qed

lemma quorum_in_range_total:
  assumes "mth k = M" and "range_ok (numtext k) qr" and "ema_ok e"
  shows "quorum_in (numtext k) qr (quorum_in_range k e qr)"
proof -
  obtain g mn mx where g: "qr = Some g" "LegacyNewDecFromStr (numtext k) (QMin g) = Some mn"
    "LegacyNewDecFromStr (numtext k) (QMax g) = Some mx" "0 \<le> mn" "mn \<le> mx" "mx \<le> precision"
    using assms(2) by (auto simp: range_ok_def)
  obtain x where x: "e = Some x" "0 \<le> x" "x \<le> precision" using assms(3) by (auto simp: ema_ok_def)
  have parse: "LegacyMustNewDecFromStr (numtext k) (QMin g) = Inr mn" "LegacyMustNewDecFromStr (numtext k) (QMax g) = Inr mx"
    using g by (simp_all add: LegacyMustNewDecFromStr_Inr)
  have "\<bar>(mx - mn) * x\<bar> \<le> precision * precision"
    unfolding abs_mult using g(4-6) x by (intro mult_mono) auto
  then obtain z where z: "dec_Mul M (mx - mn) x = Inr z" using dec_Mul_safe [of "mx - mn" x] by (auto simp: precision_def)
  have b: "0 \<le> z" "z \<le> mx - mn" using dec_Mul_nonneg [OF z] dec_Mul_le_any [OF z] g(5) x by auto
  have "dec_ok (mx - mn)" "dec_ok (mn + z)" using g(4-6) b by (auto simp: dec_ok_def dec_max_def precision_def)
  then show ?thesis
    using g b z x(1) by (auto simp: quorum_in_def quorum_in_range_def computeQuorum_def assms(1) parse dec_ok_Sub dec_ok_Add)
qed

end

section \<open>Quorum checks\<close>

text \<open>Times before the year 2116, far from the ends of \<^verbatim>\<open>int64\<close>; counters in the range of their types.\<close>

definition time_ok :: "time \<Rightarrow> bool" where
  "time_ok t \<longleftrightarrow> 0 \<le> t \<and> t < 2 ^ 62"

definition check_ok :: "(time \<times> int) \<times> quorum_check_queue_entry \<Rightarrow> bool" where
  "check_ok = (\<lambda>((t, _), e). time_ok t \<and> time_ok (QuorumTimeoutTime e) \<and> 0 \<le> QuorumChecksDone e \<and>
     0 \<le> entry_QuorumCheckCount e \<and> entry_QuorumCheckCount e < 2 ^ 63)"

definition voting_ends_ok :: "gov_store \<Rightarrow> bool" where
  "voting_ends_ok s \<longleftrightarrow> (\<forall>i p t. store_get (Proposals s) i = Some p \<longrightarrow> VotingEndTime p = Some t \<longrightarrow> time_ok t)"






lemma voting_ends_SetProposal:
  assumes "voting_ends_ok s" and "\<And>t. VotingEndTime p = Some t \<Longrightarrow> time_ok t"
  shows "voting_ends_ok (SetProposal p s)"
  using assms by (auto simp: voting_ends_ok_def SetProposal_def)


text \<open>The whole walk over the due entries.\<close>

definition queue_ok :: "gov_store \<Rightarrow> bool" where
  "queue_ok s \<longleftrightarrow> store_wf (QuorumCheckQueue s) \<and> (\<forall>x \<in> set (QuorumCheckQueue s). check_ok x) \<and> voting_ends_ok s"





section \<open>An example\<close>

text \<open>Thousandths, and how they are compared.\<close>

definition milli :: "int \<Rightarrow> dec" where
  "milli i = i * 10 ^ 15"

lemma milli_simps [simp]:
  "milli i < milli j \<longleftrightarrow> i < j" "milli i \<le> milli j \<longleftrightarrow> i \<le> j" "milli i - milli j = milli (i - j)"
  "milli i < 0 \<longleftrightarrow> i < 0" "0 < milli i \<longleftrightarrow> 0 < i" "milli i \<le> 0 \<longleftrightarrow> i \<le> 0" "milli i = milli j \<longleftrightarrow> i = j"
  by (simp_all add: milli_def left_diff_distrib)

lemma precision_milli: "precision = milli 1000"
  by (simp add: precision_def milli_def)

definition ex_gov_params :: gov_params where
  "ex_gov_params = (let S = (\<lambda>i. LegacyDec_String ex_text (milli i)) in
     NewParams (Hour * 24 * 14) (Hour * 24 * 21) (S 667) (S 900) (S 900) False False (S 10)
     (Hour * 24 * 20) (Hour * 24) 3
     [\<lparr>Denom = ''atone'', Amount = 10000000\<rparr>] (Hour * 24 * 7) 2 (S 50) (S 25) 2
     [\<lparr>Denom = ''atone'', Amount = 100000\<rparr>] (Hour * 24) 2 (S 10) (S 5) 5
     (S 800) (S 500) (S 100) (S 500) (S 100) (S 500) (S 100) (Hour * 24 * 28) (Int_String ex_text 1000000000))"

lemma parse_milli:
  assumes "\<bar>i\<bar> \<le> 1000"
  shows "LegacyNewDecFromStr ex_text (LegacyDec_String ex_text (milli i)) = Some (milli i)"
  using assms by (intro ext.dec_text) (simp add: dec_ok_def dec_max_def milli_def)

lemma ex_gov_params_valid: "Gov_Params_ValidateBasic ref_math ex_text ex_gov_params = Inr ()"
proof -
  have coins: "Coins_IsValid [\<lparr>Denom = ''atone'', Amount = 10000000\<rparr>]" "Coins_IsValid [\<lparr>Denom = ''atone'', Amount = 100000\<rparr>]"
    by code_simp+
  have self: "NewIntFromString ex_text (Int_String ex_text 1000000000) = Some 1000000000"
    by (intro ext.int_text) (simp add: int_ok_def)
  have sub: "dec_Sub ref_math (milli i) (milli j) = Inr (milli (i - j))" if "\<bar>i - j\<bar> \<le> 1000" for i j
    using that ref.dec_ok_Sub [of "milli i" "milli j"] by (simp add: dec_ok_def dec_max_def milli_def left_diff_distrib)
  note fields = ex_gov_params_def NewParams_def Let_def guardR_def
  have "validate_thresholds ex_text ex_gov_params = Inr (milli 667, milli 900, milli 900)"
    by (simp add: fields validate_thresholds_def validQuorumBound_def validQuorumOrder_def validThreshold_def
      parseDec_def LegacyMustNewDecFromStr_def parse_milli precision_milli)
  moreover have "validate_periods ex_text ex_gov_params = Inr (Hour * 24 * 21)"
    by (simp add: fields validate_periods_def minVotingPeriod_def Hour_def MaxQuorumCheckCount_def parseDec_def parse_milli
      precision_milli wrap64_def signed_divide_int_def)
  ultimately show ?thesis
    by (simp add: Gov_Params_ValidateBasic_def guardR_def)
      (simp add: fields validate_throttler_def validateDepositThrottlerFloor_def coins MaxDepositThrottlerFloorAmount_def Hour_def
        MaxDecreaseSensitivityTargetDistanceDepositThrottler_def validRatio_def parseDec_def parse_milli precision_milli sub self)
qed

definition ex_gov_keeper :: gov_keeper where
  "ex_gov_keeper = \<lparr>mth = ref_math, numtext = ex_text, bankKeeper = ex_keeper, UnpackAny = (\<lambda>_. Some MsgOther),
     MsgValidateBasic = (\<lambda>_. Inr ()), GetMsgV1Signers = (\<lambda>_. Inr []), RouterHandler = (\<lambda>_. None),
     hooks = \<lparr>AfterProposalSubmission = (\<lambda>_. Inr), AfterProposalDeposit = (\<lambda>_ _. Inr), AfterProposalVote = (\<lambda>_ _. Inr),
       AfterProposalFailedMinDeposit = (\<lambda>_. Inr), AfterProposalVotingPeriodEnded = (\<lambda>_. Inr)\<rparr>,
     ParseProposalMetadata = (\<lambda>_. None), authority = ''atone1gov'', MaxMetadataLen = 255,
     Bech32ValidatorAddrPrefix = ''atonevaloper''\<rparr>"

definition ex_proposal :: proposal where
  "ex_proposal = \<lparr>Id = 1, Messages = [], Status = StatusVotingPeriod, FinalTallyResult = EmptyTallyResult ex_text,
     SubmitTime = Some 0, DepositEndTime = Some 50, TotalDeposit = [\<lparr>Denom = ''atone'', Amount = 10000000\<rparr>],
     VotingStartTime = Some 10, VotingEndTime = Some 400, Metadata = [], Title = ''t'', Summary = ''s'', Proposer = ''alice'',
     FailedReason = [], Endorsed = False, Annotation = [], TimesVotingPeriodExtended = 0\<rparr>"

definition ex_gov :: gov_store where
  "ex_gov = \<lparr>Constitution = Some ''c'', gov_Params = Some ex_gov_params, Deposits = [], Votes = [], ProposalID = Some 2,
     Proposals = [(1, ex_proposal)], ActiveProposalsQueue = [((400, 1), 1)], InactiveProposalsQueue = [],
     VotingPeriodProposals = [(1, ())],
     LastMinDeposit = Some \<lparr>Value = [\<lparr>Denom = ''atone'', Amount = 20000000\<rparr>], LTime = Some 0\<rparr>,
     LastMinInitialDeposit = None, ParticipationEMA = Some (precision div 2),
     ConstitutionAmendmentParticipationEMA = Some (precision div 2), LawParticipationEMA = Some (precision div 2),
     QuorumCheckQueue = [((100, 1), NewQuorumCheckQueueEntry 100 3)], Governors = [], GovernanceDelegations = [],
     GovernanceDelegationsByGovernor = [], ValidatorSharesByGovernor = [], ActiveGovernorsByDelegatedValidator = [],
     bank = ex_bank, staking = \<lparr>TotalBondedTokens = Inr 0, BondedValidatorsByPower = Inr [], DelegationsOf = (\<lambda>_. Inr []),
       GetValidator = (\<lambda>_. Inl (Err ''not found'')), GetDelegation = (\<lambda>_ _. Inl (Err ''not found''))\<rparr>\<rparr>"

lemma ex_gov_simps:
  "mth ex_gov_keeper = ref_math" "numtext ex_gov_keeper = ex_text" "gov_Params ex_gov = Some ex_gov_params"
  "MaxVotingPeriodExtension ex_gov_params = Some (Hour * 24)"
  by (simp_all add: ex_gov_keeper_def ex_gov_def ex_gov_params_def NewParams_def Let_def)

lemma ex_gov_ok: "targets_typed ex_gov_params" "min_deposit_ok (LastMinDeposit ex_gov)" "min_deposit_ok (LastMinInitialDeposit ex_gov)"
  "length (ActiveProposalsQueue ex_gov) < 2 ^ 64" "length (InactiveProposalsQueue ex_gov) < 2 ^ 64" "emas_ok ex_gov" "queue_ok ex_gov"
proof -
  show "targets_typed ex_gov_params" by (simp add: targets_typed_def ex_gov_params_def NewParams_def Let_def)
  have "Coins_IsValid [\<lparr>Denom = ''atone'', Amount = 20000000\<rparr>]" by code_simp
  then show "min_deposit_ok (LastMinDeposit ex_gov)" by (simp add: min_deposit_ok_def ex_gov_def fits_def int_ok_def)
  show "min_deposit_ok (LastMinInitialDeposit ex_gov)" by (simp add: min_deposit_ok_def ex_gov_def)
  show "emas_ok ex_gov" by (simp add: emas_ok_def ema_ok_def ex_gov_def precision_def)
  show "queue_ok ex_gov"
    by (auto simp: queue_ok_def ex_gov_def store_wf_def check_ok_def time_ok_def NewQuorumCheckQueueEntry_def voting_ends_ok_def
      store_get_def ex_proposal_def split: if_splits)
qed (simp_all add: ex_gov_def)

section \<open>Properties\<close>

text \<open>C9: with validated parameters an update of a minimum deposit or minimum initial deposit never fails or
  panics, whatever the number of proposals and the target: it leaves the state unchanged or stores
  valid coins whose denominations are those of the floor and whose amounts are at or above it; an update at
  the end of a block never raises an amount above the larger of its value and the floor, and an
  update by a new proposal never lowers one (below \<open>10\<^sup>6\<^sup>9\<close> units, where the clamp does not bite).\<close>

theorem min_deposits_follow_activity:
  assumes "sdk_math (mth k)" and "Gov_Params_ValidateBasic (mth k) (numtext k) p = Inr ()" and "targets_typed p"
    and "gov_Params s = Some p" and "min_deposit_ok (LastMinDeposit s)" and "min_deposit_ok (LastMinInitialDeposit s)"
    and "length (ActiveProposalsQueue s) < 2 ^ 64" and "length (InactiveProposalsQueue s) < 2 ^ 64"
  shows "(\<exists>t cur s'. MinDepositThrottler p = Some t \<and> getMinDeposit s = Inr cur \<and> UpdateMinDeposit k bt chk s = Inr s' \<and>
      (s' = s \<or> (\<exists>new. s' = s\<lparr>LastMinDeposit := Some \<lparr>Value = new, LTime = Some bt\<rparr>\<rparr> \<and> Coins_IsValid new \<and> fits new \<and>
        moved chk (FloorValue t) (Value cur) new))) \<and>
    (\<exists>u cur s'. MinInitialDepositThrottler p = Some u \<and> getMinInitialDeposit s = Inr cur \<and> UpdateMinInitialDeposit k bt chk s = Inr s' \<and>
      (s' = s \<or> (\<exists>new. s' = s\<lparr>LastMinInitialDeposit := Some \<lparr>Value = new, LTime = Some bt\<rparr>\<rparr> \<and> Coins_IsValid new \<and> fits new \<and>
        moved chk (init_FloorValue u) (Value cur) new)))"
proof
  note t = Gov_ValidateBasicD(1) [OF assms(2)]
  show "\<exists>t cur s'. MinDepositThrottler p = Some t \<and> getMinDeposit s = Inr cur \<and> UpdateMinDeposit k bt chk s = Inr s' \<and>
      (s' = s \<or> (\<exists>new. s' = s\<lparr>LastMinDeposit := Some \<lparr>Value = new, LTime = Some bt\<rparr>\<rparr> \<and> Coins_IsValid new \<and> fits new \<and>
        moved chk (FloorValue t) (Value cur) new))"
    by (rule sdk_math.UpdateMinDeposit_total [OF assms(1,4) t assms(3) refl assms(5,7)])
  show "\<exists>u cur s'. MinInitialDepositThrottler p = Some u \<and> getMinInitialDeposit s = Inr cur \<and> UpdateMinInitialDeposit k bt chk s = Inr s' \<and>
      (s' = s \<or> (\<exists>new. s' = s\<lparr>LastMinInitialDeposit := Some \<lparr>Value = new, LTime = Some bt\<rparr>\<rparr> \<and> Coins_IsValid new \<and> fits new \<and>
        moved chk (init_FloorValue u) (Value cur) new))"
    by (rule sdk_math.UpdateMinInitialDeposit_total [OF assms(1,4) t assms(3) refl assms(6,8)])
qed

theorem min_deposits_follow_activity_witness:
  "Gov_Params_ValidateBasic ref_math ex_text ex_gov_params = Inr () \<and>
   (\<exists>s'. UpdateMinDeposit ex_gov_keeper (Hour * 24 * 8) True ex_gov = Inr s') \<and>
   (\<exists>s'. UpdateMinInitialDeposit ex_gov_keeper 100 False ex_gov = Inr s')"
  using min_deposits_follow_activity [of ex_gov_keeper ex_gov_params ex_gov, unfolded ex_gov_simps(1,2),
      OF ref_math_laws ex_gov_params_valid ex_gov_ok(1) ex_gov_simps(3) ex_gov_ok(2-5)] ex_gov_params_valid
  by blast

text \<open>C11: with validated parameters and participation averages between zero and one, each of the three
  quorums is computed without a panic and lies within its configured range, and the end of a vote with
  a participation between zero and one moves the averages of the kinds of the proposal to a value
  between the old one and the participation, rounding included, and leaves the others alone.\<close>

theorem quorums_stay_in_range:
  assumes "sdk_math (mth k)" and "Gov_Params_ValidateBasic (mth k) (numtext k) p = Inr ()" and "gov_Params s = Some p"
    and "emas_ok s" and "0 \<le> y" and "y \<le> precision"
  shows "quorum_in (numtext k) (QuorumRange p) (GetQuorum k s) \<and>
    quorum_in (numtext k) (ConstitutionAmendmentQuorumRange p) (GetConstitutionAmendmentQuorum k s) \<and>
    quorum_in (numtext k) (LawQuorumRange p) (GetLawQuorum k s) \<and>
    (\<exists>s'. UpdateParticipationEMA k pr y s = Inr s' \<and> emas_ok s' \<and>
       ema_moved (HasKindAny (ProposalKinds k pr)) y (ParticipationEMA s) (ParticipationEMA s') \<and>
       ema_moved (HasKindConstitutionAmendment (ProposalKinds k pr)) y (ConstitutionAmendmentParticipationEMA s) (ConstitutionAmendmentParticipationEMA s') \<and>
       ema_moved (HasKindLaw (ProposalKinds k pr)) y (LawParticipationEMA s) (LawParticipationEMA s'))"
proof (intro conjI)
  obtain r where "validate_thresholds (numtext k) p = Inr r" using Gov_ValidateBasicD(2) [OF assms(2)] by blast
  note r = validate_thresholdsD [OF this]
  have e: "ema_ok (ParticipationEMA s)" "ema_ok (ConstitutionAmendmentParticipationEMA s)" "ema_ok (LawParticipationEMA s)"
    using assms(4) by (auto simp: emas_ok_def)
  note q = sdk_math.quorum_in_range_total [OF assms(1) refl]
  show "quorum_in (numtext k) (QuorumRange p) (GetQuorum k s)"
    "quorum_in (numtext k) (ConstitutionAmendmentQuorumRange p) (GetConstitutionAmendmentQuorum k s)"
    "quorum_in (numtext k) (LawQuorumRange p) (GetLawQuorum k s)"
    using q [OF r(1) e(1)] q [OF r(2) e(2)] q [OF r(3) e(3)] assms(3)
    by (simp_all add: GetQuorum_def GetConstitutionAmendmentQuorum_def GetLawQuorum_def Params_Get_def)
qed (rule sdk_math.UpdateParticipationEMA_bounded [OF assms(1) refl assms(4-6)])

theorem quorums_stay_in_range_witness:
  "emas_ok ex_gov \<and> quorum_in ex_text (QuorumRange ex_gov_params) (GetQuorum ex_gov_keeper ex_gov) \<and>
   (\<exists>s'. UpdateParticipationEMA ex_gov_keeper ex_proposal (precision div 4) ex_gov = Inr s' \<and> emas_ok s')"
proof -
  have y: "0 \<le> precision div 4" "precision div 4 \<le> precision" by (simp_all add: precision_def)
  show ?thesis
    using quorums_stay_in_range [of ex_gov_keeper ex_gov_params ex_gov, unfolded ex_gov_simps(1,2),
      OF ref_math_laws ex_gov_params_valid ex_gov_simps(3) ex_gov_ok(6) y] ex_gov_ok(6) by blast
qed



end
