(* ===== verification/GovTallySpec.thy ===== *)
theory GovTallySpec
  imports GovDynamics
begin

text \<open>
  What a tally counts, stated without the loops of \<^verbatim>\<open>x/gov/keeper/tally.go\<close>. A voter counts with the power of
  its own delegations to bonded validators. A governor that voted counts with the power of the
  shares delegated to it, less the shares of those of its delegators that voted themselves. The loops
  keep running totals and, for every governor met, a map of deductions; the invariant of the walk over the votes
  says what these hold after each vote.
\<close>

section \<open>The specification\<close>

definition pow :: "math_ops \<Rightarrow> dec \<Rightarrow> validator \<Rightarrow> dec" where
  "pow M x val = (case share_power M x val of Inr p \<Rightarrow> p | Inl _ \<Rightarrow> 0)"

definition opt_pow :: "gov_keeper \<Rightarrow> weighted_vote_options \<Rightarrow> dec \<Rightarrow> vote_option \<Rightarrow> dec" where
  "opt_pow k options P opt = (\<Sum>w \<leftarrow> options. if Option w = opt
     then (case WeightedVoteOption_Power (mth k) (numtext k) w P of Inr x \<Rightarrow> x | Inl _ \<Rightarrow> 0) else 0)"

definition del_power :: "gov_keeper \<Rightarrow> (string, validator) store \<Rightarrow> delegation \<Rightarrow> dec" where
  "del_power k vals d = (case store_get vals (canonicalValAddr (del_Validator d)) of None \<Rightarrow> 0
     | Some val \<Rightarrow> pow (mth k) (del_Shares d) val)"

definition voter_of :: "gov_keeper \<Rightarrow> vote \<Rightarrow> string" where
  "voter_of k v = (case StringToBytes (gov_codec k) (Voter v) of Inr a \<Rightarrow> a | Inl _ \<Rightarrow> [])"

definition stakes :: "gov_store \<Rightarrow> string \<Rightarrow> delegation list" where
  "stakes s a = (case DelegationsOf (staking s) a of Inr ds \<Rightarrow> ds | Inl _ \<Rightarrow> [])"

definition governor_of :: "gov_keeper \<Rightarrow> gov_store \<Rightarrow> vote \<Rightarrow> string option" where
  "governor_of k s v = map_option gd_Governor (store_get (GovernanceDelegations s) (voter_of k v))"

text \<open>The shares on a validator that voting delegators of a governor hold themselves.\<close>

definition own_shares :: "gov_keeper \<Rightarrow> gov_store \<Rightarrow> vote \<Rightarrow> string \<Rightarrow> dec" where
  "own_shares k s v val = (\<Sum>d \<leftarrow> stakes s (voter_of k v). if canonicalValAddr (del_Validator d) = val then del_Shares d else 0)"

definition deducted :: "gov_keeper \<Rightarrow> gov_store \<Rightarrow> vote list \<Rightarrow> string \<Rightarrow> string \<Rightarrow> dec" where
  "deducted k s vs g val = (\<Sum>v \<leftarrow> vs. if governor_of k s v = Some g then own_shares k s v val else 0)"

text \<open>The governor's own vote: the one of the account behind the governor's address.\<close>

definition self_vote :: "gov_keeper \<Rightarrow> gov_store \<Rightarrow> string \<Rightarrow> vote \<Rightarrow> bool" where
  "self_vote k s g v \<longleftrightarrow> governor_of k s v = Some g \<and> GovernorAddress_String k (voter_of k v) = Inr g"

definition governor_vote :: "gov_keeper \<Rightarrow> gov_store \<Rightarrow> vote list \<Rightarrow> string \<Rightarrow> weighted_vote_options" where
  "governor_vote k s vs g = (let us = filter (self_vote k s g) vs in if us = [] then [] else Options (last us))"

definition governor_info :: "gov_keeper \<Rightarrow> gov_store \<Rightarrow> string \<Rightarrow> governor_gov_info" where
  "governor_info k s g = (let a = (case MustGovernorAddressFromBech32 k g of Inr a \<Rightarrow> a | Inl _ \<Rightarrow> []) in
     NewGovernorGovInfo a (governor_shares s a) [])"

definition governor_power :: "gov_keeper \<Rightarrow> gov_store \<Rightarrow> (string, validator) store \<Rightarrow> vote list \<Rightarrow> string \<Rightarrow> dec" where
  "governor_power k s vals vs g = (\<Sum>(val, shares) \<leftarrow> ValShares (governor_info k s g). case store_get vals val of None \<Rightarrow> 0
     | Some v \<Rightarrow> pow (mth k) (shares - deducted k s vs g val) v)"

definition voting_governors :: "gov_keeper \<Rightarrow> gov_store \<Rightarrow> vote list \<Rightarrow> string set" where
  "voting_governors k s vs = {g \<in> (\<lambda>v. the (governor_of k s v)) ` {v \<in> set vs. governor_of k s v \<noteq> None}.
     governor_vote k s vs g \<noteq> [] \<and> (\<exists>gov. store_get (Governors s) (gi_Address (governor_info k s g)) = Some gov \<and>
       ValidateGovernorMinSelfDelegation k s gov = Inr True)}"

definition spec_total :: "gov_keeper \<Rightarrow> gov_store \<Rightarrow> (string, validator) store \<Rightarrow> vote list \<Rightarrow> dec" where
  "spec_total k s vals vs = (\<Sum>v \<leftarrow> vs. \<Sum>d \<leftarrow> stakes s (voter_of k v). del_power k vals d)
     + (\<Sum>g \<in> voting_governors k s vs. governor_power k s vals vs g)"

definition spec_result :: "gov_keeper \<Rightarrow> gov_store \<Rightarrow> (string, validator) store \<Rightarrow> vote list \<Rightarrow> vote_option \<Rightarrow> dec" where
  "spec_result k s vals vs opt = (\<Sum>v \<leftarrow> vs. \<Sum>d \<leftarrow> stakes s (voter_of k v). opt_pow k (Options v) (del_power k vals d) opt)
     + (\<Sum>g \<in> voting_governors k s vs. opt_pow k (governor_vote k s vs g) (governor_power k s vals vs g) opt)"

section \<open>One vote\<close>

lemma addResults_eq:
  assumes "sdk_math (mth k)" and "addResults k isFinal options P r = Inr r'" and "\<not> isFinal \<Longrightarrow> r = Map.empty"
  shows "r' opt = map_option (\<lambda>x. x + opt_pow k options P opt) (r opt)"
proof (cases isFinal)
  case True
  then have "foldR (\<lambda>w r. bindR (WeightedVoteOption_Power (mth k) (numtext k) w P) (\<lambda>subPower.
      bindR (deref (r (Option w))) (\<lambda>old. bindR (dec_Add (mth k) old subPower) (\<lambda>new. Inr (r(Option w \<mapsto> new)))))) options r = Inr r'"
    using assms(2) by (simp add: addResults_def)
  then show ?thesis
  proof (induction options arbitrary: r)
    case Nil
    then show ?case by (simp add: opt_pow_def option.map_ident)
  next
    case (Cons w ws)
    then obtain p old where p: "WeightedVoteOption_Power (mth k) (numtext k) w P = Inr p" "r (Option w) = Some old"
      and rest: "r' opt = map_option (\<lambda>x. x + opt_pow k ws P opt) ((r(Option w \<mapsto> old + p)) opt)"
      by (auto simp: bindR_eq_Inr sdk_math.dec_Add_Inr [OF assms(1)] deref_def split: option.splits dest!: sdk_math.dec_Add_Inr [OF assms(1)])
    then show ?case by (cases "opt = Option w") (auto simp: opt_pow_def option.map_comp comp_def)
  qed
next
  case False
  then show ?thesis using assms(2,3) by (auto simp: addResults_def)
qed

text \<open>One delegation of a voter.\<close>

lemma tallyDelegation_eq:
  assumes "sdk_math (mth k)" and "tallyDelegation k vals isFinal options hasGov d (D, tot, r) = Inr (D', tot', r')"
    and "\<not> isFinal \<Longrightarrow> r = Map.empty"
  shows "tot' = tot + del_power k vals d" and "r' opt = map_option (\<lambda>x. x + opt_pow k options (del_power k vals d) opt) (r opt)"
    and "store_get D' val = map_option (\<lambda>x. x + (if hasGov \<and> canonicalValAddr (del_Validator d) = val \<and> store_get vals val \<noteq> None
      then del_Shares d else 0)) (store_get D val)"
    and "\<not> hasGov \<Longrightarrow> D' = D"
proof -
  note add = sdk_math.dec_Add_Inr [OF assms(1)]
  obtain P D1 t1 where s: "(case store_get vals (canonicalValAddr (del_Validator d)) of
         None \<Rightarrow> Inr (0, D)
       | Some v \<Rightarrow> bindR (share_power (mth k) (del_Shares d) v) (\<lambda>p. bindR (dec_Add (mth k) 0 p) (\<lambda>votingPower.
           if hasGov then (case store_get D (canonicalValAddr (del_Validator d)) of
               None \<Rightarrow> Inr (votingPower, D)
             | Some deduction \<Rightarrow> bindR (dec_Add (mth k) deduction (del_Shares d)) (\<lambda>x.
                 Inr (votingPower, store_put D (canonicalValAddr (del_Validator d)) x)))
           else Inr (votingPower, D)))) = Inr (P, D')"
    and t: "dec_Add (mth k) tot P = Inr tot'" and ar: "addResults k isFinal options P r = Inr r'"
    using assms(2) by (auto simp: tallyDelegation_def Let_def bindR_eq_Inr)
  have P: "P = del_power k vals d"
    using s by (auto simp: del_power_def pow_def bindR_eq_Inr dest!: add split: option.splits if_splits)
  show "tot' = tot + del_power k vals d" using add [OF t] P by simp
  show "r' opt = map_option (\<lambda>x. x + opt_pow k options (del_power k vals d) opt) (r opt)"
    using addResults_eq [OF assms(1) ar assms(3)] P by simp
  show "store_get D' val = map_option (\<lambda>x. x + (if hasGov \<and> canonicalValAddr (del_Validator d) = val \<and> store_get vals val \<noteq> None
      then del_Shares d else 0)) (store_get D val)"
    using s by (cases "store_get D val"; cases "canonicalValAddr (del_Validator d) = val")
      (auto simp: bindR_eq_Inr dest!: add split: option.splits if_splits)
  show "D' = D" if "\<not> hasGov" using s that by (auto simp: bindR_eq_Inr split: option.splits)
qed

lemma tallyDelegations_eq:
  assumes "sdk_math (mth k)" and "foldR (tallyDelegation k vals isFinal options hasGov) ds (D, tot, r) = Inr (D', tot', r')"
    and "\<not> isFinal \<Longrightarrow> r = Map.empty"
  shows "tot' = tot + (\<Sum>d \<leftarrow> ds. del_power k vals d) \<and>
    (\<forall>opt. r' opt = map_option (\<lambda>x. x + (\<Sum>d \<leftarrow> ds. opt_pow k options (del_power k vals d) opt)) (r opt)) \<and>
    (\<forall>val. store_get D' val = map_option (\<lambda>x. x + (if hasGov \<and> store_get vals val \<noteq> None
      then \<Sum>d \<leftarrow> ds. if canonicalValAddr (del_Validator d) = val then del_Shares d else 0 else 0)) (store_get D val)) \<and>
    (\<not> hasGov \<longrightarrow> D' = D)"
  using assms(2,3)
proof (induction ds arbitrary: D tot r)
  case Nil
  then show ?case by (simp add: option.map_ident)
next
  case (Cons d ds)
  obtain D1 t1 r1 where e: "tallyDelegation k vals isFinal options hasGov d (D, tot, r) = Inr (D1, t1, r1)"
    and f: "foldR (tallyDelegation k vals isFinal options hasGov) ds (D1, t1, r1) = Inr (D', tot', r')"
    using Cons.prems(1) by (auto simp: bindR_eq_Inr)
  note h = tallyDelegation_eq [OF assms(1) e Cons.prems(2)]
  have "r1 = Map.empty" if "\<not> isFinal" using h(2) Cons.prems(2) that by (intro ext) auto
  note ih = Cons.IH [OF f this]
  show ?case
  proof (intro conjI allI)
    fix val
    have "store_get D' val = map_option (\<lambda>x. x + (if hasGov \<and> store_get vals val \<noteq> None
      then \<Sum>d \<leftarrow> ds. if canonicalValAddr (del_Validator d) = val then del_Shares d else 0 else 0)) (store_get D1 val)"
      using ih by blast
    then show "store_get D' val = map_option (\<lambda>x. x + (if hasGov \<and> store_get vals val \<noteq> None
      then \<Sum>d \<leftarrow> d # ds. if canonicalValAddr (del_Validator d) = val then del_Shares d else 0 else 0)) (store_get D val)"
      using h(3) [of val] by (cases "store_get D val"; cases "hasGov \<and> store_get vals val \<noteq> None"; cases "canonicalValAddr (del_Validator d) = val") auto
  qed (use ih h(1,2,4) in \<open>simp_all add: option.map_comp comp_def add.assoc\<close>)
qed

section \<open>The walk over the votes\<close>

definition governor_ok :: "gov_keeper \<Rightarrow> gov_store \<Rightarrow> (string, validator) store \<Rightarrow> vote list \<Rightarrow> string \<Rightarrow> governor_gov_info \<Rightarrow> bool" where
  "governor_ok k s vals vs g gi \<longleftrightarrow> gi_Address gi = gi_Address (governor_info k s g) \<and> ValShares gi = ValShares (governor_info k s g) \<and>
     gi_Vote gi = governor_vote k s vs g \<and> (\<forall>val. store_get (ValSharesDeductions gi) val =
       map_option (\<lambda>_. if store_get vals val \<noteq> None then deducted k s vs g val else 0) (store_get (ValShares gi) val))"

definition tally_inv :: "gov_keeper \<Rightarrow> gov_store \<Rightarrow> (string, validator) store \<Rightarrow> tally_map \<Rightarrow> vote list \<Rightarrow> tally_state \<Rightarrow> bool" where
  "tally_inv k s vals r0 vs ts \<longleftrightarrow> store_wf (allGovernors ts) \<and> ts_store ts = s\<lparr>Votes := Votes (ts_store ts)\<rparr> \<and>
     totalVotingPower ts = (\<Sum>v \<leftarrow> vs. \<Sum>d \<leftarrow> stakes s (voter_of k v). del_power k vals d) \<and>
     (\<forall>opt. results ts opt = map_option (\<lambda>x. x +
        (\<Sum>v \<leftarrow> vs. \<Sum>d \<leftarrow> stakes s (voter_of k v). opt_pow k (Options v) (del_power k vals d) opt)) (r0 opt)) \<and>
     (\<forall>g. case store_get (allGovernors ts) g of None \<Rightarrow> \<forall>v \<in> set vs. governor_of k s v \<noteq> Some g
       | Some gi \<Rightarrow> (\<exists>v \<in> set vs. governor_of k s v = Some g) \<and> governor_ok k s vals vs g gi)"

lemma NewGovernorGovInfo_deductions:
  "store_get (ValSharesDeductions (NewGovernorGovInfo a vs opts)) val = map_option (\<lambda>_. 0) (store_get (ValShares (NewGovernorGovInfo a vs opts)) val)"
proof -
  have "store_get (foldl (\<lambda>m vs. store_put m (gvs_Validator vs) 0) D vs) val
      = map_option (\<lambda>_. 0) (store_get (foldl (\<lambda>m vs. store_put m (gvs_Validator vs) (Shares vs)) S vs) val)"
    if "store_get D val = map_option (\<lambda>_. 0) (store_get S val)" for D :: "(string, dec) store" and S
    using that by (induction vs arbitrary: D S) auto
  then show ?thesis by (simp add: NewGovernorGovInfo_def store_get_def)
qed

lemma votes_snoc:
  "deducted k s (vs @ [v]) g val = deducted k s vs g val + (if governor_of k s v = Some g then own_shares k s v val else 0)"
  "governor_vote k s (vs @ [v]) g = (if self_vote k s g v then Options v else governor_vote k s vs g)"
  by (auto simp: deducted_def governor_vote_def Let_def)

lemma governor_ok_fresh:
  assumes "\<forall>v \<in> set vs. governor_of k s v \<noteq> Some g" and "MustGovernorAddressFromBech32 k g = Inr a"
  shows "governor_ok k s vals vs g (NewGovernorGovInfo a (governor_shares s a) [])"
proof -
  have "deducted k s vs g val = 0" for val using assms(1) by (induction vs) (auto simp: deducted_def)
  moreover have "governor_vote k s vs g = []"
    using assms(1) by (auto simp: governor_vote_def self_vote_def filter_empty_conv Let_def)
  ultimately show ?thesis
    using assms(2) by (simp add: governor_ok_def governor_info_def NewGovernorGovInfo_deductions) (simp add: NewGovernorGovInfo_def)
qed

lemma governor_ok_other:
  "governor_ok k s vals vs g gi \<Longrightarrow> governor_of k s v \<noteq> Some g \<Longrightarrow> governor_ok k s vals (vs @ [v]) g gi"
  by (simp add: governor_ok_def votes_snoc self_vote_def)

lemma governor_ok_vote:
  assumes "governor_ok k s vals vs g gi" and "governor_of k s v = Some g" and "GovernorAddress_String k (voter_of k v) = Inr own"
    and "\<forall>val. store_get D val = map_option (\<lambda>x. x + (if store_get vals val \<noteq> None then own_shares k s v val else 0)) (store_get (ValSharesDeductions gi) val)"
  shows "governor_ok k s vals (vs @ [v]) g ((if g = own then gi\<lparr>gi_Vote := Options v\<rparr> else gi)\<lparr>ValSharesDeductions := D\<rparr>)"
  using assms by (auto simp: governor_ok_def votes_snoc self_vote_def option.map_comp comp_def intro!: option.map_cong)

lemma governors_step:
  assumes gov: "(case store_get (GovernanceDelegations s) (voter_of k v) of None \<Rightarrow> Inr None
       | Some gd \<Rightarrow> bindR (lookupGovernor k s gs (gd_Governor gd)) (\<lambda>gi.
           bindR (GovernorAddress_String k (voter_of k v)) (\<lambda>own.
           Inr (Some (gd_Governor gd, if gd_Governor gd = own then gi\<lparr>gi_Vote := Options v\<rparr> else gi))))) = Inr gov"
    and inv: "\<And>g. case store_get gs g of None \<Rightarrow> \<forall>u \<in> set vs. governor_of k s u \<noteq> Some g
       | Some gi \<Rightarrow> (\<exists>u \<in> set vs. governor_of k s u = Some g) \<and> governor_ok k s vals vs g gi"
    and D: "\<And>address gi val. gov = Some (address, gi) \<Longrightarrow> store_get D val =
       map_option (\<lambda>x. x + (if store_get vals val \<noteq> None then own_shares k s v val else 0)) (store_get (ValSharesDeductions gi) val)"
  shows "case store_get (case gov of None \<Rightarrow> gs | Some (address, gi) \<Rightarrow> store_put gs address (gi\<lparr>ValSharesDeductions := D\<rparr>)) g of
         None \<Rightarrow> \<forall>u \<in> set (vs @ [v]). governor_of k s u \<noteq> Some g
       | Some gi \<Rightarrow> (\<exists>u \<in> set (vs @ [v]). governor_of k s u = Some g) \<and> governor_ok k s vals (vs @ [v]) g gi"
proof (cases gov)
  case None
  then have "governor_of k s v \<noteq> Some g" using gov by (auto simp: governor_of_def bindR_eq_Inr split: option.splits)
  then show ?thesis using inv [of g] None by (auto intro: governor_ok_other split: option.splits)
next
  case (Some x)
  then obtain gd gi own where g: "store_get (GovernanceDelegations s) (voter_of k v) = Some gd"
    and l: "lookupGovernor k s gs (gd_Governor gd) = Inr gi" and o: "GovernorAddress_String k (voter_of k v) = Inr own"
    and x: "x = (gd_Governor gd, if gd_Governor gd = own then gi\<lparr>gi_Vote := Options v\<rparr> else gi)"
    using gov by (auto simp: bindR_eq_Inr split: option.splits)
  have go: "governor_of k s v = Some (gd_Governor gd)" by (simp add: governor_of_def g)
  have "governor_ok k s vals vs (gd_Governor gd) gi"
    using l inv [of "gd_Governor gd"] by (auto simp: lookupGovernor_def bindR_eq_Inr intro: governor_ok_fresh split: option.splits)
  then have "governor_ok k s vals (vs @ [v]) (gd_Governor gd)
      ((if gd_Governor gd = own then gi\<lparr>gi_Vote := Options v\<rparr> else gi)\<lparr>ValSharesDeductions := D\<rparr>)"
    using D Some x by (intro governor_ok_vote) (simp_all add: go o)
  then show ?thesis
    using inv [of g] go Some x by (cases "g = gd_Governor gd") (auto intro: governor_ok_other split: option.splits)
qed

lemma tallyVote_inv:
  assumes "sdk_math (mth k)" and "tallyVote k vals isFinal (key, v) ts = Inr ts'" and "tally_inv k s vals r0 vs ts"
    and "\<not> isFinal \<Longrightarrow> r0 = Map.empty"
  shows "tally_inv k s vals r0 (vs @ [v]) ts'"
proof -
  obtain a where a: "StringToBytes (gov_codec k) (Voter v) = Inr a" using assms(2) by (auto simp: tallyVote_def Let_def bindR_eq_Inr)
  then have vo: "voter_of k v = a" by (simp add: voter_of_def)
  have st: "ts_store ts = s\<lparr>Votes := Votes (ts_store ts)\<rparr>" and wf: "store_wf (allGovernors ts)" using assms(3) by (auto simp: tally_inv_def)
  have fr: "GovernanceDelegations (ts_store ts) = GovernanceDelegations s" "staking (ts_store ts) = staking s"
    "governor_shares (ts_store ts) x = governor_shares s x" for x
    by (subst st, simp add: governor_shares_def)+
  obtain gov ds D tot r where gov: "(case store_get (GovernanceDelegations s) a of None \<Rightarrow> Inr None
       | Some gd \<Rightarrow> bindR (lookupGovernor k (ts_store ts) (allGovernors ts) (gd_Governor gd)) (\<lambda>gi.
           bindR (GovernorAddress_String k a) (\<lambda>own.
           Inr (Some (gd_Governor gd, if gd_Governor gd = own then gi\<lparr>gi_Vote := Options v\<rparr> else gi))))) = Inr gov"
    and ds: "DelegationsOf (staking s) a = Inr ds"
    and fold: "foldR (tallyDelegation k vals isFinal (Options v) (gov \<noteq> None)) ds
         (case gov of None \<Rightarrow> [] | Some (_, gi) \<Rightarrow> ValSharesDeductions gi, totalVotingPower ts, results ts) = Inr (D, tot, r)"
    and ts': "ts' = ts\<lparr>allGovernors := (case gov of None \<Rightarrow> allGovernors ts
            | Some (address, gi) \<Rightarrow> store_put (allGovernors ts) address (gi\<lparr>ValSharesDeductions := D\<rparr>)),
          totalVotingPower := tot, results := r,
          ts_store := (if isFinal then (ts_store ts)\<lparr>Votes := store_rem (Votes (ts_store ts)) (vote_ProposalId v, AccKey a)\<rparr> else ts_store ts)\<rparr>"
    using assms(2) by (auto simp: tallyVote_def Let_def a fr bindR_eq_Inr)
  have "results ts = Map.empty" if "\<not> isFinal" using assms(3,4) that by (intro ext) (simp add: tally_inv_def)
  note t = tallyDelegations_eq [OF assms(1) fold this]
  have sk: "stakes s (voter_of k v) = ds" by (simp add: stakes_def vo ds)
  have inv: "case store_get (allGovernors ts) g of None \<Rightarrow> \<forall>u \<in> set vs. governor_of k s u \<noteq> Some g
       | Some gi \<Rightarrow> (\<exists>u \<in> set vs. governor_of k s u = Some g) \<and> governor_ok k s vals vs g gi" for g
    using assms(3) by (simp add: tally_inv_def)
  have lk: "lookupGovernor k (ts_store ts) gs x = lookupGovernor k s gs x" for gs x unfolding lookupGovernor_def fr ..
  have "case store_get (allGovernors ts') g of None \<Rightarrow> \<forall>u \<in> set (vs @ [v]). governor_of k s u \<noteq> Some g
       | Some gi \<Rightarrow> (\<exists>u \<in> set (vs @ [v]). governor_of k s u = Some g) \<and> governor_ok k s vals (vs @ [v]) g gi" for g
    using governors_step [OF gov [folded vo, unfolded lk] inv, of D g] t by (simp add: ts' own_shares_def sk)
  moreover have "store_wf (allGovernors ts')" using wf by (auto simp: ts' split: option.splits)
  moreover have "ts_store ts' = s\<lparr>Votes := Votes (ts_store ts')\<rparr>"
    by (cases isFinal; simp add: ts'; subst st; simp)
  moreover have "totalVotingPower ts' = (\<Sum>v \<leftarrow> vs @ [v]. \<Sum>d \<leftarrow> stakes s (voter_of k v). del_power k vals d)"
    using assms(3) t by (simp add: ts' tally_inv_def sk)
  moreover have "results ts' opt = map_option (\<lambda>x. x +
      (\<Sum>v \<leftarrow> vs @ [v]. \<Sum>d \<leftarrow> stakes s (voter_of k v). opt_pow k (Options v) (del_power k vals d) opt)) (r0 opt)" for opt
  proof -
    have "results ts' opt = map_option (\<lambda>x. x + (\<Sum>d \<leftarrow> ds. opt_pow k (Options v) (del_power k vals d) opt)) (results ts opt)"
      using t by (simp add: ts')
    also have "results ts opt = map_option (\<lambda>x. x +
      (\<Sum>v \<leftarrow> vs. \<Sum>d \<leftarrow> stakes s (voter_of k v). opt_pow k (Options v) (del_power k vals d) opt)) (r0 opt)"
      using assms(3) by (simp add: tally_inv_def)
    finally show ?thesis by (simp add: sk option.map_comp comp_def add.assoc)
  qed
  ultimately show ?thesis unfolding tally_inv_def by blast
qed

lemma tallyVote_walk:
  assumes "sdk_math (mth k)" and "foldR (tallyVote k vals isFinal) es ts = Inr ts'" and "tally_inv k s vals r0 vs ts"
    and "\<not> isFinal \<Longrightarrow> r0 = Map.empty"
  shows "tally_inv k s vals r0 (vs @ map snd es) ts'"
  using assms(2,3)
proof (induction es arbitrary: ts vs)
  case (Cons e es)
  obtain ts1 where "tallyVote k vals isFinal e ts = Inr ts1" "foldR (tallyVote k vals isFinal) es ts1 = Inr ts'"
    using Cons.prems(1) by (auto simp: bindR_eq_Inr)
  then show ?case
    using Cons.IH [of ts1 "vs @ [snd e]"] tallyVote_inv [OF assms(1) _ Cons.prems(2) assms(4), of isFinal "fst e" "snd e"] by simp
qed simp

section \<open>The governors\<close>

lemma self_delegation_frame: "ValidateGovernorMinSelfDelegation k (s\<lparr>Votes := x\<rparr>) g = ValidateGovernorMinSelfDelegation k s g"
proof -
  have e: "staking (s\<lparr>Votes := x\<rparr>) = staking s" "gov_Params (s\<lparr>Votes := x\<rparr>) = gov_Params s"
    "GovernanceDelegations (s\<lparr>Votes := x\<rparr>) = GovernanceDelegations s" by simp_all
  show ?thesis
    unfolding ValidateGovernorMinSelfDelegation_def validateGovernorMinSelfDelegationWithExclusions_def
      validateGovernorMinSelfDelegationWithTotalBonded_def getGovernorBondedTokensWithExclusions_def Params_Get_def e ..
qed

lemma governor_power_eq:
  assumes "sdk_math (mth k)" and "getGovernorVotingPower (mth k) gi vals = Inr P" and "governor_ok k s vals vs g gi"
  shows "P = governor_power k s vals vs g"
proof -
  have get: "store_get (ValShares gi) val \<noteq> None" if "(val, sh) \<in> set (ValShares gi)" for val sh
    using that by (simp add: store_get_def map_of_eq_None_iff) force
  have "p = p0 + (\<Sum>(val, shares) \<leftarrow> xs. case store_get vals val of None \<Rightarrow> 0 | Some v \<Rightarrow> pow (mth k) (shares - deducted k s vs g val) v)"
    if "foldR (\<lambda>(valAddrStr, shares) votingPower.
         case store_get vals valAddrStr of None \<Rightarrow> Inr votingPower
         | Some val \<Rightarrow> bindR (deref (store_get (ValSharesDeductions gi) valAddrStr)) (\<lambda>deduction.
             bindR (dec_Sub (mth k) shares deduction) (\<lambda>sharesAfterDeductions.
             bindR (share_power (mth k) sharesAfterDeductions val) (\<lambda>p. dec_Add (mth k) votingPower p)))) xs p0 = Inr p"
      and "set xs \<subseteq> set (ValShares gi)" for xs p0 p
    using that
  proof (induction xs arbitrary: p0)
    case (Cons x xs)
    obtain val sh where x: "x = (val, sh)" by (cases x)
    have d: "store_get (ValSharesDeductions gi) val = Some (deducted k s vs g val)" if "store_get vals val \<noteq> None"
      using assms(3) get [of val sh] Cons.prems(2) that by (auto simp: governor_ok_def x)
    show ?case
    proof (cases "store_get vals val")
      case None
      then show ?thesis using Cons by (simp add: x)
    next
      case (Some v)
      then obtain q where "share_power (mth k) (sh - deducted k s vs g val) v = Inr q"
        and f: "foldR (\<lambda>(valAddrStr, shares) votingPower.
         case store_get vals valAddrStr of None \<Rightarrow> Inr votingPower
         | Some val \<Rightarrow> bindR (deref (store_get (ValSharesDeductions gi) valAddrStr)) (\<lambda>deduction.
             bindR (dec_Sub (mth k) shares deduction) (\<lambda>sharesAfterDeductions.
             bindR (share_power (mth k) sharesAfterDeductions val) (\<lambda>p. dec_Add (mth k) votingPower p)))) xs (p0 + q) = Inr p"
        using Cons.prems(1) d
        by (auto simp: x bindR_eq_Inr dest!: sdk_math.dec_Sub_Inr [OF assms(1)] sdk_math.dec_Add_Inr [OF assms(1)])
      then show ?thesis using Cons.IH [OF f] Cons.prems(2) Some by (simp add: x pow_def)
    qed
  qed simp
  from this [of "ValShares gi" 0 P] show ?thesis
    using assms(2,3) by (simp add: getGovernorVotingPower_def store_walk_def governor_power_def governor_ok_def)
qed

lemma getCurrGovernors_eq:
  assumes "getCurrGovernors k s' gs = Inr out"
  shows "out = map snd (filter (\<lambda>(_, gi). is_voting_governor k s' gi = Inr True) gs)"
proof -
  have "out = acc @ map snd (filter (\<lambda>(_, gi). is_voting_governor k s' gi = Inr True) xs)"
    if "foldR (\<lambda>(_, gi) acc. bindR (is_voting_governor k s' gi) (\<lambda>ok. Inr (if ok then acc @ [gi] else acc))) xs acc = Inr out" for xs acc
    using that
  proof (induction xs arbitrary: acc)
    case (Cons x xs)
    obtain ok where "is_voting_governor k s' (snd x) = Inr ok" using Cons.prems by (cases x) (auto simp: bindR_eq_Inr)
    then show ?case using Cons.prems Cons.IH [of "if ok then acc @ [snd x] else acc"] by (cases x; cases ok) auto
  qed simp
  from this [of gs "[]"] show ?thesis using assms by (simp add: getCurrGovernors_def store_walk_def)
qed

lemma tallyGovernors_eq:
  assumes "sdk_math (mth k)" and "foldR (tallyGovernor k vals isFinal) (map snd xs) (tot, r) = Inr (tot', r')"
    and "\<not> isFinal \<Longrightarrow> r = Map.empty" and "\<And>g gi. (g, gi) \<in> set xs \<Longrightarrow> governor_ok k s vals vs g gi"
  shows "tot' = tot + (\<Sum>(g, _) \<leftarrow> xs. governor_power k s vals vs g) \<and>
    (\<forall>opt. r' opt = map_option (\<lambda>x. x + (\<Sum>(g, _) \<leftarrow> xs. opt_pow k (governor_vote k s vs g) (governor_power k s vals vs g) opt)) (r opt))"
  using assms(2-4)
proof (induction xs arbitrary: tot r)
  case Nil
  then show ?case by (simp add: option.map_ident)
next
  case (Cons x xs)
  obtain g gi where x: "x = (g, gi)" by (cases x)
  have ok: "governor_ok k s vals vs g gi" using Cons.prems(3) by (simp add: x)
  obtain t1 r1 where t1: "tallyGovernor k vals isFinal gi (tot, r) = Inr (t1, r1)"
    and f1: "foldR (tallyGovernor k vals isFinal) (map snd xs) (t1, r1) = Inr (tot', r')"
    using Cons.prems(1) by (auto simp: x bindR_eq_Inr)
  then obtain P where P: "getGovernorVotingPower (mth k) gi vals = Inr P" and r1: "addResults k isFinal (gi_Vote gi) P r = Inr r1"
    and "dec_Add (mth k) tot P = Inr t1"
    by (auto simp: tallyGovernor_def bindR_eq_Inr)
  then have f: "foldR (tallyGovernor k vals isFinal) (map snd xs) (tot + P, r1) = Inr (tot', r')"
    using f1 sdk_math.dec_Add_Inr [OF assms(1)] by metis
  note a = addResults_eq [OF assms(1) r1 Cons.prems(2)]
  have "r1 = Map.empty" if "\<not> isFinal" using a Cons.prems(2) that by (intro ext) auto
  then have ih: "tot' = tot + P + (\<Sum>(g, _) \<leftarrow> xs. governor_power k s vals vs g) \<and>
    (\<forall>opt. r' opt = map_option (\<lambda>x. x + (\<Sum>(g, _) \<leftarrow> xs. opt_pow k (governor_vote k s vs g) (governor_power k s vals vs g) opt)) (r1 opt))"
    using Cons.IH [OF f] Cons.prems(3) by simp
  show ?case
    using ih ok by (simp add: x a governor_power_eq [OF assms(1) P ok] option.map_comp comp_def add.assoc governor_ok_def)
qed

lemma is_voting_governor_iff:
  assumes "governor_ok k s vals vs g gi"
  shows "is_voting_governor k (s\<lparr>Votes := x\<rparr>) gi = Inr True \<longleftrightarrow> governor_vote k s vs g \<noteq> [] \<and>
    (\<exists>gov. store_get (Governors s) (gi_Address (governor_info k s g)) = Some gov \<and> ValidateGovernorMinSelfDelegation k s gov = Inr True)"
  using assms by (auto simp: is_voting_governor_def self_delegation_frame governor_ok_def bindR_eq_Inr split: option.splits)

lemma voting_governors_eq:
  assumes "tally_inv k s vals r0 vs ts"
  defines "xs \<equiv> filter (\<lambda>(_, gi). is_voting_governor k (ts_store ts) gi = Inr True) (allGovernors ts)"
  shows "(\<Sum>(g, _) \<leftarrow> xs. F g) = (\<Sum>g \<in> voting_governors k s vs. F g)"
proof -
  have wf: "store_wf (allGovernors ts)" and st: "ts_store ts = s\<lparr>Votes := Votes (ts_store ts)\<rparr>"
    and inv: "\<And>g. case store_get (allGovernors ts) g of None \<Rightarrow> \<forall>v \<in> set vs. governor_of k s v \<noteq> Some g
       | Some gi \<Rightarrow> (\<exists>v \<in> set vs. governor_of k s v = Some g) \<and> governor_ok k s vals vs g gi"
    using assms(1) by (auto simp: tally_inv_def)
  have xs: "(g, gi) \<in> set xs \<longleftrightarrow> store_get (allGovernors ts) g = Some gi \<and> governor_vote k s vs g \<noteq> [] \<and>
      (\<exists>gov. store_get (Governors s) (gi_Address (governor_info k s g)) = Some gov \<and> ValidateGovernorMinSelfDelegation k s gov = Inr True)" for g gi
    using inv [of g] is_voting_governor_iff [of k s vals vs g gi "Votes (ts_store ts)"]
    by (auto simp: xs_def store_in_set [OF wf] simp flip: st)
  have "distinct (map fst xs)" using kv.walk_distinct [OF wf] unfolding xs_def store_walk_def by (rule distinct_map_filter)
  moreover have "(\<Sum>(g, _) \<leftarrow> xs. F g) = sum_list (map F (map fst xs))" by (induction xs) auto
  ultimately have "(\<Sum>(g, _) \<leftarrow> xs. F g) = sum F (fst ` set xs)" by (simp add: sum_list_distinct_conv_sum_set del: map_map)
  also have "fst ` set xs = voting_governors k s vs"
  proof (intro set_eqI iffI)
    fix g assume "g \<in> fst ` set xs"
    then obtain gi where "(g, gi) \<in> set xs" by auto
    then show "g \<in> voting_governors k s vs" using inv [of g] by (force simp: xs voting_governors_def)
  next
    fix g assume g: "g \<in> voting_governors k s vs"
    then have "store_get (allGovernors ts) g \<noteq> None" using inv [of g] by (auto simp: voting_governors_def split: option.splits)
    then have "\<exists>gi. (g, gi) \<in> set xs" using g by (auto simp: xs voting_governors_def)
    then show "g \<in> fst ` set xs" by force
  qed
  finally show ?thesis .
qed

section \<open>The tally\<close>

lemma tallyVotes_eq:
  assumes "sdk_math (mth k)" and "tallyVotes k s p vals isFinal = Inr (s', tot, r)"
  defines "vs \<equiv> map snd (votes_of s (Id p))"
  shows "s' = s\<lparr>Votes := Votes s'\<rparr> \<and> tot = spec_total k s vals vs \<and>
    (isFinal \<longrightarrow> (\<forall>opt \<in> {OptionYes, OptionAbstain, OptionNo}. r opt = Some (spec_result k s vals vs opt)))"
proof -
  define r0 where "r0 = (if isFinal then [OptionYes \<mapsto> 0, OptionAbstain \<mapsto> 0, OptionNo \<mapsto> 0] else (Map.empty :: tally_map))"
  obtain ts gs where w: "foldR (tallyVote k vals isFinal) (votes_of s (Id p))
        \<lparr>ts_store = s, allGovernors = [], totalVotingPower = 0, results = r0\<rparr> = Inr ts"
    and gs: "getCurrGovernors k (ts_store ts) (allGovernors ts) = Inr gs" and s': "s' = ts_store ts"
    and f: "foldR (tallyGovernor k vals isFinal) gs (totalVotingPower ts, results ts) = Inr (tot, r)"
    using assms(2) by (auto simp: tallyVotes_def r0_def bindR_eq_Inr)
  have r0: "r0 = Map.empty" if "\<not> isFinal" using that by (simp add: r0_def)
  have "tally_inv k s vals r0 [] \<lparr>ts_store = s, allGovernors = [], totalVotingPower = 0, results = r0\<rparr>"
    by (simp add: tally_inv_def option.map_ident store_get_def)
  from tallyVote_walk [OF assms(1) w this r0] have inv: "tally_inv k s vals r0 vs ts" by (simp add: vs_def)
  have empty: "results ts = Map.empty" if "\<not> isFinal" using inv r0 [OF that] by (intro ext) (simp add: tally_inv_def)
  let ?xs = "filter (\<lambda>(_, gi). is_voting_governor k (ts_store ts) gi = Inr True) (allGovernors ts)"
  have "governor_ok k s vals vs g gi" if "(g, gi) \<in> set ?xs" for g gi
  proof -
    have "store_get (allGovernors ts) g = Some gi" using that inv by (auto simp: tally_inv_def store_in_set)
    then show ?thesis using inv by (auto simp: tally_inv_def split: option.splits)
  qed
  from tallyGovernors_eq [OF assms(1) f [unfolded getCurrGovernors_eq [OF gs]] empty this]
  show ?thesis
    using inv by (auto simp: s' voting_governors_eq [OF inv] tally_inv_def spec_total_def spec_result_def r0_def)
qed

lemma quorum_frame: "getQuorumAndThreshold k (s\<lparr>Votes := x\<rparr>) p = getQuorumAndThreshold k s p"
proof -
  have e: "gov_Params (s\<lparr>Votes := x\<rparr>) = gov_Params s" "ParticipationEMA (s\<lparr>Votes := x\<rparr>) = ParticipationEMA s"
    "ConstitutionAmendmentParticipationEMA (s\<lparr>Votes := x\<rparr>) = ConstitutionAmendmentParticipationEMA s"
    "LawParticipationEMA (s\<lparr>Votes := x\<rparr>) = LawParticipationEMA s" by simp_all
  show ?thesis
    unfolding getQuorumAndThreshold_def GetQuorum_def GetConstitutionAmendmentQuorum_def GetLawQuorum_def Params_Get_def e ..
qed

section \<open>An example\<close>

text \<open>A governor with six billion of the eight billion bonded tokens votes yes; a delegator with one of the six votes no.\<close>

definition units :: "int \<Rightarrow> dec" where
  "units n = n * 10 ^ 9 * precision"

definition ex_vote :: "string \<Rightarrow> vote_option \<Rightarrow> vote" where
  "ex_vote a opt = \<lparr>vote_ProposalId = 1, Voter = a, Options = [\<lparr>Option = opt, Weight = LegacyDec_String ex_text precision\<rparr>], vote_Metadata = []\<rparr>"

definition ex_validator :: validator where
  "ex_validator = \<lparr>val_Operator = ''atonevaloper1val'', BondedTokens = 8000000000, DelegatorShares = units 8\<rparr>"

definition ex_tally :: gov_store where
  "ex_tally = ex_gov\<lparr>Votes := [((1, AccKey ''gus''), ex_vote ''atone1gus'' OptionYes), ((1, AccKey ''bob''), ex_vote ''atone1bob'' OptionNo)],
     Governors := [(''gus'', \<lparr>gvn_Address = ''atonegov1gus'', gvn_Status = Active,
       gvn_Description = \<lparr>Moniker = [], Identity = [], Website = [], SecurityContact = [], Details = []\<rparr>, LastStatusChangeTime = None\<rparr>)],
     GovernanceDelegations := [(''bob'', \<lparr>gd_Delegator = ''atone1bob'', gd_Governor = ''atonegov1gus''\<rparr>),
       (''gus'', \<lparr>gd_Delegator = ''atone1gus'', gd_Governor = ''atonegov1gus''\<rparr>)],
     ValidatorSharesByGovernor := [((AccKey ''gus'', ''val''), \<lparr>gvs_Governor = ''atonegov1gus'', gvs_Validator = ''atonevaloper1val'', Shares = units 6\<rparr>)],
     staking := \<lparr>TotalBondedTokens = Inr 8000000000, BondedValidatorsByPower = Inr [ex_validator],
       DelegationsOf = (\<lambda>a. Inr (if a = ''gus'' then [\<lparr>del_Validator = ''atonevaloper1val'', del_Shares = units 2\<rparr>]
         else if a = ''bob'' then [\<lparr>del_Validator = ''atonevaloper1val'', del_Shares = units 1\<rparr>] else [])),
       GetValidator = (\<lambda>_. Inr ex_validator), GetDelegation = (\<lambda>_ _. Inl (Err ''not found''))\<rparr>\<rparr>"

lemma ex_codec:
  "StringToBytes ex_addr ''atone1gus'' = Inr ''gus''" "StringToBytes ex_addr ''atone1bob'' = Inr ''bob''"
  "GovernorAddress_String ex_gov_keeper ''gus'' = Inr ''atonegov1gus''" "GovernorAddress_String ex_gov_keeper ''bob'' = Inr ''atonegov1bob''"
  "MustGovernorAddressFromBech32 ex_gov_keeper ''atonegov1gus'' = Inr ''gus''"
  "ValAddressFromBech32 ex_gov_keeper ''atonevaloper1val'' = Inr ''val''"
  "ValAddress_String ex_gov_keeper ''val'' = Inr ''atonevaloper1val''"
  by (simp_all add: StringToBytes_def GovernorAddress_String_def MustGovernorAddressFromBech32_def ValAddressFromBech32_def
    ValAddress_String_def GovernorAddressFromBech32_def AddressFromBech32_def AddressString_def govPrefix_def PrefixGovernor_def
    ex_gov_keeper_def ex_keeper_def ex_addr_def TrimSpace_def is_space_def DecodeAndConvert_def ConvertAndEncode_def
    GetFromBech32_def VerifyAddressFormat_def MaxAddrLen_def must_def)

lemma ex_lower: "canonicalValAddr ''atonevaloper1val'' = ''atonevaloper1val''"
  by code_simp

lemma ref_Quo: "dec_Quo ref_math x y = (if y = 0 then Inl (Panic ''division by zero'')
    else checked 315 (chop_round ((x * precision * precision) sdiv y)))"
  by (simp add: ref_math_def)

lemma ex_quotients:
  "dec_Quo ref_math (8000000000 * units 1) (units 8) = Inr (units 1)" "dec_Quo ref_math (8000000000 * units 2) (units 8) = Inr (units 2)"
  "dec_Quo ref_math (8000000000 * units 3) (units 8) = Inr (units 3)" "dec_Quo ref_math (units 6) (8000000000 * precision) = Inr (milli 750)"
  "dec_Quo ref_math (units 5) (units 6) = Inr 833333333333333333"
  unfolding ref_Quo by (simp_all add: units_def milli_def checked_def chop_round_def precision_def signed_divide_int_def)

lemma ex_products: "\<bar>n\<bar> < 10 \<Longrightarrow> dec_MulInt ref_math (units n) 8000000000 = Inr (8000000000 * units n)"
  by (simp add: units_def ref_math_def checked_def precision_def)

lemma ex_powers:
  "share_power ref_math (units 1) ex_validator = Inr (units 1)" "share_power ref_math (units 2) ex_validator = Inr (units 2)"
  "share_power ref_math (units 3) ex_validator = Inr (units 3)"
  by (simp_all add: share_power_def ex_validator_def ex_quotients ex_products)

lemma ex_sums:
  "dec_Add ref_math 0 (units 1) = Inr (units 1)" "dec_Add ref_math 0 (units 2) = Inr (units 2)" "dec_Add ref_math 0 (units 3) = Inr (units 3)"
  "dec_Add ref_math (units 2) (units 1) = Inr (units 3)" "dec_Add ref_math (units 2) (units 3) = Inr (units 5)"
  "dec_Add ref_math (units 3) (units 3) = Inr (units 6)" "dec_Sub ref_math (units 6) (units 3) = Inr (units 3)"
  "dec_Sub ref_math (units 6) 0 = Inr (units 6)" 
  "dec_TruncateInt ref_math (units 5) = Inr 5000000000" "dec_TruncateInt ref_math (units 1) = Inr 1000000000" "dec_TruncateInt ref_math 0 = Inr 0"
  "dec_TruncateInt ref_math (units 2) = Inr 2000000000" "int_Add ref_math 0 2000000000 = Inr 2000000000"
  "dec_Mul ref_math (milli 400) (precision div 2) = Inr (milli 200)"
  "dec_Sub ref_math (milli 500) (milli 100) = Inr (milli 400)" "dec_Add ref_math (milli 100) (milli 200) = Inr (milli 300)"
  by (simp_all add: units_def milli_def ref_math_def checked_def precision_def signed_divide_int_def chop_round_def)

lemma ex_tally_simps:
  "GovernanceDelegations ex_tally = [(''bob'', \<lparr>gd_Delegator = ''atone1bob'', gd_Governor = ''atonegov1gus''\<rparr>),
       (''gus'', \<lparr>gd_Delegator = ''atone1gus'', gd_Governor = ''atonegov1gus''\<rparr>)]"
  "DelegationsOf (staking ex_tally) ''gus'' = Inr [\<lparr>del_Validator = ''atonevaloper1val'', del_Shares = units 2\<rparr>]"
  "DelegationsOf (staking ex_tally) ''bob'' = Inr [\<lparr>del_Validator = ''atonevaloper1val'', del_Shares = units 1\<rparr>]"
  "TotalBondedTokens (staking ex_tally) = Inr 8000000000" "GetValidator (staking ex_tally) a = Inr ex_validator"
  "gov_codec ex_gov_keeper = ex_addr" "governor_shares ex_tally ''gus'' = [\<lparr>gvs_Governor = ''atonegov1gus'', gvs_Validator = ''atonevaloper1val'', Shares = units 6\<rparr>]"
  "gov_Params ex_tally = Some ex_gov_params" "Votes ex_tally = [((1, AccKey ''gus''), ex_vote ''atone1gus'' OptionYes), ((1, AccKey ''bob''), ex_vote ''atone1bob'' OptionNo)]"
  by (simp_all add: ex_tally_def ex_gov_def ex_gov_keeper_def ex_keeper_def governor_shares_def store_walk_def)

lemma ex_bonded: "getBondedValidatorsByAddress ex_tally = Inr [(''atonevaloper1val'', ex_validator)]"
  by (simp add: getBondedValidatorsByAddress_def ex_tally_def ex_validator_def ex_lower)

lemma ex_quorum: "getQuorumAndThreshold ex_gov_keeper ex_tally ex_proposal = Inr (milli 300, milli 667)"
proof -
  have p: "gov_Params ex_tally = Some ex_gov_params" "ParticipationEMA ex_tally = Some (precision div 2)"
    by (simp_all add: ex_tally_def ex_gov_def)
  have "QuorumRange ex_gov_params = Some \<lparr>QMax = LegacyDec_String ex_text (milli 500), QMin = LegacyDec_String ex_text (milli 100)\<rparr>"
    "Threshold ex_gov_params = LegacyDec_String ex_text (milli 667)" by (simp_all add: ex_gov_params_def NewParams_def Let_def)
  then show ?thesis
    by (simp add: getQuorumAndThreshold_def p GetQuorum_def Params_Get_def quorum_in_range_def computeQuorum_def ProposalKinds_def
      ex_proposal_def LegacyMustNewDecFromStr_def parse_milli ex_gov_simps ex_sums must_def deref_def Let_def)
qed

definition ex_info :: "dec \<Rightarrow> governor_gov_info" where
  "ex_info d = \<lparr>gi_Address = ''gus'', ValShares = [(''atonevaloper1val'', units 6)], ValSharesDeductions = [(''atonevaloper1val'', d)],
     gi_Vote = Options (ex_vote ''atone1gus'' OptionYes)\<rparr>"

lemma ex_addResults: "addResults ex_gov_keeper isFinal (Options (ex_vote a opt)) P r = (if isFinal
    then bindR (deref (r opt)) (\<lambda>old. bindR (dec_Add ref_math old P) (\<lambda>new. Inr (r(opt \<mapsto> new)))) else Inr r)"
  by (simp add: addResults_def ex_vote_def WeightedVoteOption_Power_def ex_gov_simps bindR_assoc)

abbreviation ex_vals where "ex_vals \<equiv> [(''atonevaloper1val'', ex_validator)]"

lemma ex_tallyDelegation:
  assumes "n = 1 \<or> n = 2"
  shows "tallyDelegation ex_gov_keeper ex_vals True (Options (ex_vote a opt)) True \<lparr>del_Validator = ''atonevaloper1val'', del_Shares = units n\<rparr>
    ([(''atonevaloper1val'', d)], tot, r) = bindR (dec_Add ref_math d (units n)) (\<lambda>d. bindR (dec_Add ref_math tot (units n)) (\<lambda>tot.
      bindR (deref (r opt)) (\<lambda>old. bindR (dec_Add ref_math old (units n)) (\<lambda>new. Inr ([(''atonevaloper1val'', d)], tot, r(opt \<mapsto> new))))))"
  using assms by (auto simp: tallyDelegation_def ex_lower ex_powers ex_sums ex_addResults ex_gov_simps store_get_def bindR_assoc)

lemma ex_gus: "tallyVote ex_gov_keeper ex_vals True ((1, AccKey ''gus''), ex_vote ''atone1gus'' OptionYes)
   \<lparr>ts_store = ex_tally, allGovernors = [], totalVotingPower = 0, results = [OptionYes \<mapsto> 0, OptionAbstain \<mapsto> 0, OptionNo \<mapsto> 0]\<rparr>
   = Inr \<lparr>ts_store = ex_tally\<lparr>Votes := [((1, AccKey ''bob''), ex_vote ''atone1bob'' OptionNo)]\<rparr>,
       allGovernors = [(''atonegov1gus'', ex_info (units 2))], totalVotingPower = units 2,
       results = [OptionYes \<mapsto> units 2, OptionAbstain \<mapsto> 0, OptionNo \<mapsto> 0]\<rparr>"
proof -
  let ?v = "ex_vote ''atone1gus'' OptionYes"
  have v: "vote_ProposalId ?v = 1" "Voter ?v = ''atone1gus''" "Votes ex_tally = [((1, AccKey ''gus''), ?v), ((1, AccKey ''bob''), ex_vote ''atone1bob'' OptionNo)]"
    by (simp_all add: ex_vote_def ex_tally_def)
  show ?thesis
    by (simp add: tallyVote_def v ex_tally_simps ex_codec lookupGovernor_def NewGovernorGovInfo_def store_get_def
      ex_tallyDelegation ex_sums deref_def store_rem_def ex_info_def fun_upd_twist Let_def)
qed

lemma ex_bob: "tallyVote ex_gov_keeper ex_vals True ((1, AccKey ''bob''), ex_vote ''atone1bob'' OptionNo)
   \<lparr>ts_store = ex_tally\<lparr>Votes := [((1, AccKey ''bob''), ex_vote ''atone1bob'' OptionNo)]\<rparr>,
       allGovernors = [(''atonegov1gus'', ex_info (units 2))], totalVotingPower = units 2,
       results = [OptionYes \<mapsto> units 2, OptionAbstain \<mapsto> 0, OptionNo \<mapsto> 0]\<rparr>
   = Inr \<lparr>ts_store = ex_tally\<lparr>Votes := []\<rparr>,
       allGovernors = [(''atonegov1gus'', ex_info (units 3))], totalVotingPower = units 3,
       results = [OptionYes \<mapsto> units 2, OptionAbstain \<mapsto> 0, OptionNo \<mapsto> units 1]\<rparr>"
proof -
  let ?v = "ex_vote ''atone1bob'' OptionNo"
  have v: "vote_ProposalId ?v = 1" "Voter ?v = ''atone1bob''" by (simp_all add: ex_vote_def)
  show ?thesis
    by (simp add: tallyVote_def v ex_tally_simps ex_codec lookupGovernor_def store_get_def
      ex_tallyDelegation ex_sums deref_def store_rem_def ex_info_def fun_upd_twist Let_def)
qed

lemma ex_governor: "getCurrGovernors ex_gov_keeper (ex_tally\<lparr>Votes := []\<rparr>) [(''atonegov1gus'', ex_info (units 3))] = Inr [ex_info (units 3)]"
proof -
  have self: "NewIntFromString ex_text (MinGovernorSelfDelegation ex_gov_params) = Some 1000000000"
    by (simp add: ex_gov_params_def NewParams_def Let_def ext.int_text int_ok_def)
  have t: "getGovernorBondedTokensWithExclusions ex_gov_keeper ex_tally ''gus'' [] = Inr 2000000000"
    by (simp add: getGovernorBondedTokensWithExclusions_def ex_tally_simps ex_codec must_def ex_sums ex_gov_simps
      ex_products ex_quotients ex_validator_def)
  obtain g where g: "store_get (Governors ex_tally) ''gus'' = Some g" "gvn_Address g = ''atonegov1gus''" "gvn_Status g = Active"
    by (simp add: ex_tally_def store_get_def)
  have "ValidateGovernorMinSelfDelegation ex_gov_keeper ex_tally g = Inr True"
    using t by (simp add: g ex_tally_simps Params_Get_def ValidateGovernorMinSelfDelegation_def
      validateGovernorMinSelfDelegationWithExclusions_def validateGovernorMinSelfDelegationWithTotalBonded_def
      Governor_GetAddress_def ex_codec Governor_IsActive_def store_get_def self must_def ex_gov_simps)
  then have "is_voting_governor ex_gov_keeper (ex_tally\<lparr>Votes := []\<rparr>) (ex_info (units 3)) = Inr True"
    by (simp add: is_voting_governor_def g self_delegation_frame ex_info_def ex_vote_def)
  then show ?thesis by (simp add: getCurrGovernors_def store_walk_def)
qed

lemma ex_tallyVotes: "tallyVotes ex_gov_keeper ex_tally ex_proposal ex_vals True = Inr (ex_tally\<lparr>Votes := []\<rparr>, units 6,
    [OptionYes \<mapsto> units 5, OptionAbstain \<mapsto> 0, OptionNo \<mapsto> units 1])"
proof -
  have v: "votes_of ex_tally (Id ex_proposal) = [((1, AccKey ''gus''), ex_vote ''atone1gus'' OptionYes), ((1, AccKey ''bob''), ex_vote ''atone1bob'' OptionNo)]"
    by (simp add: votes_of_def ex_tally_def ex_proposal_def store_walk_def)
  have "getGovernorVotingPower ref_math (ex_info (units 3)) ex_vals = Inr (units 3)"
    by (simp add: getGovernorVotingPower_def ex_info_def store_walk_def store_get_def deref_def ex_sums ex_powers)
  moreover have "gi_Vote (ex_info (units 3)) = Options (ex_vote ''atone1gus'' OptionYes)" by (simp add: ex_info_def)
  moreover have "[OptionYes \<mapsto> units 2, OptionAbstain \<mapsto> 0, OptionNo \<mapsto> units 1, OptionYes \<mapsto> units 5]
      = [OptionYes \<mapsto> units 5, OptionAbstain \<mapsto> 0, OptionNo \<mapsto> units 1]" by auto
  ultimately show ?thesis
    by (simp add: tallyVotes_def v ex_gus ex_bob ex_governor tallyGovernor_def ex_gov_simps ex_addResults ex_sums deref_def)
qed

lemma ex_Tally: "\<exists>out. Tally ex_gov_keeper ex_tally ex_proposal = Inr (ex_tally\<lparr>Votes := []\<rparr>, out) \<and> passes out"
proof -
  have p: "gov_Params ex_tally = Some ex_gov_params" by (simp add: ex_tally_def ex_gov_def)
  have "\<not> milli 750 < milli 300" "milli 667 < 833333333333333333" "units 6 \<noteq> 0" by (simp_all add: milli_def units_def precision_def)
  then show ?thesis
    by (simp add: Tally_def ex_bonded ex_tallyVotes Params_Get_def p NewTallyResultFromMap_def deref_def ex_sums ex_gov_simps ex_tally_simps
       ex_quotients dec_of_int_def quorum_frame ex_quorum)
qed

section \<open>The property\<close>

text \<open>C2: the tally of a proposal decides by the stake of those who took part. With the power of each voter
  counted once, a governor's less the shares of its delegators that voted themselves, a proposal
  passes exactly when the participation reaches the quorum of its kinds, some of the power is not abstaining
  and the share of yes in that power is above the threshold of its kinds; the participation returned is the
  counted power over the bonded tokens, the early quorum check agrees with it, and only votes are removed.\<close>

theorem tally_decides_by_stake:
  assumes "sdk_math (mth k)" and "Tally k s p = Inr (s', out)" and "getBondedValidatorsByAddress s = Inr vals"
    and "TotalBondedTokens (staking s) = Inr B" and "getQuorumAndThreshold k s p = Inr (q, t)"
  defines "vs \<equiv> map snd (votes_of s (Id p))"
  shows "s' = s\<lparr>Votes := Votes s'\<rparr> \<and>
    (passes out \<longleftrightarrow> B \<noteq> 0 \<and> spec_total k s vals vs \<noteq> spec_result k s vals vs OptionAbstain \<and>
      (\<exists>x y. dec_Quo (mth k) (spec_total k s vals vs) (dec_of_int B) = Inr x \<and> q \<le> x \<and>
        dec_Quo (mth k) (spec_result k s vals vs OptionYes) (spec_total k s vals vs - spec_result k s vals vs OptionAbstain) = Inr y \<and> t < y)) \<and>
    (B \<noteq> 0 \<longrightarrow> dec_Quo (mth k) (spec_total k s vals vs) (dec_of_int B) = Inr (participation out) \<and>
      (\<forall>b. HasReachedQuorum k s p = Inr b \<longrightarrow> b \<longleftrightarrow> q \<le> participation out))"
proof -
  obtain tot r where tv: "tallyVotes k s p vals True = Inr (s', tot, r)"
    using assms(2,3) by (auto simp: Tally_def bindR_eq_Inr split: if_splits)
  note t = tallyVotes_eq [OF assms(1) tv, folded vs_def]
  have tot: "tot = spec_total k s vals vs" and r: "r OptionYes = Some (spec_result k s vals vs OptionYes)"
    "r OptionAbstain = Some (spec_result k s vals vs OptionAbstain)" "r OptionNo = Some (spec_result k s vals vs OptionNo)"
    and st: "s' = s\<lparr>Votes := Votes s'\<rparr>" using t by auto
  have B: "TotalBondedTokens (staking s') = Inr B" by (subst st) (simp add: assms(4))
  have q: "getQuorumAndThreshold k s' p = Inr (q, t)" by (subst st) (simp add: quorum_frame assms(5))
  note sub = sdk_math.dec_Sub_Inr [OF assms(1)]
  have main: "(passes out \<longleftrightarrow> B \<noteq> 0 \<and> spec_total k s vals vs \<noteq> spec_result k s vals vs OptionAbstain \<and>
      (\<exists>x y. dec_Quo (mth k) (spec_total k s vals vs) (dec_of_int B) = Inr x \<and> q \<le> x \<and>
        dec_Quo (mth k) (spec_result k s vals vs OptionYes) (spec_total k s vals vs - spec_result k s vals vs OptionAbstain) = Inr y \<and> t < y)) \<and>
    (B \<noteq> 0 \<longrightarrow> dec_Quo (mth k) (spec_total k s vals vs) (dec_of_int B) = Inr (participation out))"
    using assms(2,3) tv by (auto simp: Tally_def bindR_eq_Inr B q r tot deref_def split: if_splits dest!: sub)
  have "b \<longleftrightarrow> q \<le> x" if "HasReachedQuorum k s p = Inr b" "B \<noteq> 0" "dec_Quo (mth k) (spec_total k s vals vs) (dec_of_int B) = Inr x" for b x
    using that assms(3-5) by (auto simp: HasReachedQuorum_def bindR_eq_Inr vs_def dest!: tallyVotes_eq [OF assms(1)])
  then show ?thesis using main st by blast
qed

theorem tally_decides_by_stake_witness:
  "\<exists>out. Tally ex_gov_keeper ex_tally ex_proposal = Inr (ex_tally\<lparr>Votes := []\<rparr>, out) \<and> passes out \<and>
     dec_Quo ref_math (spec_total ex_gov_keeper ex_tally ex_vals (map snd (votes_of ex_tally (Id ex_proposal)))) (dec_of_int 8000000000)
       = Inr (participation out)"
proof -
  obtain out where out: "Tally ex_gov_keeper ex_tally ex_proposal = Inr (ex_tally\<lparr>Votes := []\<rparr>, out)" "passes out" using ex_Tally by blast
  note t = tally_decides_by_stake [of ex_gov_keeper, unfolded ex_gov_simps(1), OF ref_math_laws out(1) ex_bonded ex_tally_simps(4) ex_quorum]
  from t [THEN conjunct2, THEN conjunct2] show ?thesis by (intro exI [of _ out] conjI out) simp
qed

end
