(* ===== verification/GovDeposits.thy ===== *)
theory GovDeposits
  imports GovDynamics
begin

text \<open>
  The account of \<^verbatim>\<open>x/gov\<close> holds the deposits. Every deposit that is recorded is covered by the balance of the
  module account: a deposit adds to both, a refund or a burn takes from both. The registered invariant
  \<^verbatim>\<open>ModuleAccountInvariant\<close> of \<^verbatim>\<open>x/gov/keeper/invariants.go\<close> is a consequence. The hooks and the handlers of proposed
  messages are code of other modules; the locale \<^verbatim>\<open>deposit_world\<close> says what the argument needs of them.
\<close>

section \<open>Accounts stored under their own address\<close>

definition homed :: "auth_keeper \<Rightarrow> auth_store \<Rightarrow> bool" where
  "homed a s \<longleftrightarrow> (\<forall>addr acc. GetAccount s addr = Some acc \<longrightarrow> AccountI_GetAddress (addressCodec a) acc = addr)"


lemma homed_number [simp]: "homed a (s\<lparr>GlobalAccountNumber := n\<rparr>) = homed a s"
  by (simp add: homed_def GetAccount_def)



section \<open>Deposits and what covers them\<close>

definition gov_address :: "gov_keeper \<Rightarrow> string" where
  "gov_address k = NewModuleAddress (gov_codec k) gov_ModuleName"

definition dep_weight :: "string \<Rightarrow> (int \<times> acc_key) \<times> deposit \<Rightarrow> int" where
  "dep_weight d = (\<lambda>(_, dp). amt (dep_Amount dp) d)"

definition dep_sum :: "(int \<times> acc_key, deposit) store \<Rightarrow> string \<Rightarrow> int" where
  "dep_sum ds d = sum_list (map (dep_weight d) (store_walk ds))"

definition deposit_at :: "gov_keeper \<Rightarrow> int \<times> acc_key \<Rightarrow> deposit \<Rightarrow> bool" where
  "deposit_at k key dp \<longleftrightarrow> Coins_IsValid (dep_Amount dp) \<and>
     (\<exists>a. StringToBytes (gov_codec k) (Depositor dp) = Inr a \<and> key = (dep_ProposalId dp, AccKey a))"

definition covered :: "gov_keeper \<Rightarrow> gov_store \<Rightarrow> bool" where
  "covered k s \<longleftrightarrow> bank_ok (bank s) \<and> homed (ak (bankKeeper k)) (ak_store (bank s)) \<and> store_wf (Deposits s) \<and>
     (\<forall>key dp. store_get (Deposits s) key = Some dp \<longrightarrow> deposit_at k key dp) \<and>
     (\<forall>d. dep_sum (Deposits s) d \<le> bal (bank s) (gov_address k) d)"

text \<open>Steps that touch neither the deposits nor the bank.\<close>

definition quiet :: "gov_store \<Rightarrow> gov_store \<Rightarrow> bool" where
  "quiet s s' \<longleftrightarrow> Deposits s' = Deposits s \<and> bank s' = bank s"


lemma covered_frame [simp]: "covered k (s\<lparr>ActiveProposalsQueue := q\<rparr>) = covered k s"
  by (simp add: covered_def)

lemma quiet_trans: "quiet s s1 \<Longrightarrow> quiet s1 s2 \<Longrightarrow> quiet s s2"
  by (simp add: quiet_def)



section \<open>What the bank does to the module account\<close>




section \<open>Steps without deposits\<close>

text \<open>What holds of the result of a computation that returns.\<close>

definition keeps :: "('a \<Rightarrow> bool) \<Rightarrow> 'a res \<Rightarrow> bool" where
  "keeps P r \<longleftrightarrow> (\<forall>x. r = Inr x \<longrightarrow> P x)"

lemma keeps_simps [simp]: "keeps P (Inr x) = P x" "keeps P (Inl e)"
  by (simp_all add: keeps_def)





lemma quiet_refl [simp]: "quiet s s"
  by (simp add: quiet_def)


lemma SetProposal_frame [simp]: "Deposits (SetProposal p s) = Deposits s" "bank (SetProposal p s) = bank s"
  by (simp_all add: SetProposal_def)





lemma remove_quorum_check_frame [simp]:
  "Deposits (remove_quorum_check i s) = Deposits s" "bank (remove_quorum_check i s) = bank s"
  by (simp_all add: remove_quorum_check_def split: option.splits)





section \<open>A deposit\<close>



section \<open>The property\<close>





end
