(* ===== verification/Spec2Isabelle.thy ===== *)
theory Spec2Isabelle
  imports CoinLaws DecCoins BitArray Vesting DynamicFee BankProps GovDynamics GovTallySpec GovDeposits
begin

text \<open>
  A verification library for the state machine of the AtomOne SDK, a framework for Cosmos chains. The modelled
  core is the arithmetic of coins, accounts and vesting, the dynamic fee market, the bank, and the
  governance module with its governors, deposit throttlers and constitution. A function of the code is a HOL function
  of the same name, prefixed by its type where names clash (\<^verbatim>\<open>Coins.Add\<close> is \<open>Coins_Add\<close>), that returns a value, a
  returned error (\<open>Inl (Err _)\<close>) or a panic (\<open>Inl (Panic _)\<close>). A keeper's store is a record that the operations take
  and return; a failed call returns no state, as the code discards its cached store.

  \<^bold>\<open>Foundations.\<close>
  \<^item> \<open>Prelude\<close>: outcomes, sequencing and loops that may fail, fixed-width integers, order of strings.
  \<^item> \<open>SdkMath\<close>: \<^verbatim>\<open>cosmossdk.io/math\<close> as a parameter \<open>math_ops\<close>; its documented behaviour is the locale \<open>sdk_math\<close>,
    which the reference implementation \<open>ref_math\<close> satisfies.
  \<^item> \<open>Store\<close>: the collections of the keepers as entries in key order; the locale \<open>kv_store\<close> gives the laws of lookup,
    write and walk, and how a write changes a sum over the entries.

  \<^bold>\<open>Coins.\<close> \<open>Coins\<close> and \<open>CoinLaws\<close> model \<^verbatim>\<open>types/coin.go\<close> and \<^verbatim>\<open>types/mapcoins.go\<close>: a valid slice is the canonical form of a
  function from denominations to amounts, and each operation is the pointwise one, with the conditions under which it
  panics. \<open>DecCoins\<close> models \<^verbatim>\<open>types/dec_coin.go\<close>: sums, intersection, scaling, and truncation without loss. \<open>BitArray\<close>
  models \<^verbatim>\<open>crypto/types/compact_bit_array.go\<close> against the sequence of bits it stands for, with both round trips.

  \<^bold>\<open>Accounts.\<close> \<open>Accounts\<close> and \<open>AuthKeeper\<close> model addresses, accounts and permissions (\<^verbatim>\<open>types/address.go\<close>,
  \<^verbatim>\<open>x/auth/types\<close>, \<^verbatim>\<open>x/auth/keeper\<close>): accounts are stored under their own address with unique numbers. \<open>Vesting\<close> models
  \<^verbatim>\<open>x/auth/vesting/types\<close>: the locale \<open>vesting_account\<close> is the interface the four account types implement; vested and
  vesting coins add up to the original grant at every time, and tracking delegations keeps that.

  \<^bold>\<open>Fees.\<close> \<open>DynamicFee\<close> models \<^verbatim>\<open>x/dynamicfee\<close>: runs from genesis are a step relation; the end of a block never halts
  and keeps learning rate, price and window within the bounds of the parameters.

  \<^bold>\<open>Bank.\<close> \<open>Bank\<close> models \<^verbatim>\<open>x/bank\<close>; \<open>BankLaws\<close> has the conservation laws and the step relation of all operations with
  the registered invariants, \<open>BankSpec\<close> the abstract ledger that sending refines and genesis, \<open>BankProps\<close> the
  properties and the examples.

  \<^bold>\<open>Governance.\<close> The store is \<open>gov_store\<close> of \<open>GovKeeper\<close>, which contains the bank's store and a view of the staking module.
  \<^item> \<open>GovTypes\<close>: parameters with the whole of their validation, and the data of \<^verbatim>\<open>x/gov/types/v1\<close>.
  \<^item> \<open>UnifiedDiff\<close>: \<^verbatim>\<open>unified_diff.go\<close>, equivalent to a relational specification of patching.
  \<^item> \<open>GovKeeper\<close>, \<open>GovThrottle\<close>: the deposit throttlers and the participation averages (\<^verbatim>\<open>min_deposit.go\<close>,
    \<^verbatim>\<open>min_initial_deposit.go\<close>, \<^verbatim>\<open>participation_ema.go\<close>).
  \<^item> \<open>GovDelegation\<close>: \<^verbatim>\<open>governor.go\<close>, \<^verbatim>\<open>delegation.go\<close>, \<^verbatim>\<open>staking_hooks.go\<close>. \<open>GovTally\<close>: \<^verbatim>\<open>tally.go\<close>.
  \<^item> \<open>GovProposal\<close>: \<^verbatim>\<open>proposal.go\<close>, \<^verbatim>\<open>deposit.go\<close>, \<^verbatim>\<open>vote.go\<close>, \<^verbatim>\<open>constitution.go\<close>. \<open>GovMsgs\<close>: \<^verbatim>\<open>msg_server.go\<close>.
  \<^item> \<open>GovEndBlock\<close>: \<^verbatim>\<open>abci.go\<close>, \<^verbatim>\<open>invariants.go\<close>, \<^verbatim>\<open>genesis.go\<close>.
  \<^item> \<open>GovDynamics\<close>: minimum deposits follow activity and never fail, quorums stay in their ranges, the quorum checks of a
    proposal end.
  \<^item> \<open>GovTallySpec\<close>: a tally counts each voter once and decides by the stake that took part.
  \<^item> \<open>GovDeposits\<close>: recorded deposits stay covered by the module account, over deposits, refunds, burns and whole ends of
    blocks; the locale \<open>deposit_world\<close> states what hooks and handlers of other modules must keep.

  \<^bold>\<open>Bounds.\<close> Loops over slices, queues and stores are structural folds and need no fuel. \<open>uint64\<close> and \<open>int64\<close> values
  are integers with the wrap-around written out where the code computes with them. The nesting of authz messages is
  followed to depth 8, the limit of the code itself (\<open>maxAuthzNestingDepth\<close>). Times are nanoseconds since the Unix epoch;
  the termination of the quorum checks assumes times within \<open>2\<^sup>6\<^sup>2\<close> nanoseconds of it, about 146 years, so that a difference of
  two does not saturate. Below the bound of \<open>10\<^sup>6\<^sup>9\<close> in the throttler property the clamp of the code
  does not act.

  \<^bold>\<open>Not modelled.\<close> Third-party code enters as parameters with named laws: the arithmetic and the text form of numbers, the
  bech32 codec and hashes, the router, the handlers and the codec of messages, hooks and the reader of metadata. Events, logs, gas and
  telemetry have no effect on the state and are left out, as are errors of the underlying key-value database and
  corrupt encodings other than undecodable proposals. The staking module is a fixed view within one operation of
  governance, which only reads it. The other modules (\<^verbatim>\<open>x/staking\<close>, \<^verbatim>\<open>x/distribution\<close>, \<^verbatim>\<open>x/slashing\<close>, \<^verbatim>\<open>x/mint\<close>,
  \<^verbatim>\<open>x/authz\<close>, \<^verbatim>\<open>x/upgrade\<close> and smaller ones), the ante handlers, queries and migrations, \<^verbatim>\<open>baseapp\<close>, client, server, key
  handling and generated protobuf code are outside the library: they are input and output, cryptography and encodings, or
  state machines of their own that the modelled modules reach only through interfaces.
\<close>

end
